(* ===== verification/Go_Prelude.thy ===== *)
theory Go_Prelude
  imports
    Main
    "HOL-Library.Word"
    "HOL-Library.AList"
    "HOL-Library.Multiset"
    "HOL-Library.State_Monad"
    "HOL-Library.Signed_Division"
begin

text \<open>
  The vocabulary every component shares: what the models use of the Go language and of its
  standard library (outcomes and panics, byte strings, \<open>fmt\<close> and \<open>strings\<close>, fixed-width
  integers, maps and the order in which \<open>range\<close> visits them), calls to the outside world as
  functions of the history of calls, and the lemma collections the proofs are built on.
\<close>

named_theorems go_simps \<open>unfolding rules for the modelled Go primitives\<close>
named_theorems io_simps \<open>running effectful definitions\<close>

section \<open>Errors and panics\<close>

text \<open>
  An \<open>error\<close> value is known by its \<open>Error()\<close> text; a nil error is \<open>None\<close>. A function body
  either returns or panics, and a panic carries its reason.
\<close>

type_synonym go_error = string

datatype 'a outcome = Ret 'a | Panic string

text \<open>Dereferencing a pointer: nil is \<open>None\<close>.\<close>

definition deref :: "'a option \<Rightarrow> 'a outcome" where
  "deref p = (case p of None \<Rightarrow> Panic ''nil pointer dereference'' | Some x \<Rightarrow> Ret x)"

lemma deref_simps [simp]: "deref (Some x) = Ret x" "deref None = Panic ''nil pointer dereference''"
  by (simp_all add: deref_def)

text \<open>\<open>xs[i]\<close> panics past the end.\<close>

definition index_at :: "'a list \<Rightarrow> nat \<Rightarrow> 'a outcome" where
  "index_at xs i = (if i < length xs then Ret (xs ! i) else Panic ''index out of range'')"

section \<open>The outside world\<close>

text \<open>
  A service the program calls (an HTTP server, the Kubernetes API server) is a function that
  answers a request, given all the requests made before it. The state threaded through an
  effectful definition is that history, so any behaviour of the service is covered, and the
  history is at the same time the trace of what the program did.
\<close>

type_synonym ('q, 'r) service = "'q list \<Rightarrow> 'q \<Rightarrow> 'r"

definition call :: "('q, 'r) service \<Rightarrow> 'q \<Rightarrow> ('q list, 'r) state" where
  "call svc q = State (\<lambda>h. (svc h q, h @ [q]))"

lemma run_call [simp, io_simps]: "run_state (call svc q) h = (svc h q, h @ [q])"
  by (simp add: call_def)

text \<open>Running an operation on one part of a larger state.\<close>

definition zoom :: "('s \<Rightarrow> 't) \<Rightarrow> ('t \<Rightarrow> 's \<Rightarrow> 's) \<Rightarrow> ('t, 'a) state \<Rightarrow> ('s, 'a) state" where
  "zoom get_part put_part m =
     State (\<lambda>s. case run_state m (get_part s) of (a, t) \<Rightarrow> (a, put_part t s))"

lemma run_zoom [simp, io_simps]:
  "run_state (zoom g p m) s = (case run_state m (g s) of (a, t) \<Rightarrow> (a, p t s))"
  by (simp add: zoom_def)

text \<open>An operation only adds to the history, and what it adds satisfies a predicate.\<close>

definition extends :: "('q \<Rightarrow> bool) \<Rightarrow> ('q list, 'a) state \<Rightarrow> bool" where
  "extends P m \<longleftrightarrow> (\<forall>h. \<exists>t. snd (run_state m h) = h @ t \<and> list_all P t)"

lemma extendsI: "(\<And>h. \<exists>t. snd (run_state m h) = h @ t \<and> list_all P t) \<Longrightarrow> extends P m"
  by (simp add: extends_def)

lemma extendsE:
  assumes "extends P m"
  obtains t where "snd (run_state m h) = h @ t" "list_all P t"
  using assms by (auto simp: extends_def)

lemma extends_return [simp, intro]: "extends P (State_Monad.return x)"
  by (simp add: extends_def)

lemma extends_call [simp, intro]: "P q \<Longrightarrow> extends P (call svc q)"
  by (auto intro: extendsI)

lemma extends_bind [intro]:
  assumes m: "extends P m" and f: "\<And>x. extends P (f x)"
  shows "extends P (State_Monad.bind m f)"
proof (rule extendsI)
  fix h
  obtain a h' where run: "run_state m h = (a, h')" by (cases "run_state m h")
  from m run obtain t where t: "h' = h @ t" "list_all P t"
    by (auto simp: extends_def dest!: spec [of _ h])
  from f obtain u where u: "snd (run_state (f a) h') = h' @ u" "list_all P u"
    by (rule extendsE)
  with run t show "\<exists>t. snd (run_state (State_Monad.bind m f) h) = h @ t \<and> list_all P t"
    by (intro exI [of _ "t @ u"]) simp
qed

lemma extends_mono: "extends P m \<Longrightarrow> (\<And>q. P q \<Longrightarrow> Q q) \<Longrightarrow> extends Q m"
  by (fastforce simp: extends_def list_all_iff)

text \<open>An operation keeps an invariant of the state.\<close>

definition keeps :: "('s \<Rightarrow> bool) \<Rightarrow> ('s, 'a) state \<Rightarrow> bool" where
  "keeps I m \<longleftrightarrow> (\<forall>s. I s \<longrightarrow> I (snd (run_state m s)))"

lemma keepsI: "(\<And>s. I s \<Longrightarrow> I (snd (run_state m s))) \<Longrightarrow> keeps I m"
  by (simp add: keeps_def)

lemma keepsD: "keeps I m \<Longrightarrow> run_state m s = (a, t) \<Longrightarrow> I s \<Longrightarrow> I t"
  by (metis keeps_def snd_conv)

lemma keeps_return [simp, intro]: "keeps I (State_Monad.return x)"
  by (simp add: keeps_def)

lemma keeps_bind [intro]:
  assumes m: "keeps I m" and f: "\<And>x. keeps I (f x)"
  shows "keeps I (State_Monad.bind m f)"
proof (rule keepsI)
  fix s
  assume s: "I s"
  obtain a t where run: "run_state m s = (a, t)" by (cases "run_state m s")
  from keepsD [OF m run s] have "I t" .
  with f [of a] run show "I (snd (run_state (State_Monad.bind m f) s))"
    by (simp add: keeps_def)
qed

lemma keeps_zoom:
  assumes "keeps J m" and "\<And>s. I s \<Longrightarrow> J (g s)" and "\<And>s t. I s \<Longrightarrow> J t \<Longrightarrow> I (p t s)"
  shows "keeps I (zoom g p m)"
  using assms by (intro keepsI) (auto split: prod.split dest: keepsD)

section \<open>Strings\<close>

text \<open>A Go string is a sequence of bytes, an Isabelle \<open>char\<close> is a byte.\<close>

definition HasPrefix :: "string \<Rightarrow> string \<Rightarrow> bool" where
  "HasPrefix s p \<longleftrightarrow> take (length p) s = p"

lemma HasPrefix_iff: "HasPrefix s p \<longleftrightarrow> (\<exists>r. s = p @ r)"
  unfolding HasPrefix_def
  by (metis append_eq_conv_conj append_take_drop_id)

lemma HasPrefix_append [simp]: "HasPrefix (p @ r) p"
  by (simp add: HasPrefix_def)

lemma HasPrefix_length: "HasPrefix s p \<Longrightarrow> length p \<le> length s"
  by (auto simp: HasPrefix_iff)

text \<open>\<open>s[n:]\<close> panics when \<open>n\<close> is past the end.\<close>

definition slice_from :: "string \<Rightarrow> nat \<Rightarrow> string outcome" where
  "slice_from s n =
     (if n \<le> length s then Ret (drop n s) else Panic ''slice bounds out of range'')"

text \<open>\<open>strings.Split\<close> for a one-byte separator.\<close>

fun Split :: "string \<Rightarrow> char \<Rightarrow> string list" where
  "Split [] c = [[]]"
| "Split (x # s) c =
     (if x = c then [] # Split s c
      else (case Split s c of [] \<Rightarrow> [[x]] | p # ps \<Rightarrow> (x # p) # ps))"

lemma Split_nonempty [simp]: "Split s c \<noteq> []"
  by (induction s) (auto split: list.splits)

lemma Split_no_sep: "c \<notin> set s \<Longrightarrow> Split s c = [s]"
  by (induction s) auto

lemma Split_append_sep: "c \<notin> set s \<Longrightarrow> Split (s @ c # r) c = s # Split r c"
  by (induction s) auto

lemma Split_parts_clean: "p \<in> set (Split s c) \<Longrightarrow> c \<notin> set p"
  by (induction s arbitrary: p) (auto split: if_splits list.splits)

fun join_with :: "char \<Rightarrow> string list \<Rightarrow> string" where
  "join_with c [] = []"
| "join_with c [p] = p"
| "join_with c (p # q # ps) = p @ c # join_with c (q # ps)"

lemma join_with_Cons: "ps \<noteq> [] \<Longrightarrow> join_with c (p # ps) = p @ c # join_with c ps"
  by (cases ps) auto

lemma join_Split: "join_with c (Split s c) = s"
proof (induction s)
  case Nil
  then show ?case by simp
next
  case (Cons x s)
  then show ?case
    by (cases "Split s c"; cases "tl (Split s c)") (auto simp: join_with_Cons)
qed

subsection \<open>Decimal rendering\<close>

text \<open>\<open>%d\<close> of \<open>fmt.Sprintf\<close> and \<open>strconv.Itoa\<close>.\<close>

definition dec_char :: "nat \<Rightarrow> char" where
  "dec_char d = ''0123456789'' ! d"

fun dec_digits :: "nat \<Rightarrow> string" where
  "dec_digits n = (if n < 10 then [dec_char n] else dec_digits (n div 10) @ [dec_char (n mod 10)])"

declare dec_digits.simps [simp del]

definition fmt_d :: "int \<Rightarrow> string" where
  "fmt_d i = (if i < 0 then CHR ''-'' # dec_digits (nat (- i)) else dec_digits (nat i))"

lemma dec_digits_small: "n < 10 \<Longrightarrow> dec_digits n = [dec_char n]"
  by (simp add: dec_digits.simps [of n])

lemma dec_digits_step: "\<not> n < 10 \<Longrightarrow> dec_digits n = dec_digits (n div 10) @ [dec_char (n mod 10)]"
  by (simp add: dec_digits.simps [of n])

definition is_digit :: "char \<Rightarrow> bool" where
  "is_digit c \<longleftrightarrow> c \<in> set ''0123456789''"

lemma dec_char_cases: "(d::nat) < 10 \<Longrightarrow> d \<in> {0, 1, 2, 3, 4, 5, 6, 7, 8, 9}"
  by auto

lemma dec_char_digit: "d < 10 \<Longrightarrow> is_digit (dec_char d)"
  by (drule dec_char_cases) (auto simp: is_digit_def dec_char_def)

lemma dec_char_inj: "d < 10 \<Longrightarrow> e < 10 \<Longrightarrow> dec_char d = dec_char e \<Longrightarrow> d = e"
  by (drule dec_char_cases, drule dec_char_cases) (auto simp: dec_char_def)

lemma dec_digits_nonempty [simp]: "dec_digits n \<noteq> []" "[] \<noteq> dec_digits n"
  by (simp_all add: dec_digits.simps [of n])

lemma dec_digits_digits: "c \<in> set (dec_digits n) \<Longrightarrow> is_digit c"
proof (induction n arbitrary: c rule: dec_digits.induct)
  case (1 n)
  then show ?case
    by (cases "n < 10") (auto simp: dec_digits_small dec_digits_step dec_char_digit)
qed

lemma dec_digits_inj: "dec_digits m = dec_digits n \<Longrightarrow> m = n"
proof (induction m arbitrary: n rule: dec_digits.induct)
  case (1 m)
  show ?case
  proof (cases "m < 10 \<or> n < 10")
    case True
    with "1.prems" show ?thesis
      by (cases "m < 10"; cases "n < 10")
        (auto simp: dec_digits_small dec_digits_step dest: dec_char_inj)
  next
    case False
    with "1.prems" have "dec_digits (m div 10) = dec_digits (n div 10)"
      and "dec_char (m mod 10) = dec_char (n mod 10)"
      by (auto simp: dec_digits_step)
    with False "1.IH" have "m div 10 = n div 10" and "m mod 10 = n mod 10"
      by (auto intro: dec_char_inj)
    then show ?thesis by (metis div_mult_mod_eq)
  qed
qed

lemma minus_not_digit: "\<not> is_digit CHR ''-''"
  by (simp add: is_digit_def)

lemma fmt_d_nonempty [simp]: "fmt_d i \<noteq> []"
  by (simp add: fmt_d_def)

lemma fmt_d_inj: "fmt_d i = fmt_d j \<Longrightarrow> i = j"
proof -
  have neq: "CHR ''-'' # s \<noteq> dec_digits n" for s n
    using dec_digits_digits [of "CHR ''-''" n] minus_not_digit
    by (metis list.set_intros(1))
  show "fmt_d i = fmt_d j \<Longrightarrow> i = j"
    using neq neq [symmetric] dec_digits_inj
    by (auto simp: fmt_d_def split: if_splits dest!: dec_digits_inj)
qed

section \<open>Fixed-width integers\<close>

type_synonym int32 = "32 word"
type_synonym uint32 = "32 word"
type_synonym int64 = "64 word"

text \<open>Conversions keep the low bits; signed values are read with \<open>sint\<close>.\<close>

definition int32_of_int64 :: "int64 \<Rightarrow> int32" where
  "int32_of_int64 x = ucast x"

definition int64_of_int32 :: "int32 \<Rightarrow> int64" where
  "int64_of_int32 x = scast x"

text \<open>Division of signed integers truncates towards zero.\<close>

definition div_int64 :: "int64 \<Rightarrow> int \<Rightarrow> int64" where
  "div_int64 x k = word_of_int (sint x sdiv k)"

text \<open>\<open>%d\<close> of a signed 32-bit value.\<close>

definition fmt_int32 :: "int32 \<Rightarrow> string" where
  "fmt_int32 x = fmt_d (sint x)"

lemma fmt_int32_inj: "fmt_int32 x = fmt_int32 y \<Longrightarrow> x = y"
  by (simp add: fmt_int32_def) (metis fmt_d_inj signed_word_eqI)

section \<open>Maps\<close>

text \<open>
  What a client of a Go map relies on: the lookup after an assignment or a \<open>delete\<close>, and that
  \<open>range\<close> visits every key once. The client facts are proved here once, from those laws.
\<close>

locale go_map =
  fixes lookup :: "'m \<Rightarrow> 'k \<Rightarrow> 'v option"
    and set_at :: "'m \<Rightarrow> 'k \<Rightarrow> 'v \<Rightarrow> 'm"
    and delete_at :: "'m \<Rightarrow> 'k \<Rightarrow> 'm"
    and keys :: "'m \<Rightarrow> 'k list"
    and empty :: "'m"
    and ok :: "'m \<Rightarrow> bool"
  assumes lookup_empty: "lookup empty = Map.empty"
    and lookup_set: "ok m \<Longrightarrow> lookup (set_at m k v) = (lookup m)(k \<mapsto> v)"
    and lookup_delete: "ok m \<Longrightarrow> lookup (delete_at m k) = (lookup m)(k := None)"
    and keys_dom: "ok m \<Longrightarrow> set (keys m) = dom (lookup m)"
    and keys_distinct: "ok m \<Longrightarrow> distinct (keys m)"
    and ok_empty: "ok empty"
    and ok_set: "ok m \<Longrightarrow> ok (set_at m k v)"
    and ok_delete: "ok m \<Longrightarrow> ok (delete_at m k)"
begin

lemmas laws = lookup_empty lookup_set lookup_delete keys_dom ok_empty ok_set ok_delete

lemma ok_set_all: "ok m \<Longrightarrow> ok (fold (\<lambda>(k, v) m. set_at m k v) kvs m)"
  by (induction kvs arbitrary: m) (auto simp: laws)

text \<open>A loop of assignments: the last one to a key wins.\<close>

lemma lookup_set_all:
  "ok m \<Longrightarrow> lookup (fold (\<lambda>(k, v) m. set_at m k v) kvs m) = lookup m ++ map_of (rev kvs)"
proof (induction kvs arbitrary: m)
  case Nil
  then show ?case by simp
next
  case (Cons kv kvs)
  then show ?case
    by (cases kv) (auto simp: laws map_add_def fun_eq_iff split: option.splits)
qed

lemma ok_delete_all: "ok m \<Longrightarrow> ok (fold (\<lambda>k m. delete_at m k) ks m)"
  by (induction ks arbitrary: m) (auto simp: laws)

text \<open>The idiom \<open>for k := range m { delete(m, k) }\<close> empties the map, in any order.\<close>

lemma lookup_delete_all:
  "ok m \<Longrightarrow> lookup (fold (\<lambda>k m. delete_at m k) ks m) = (lookup m) |` (- set ks)"
  by (induction ks arbitrary: m) (auto simp: laws restrict_map_def fun_eq_iff)

lemma delete_all_empty:
  assumes "ok m" and "set ks = set (keys m)"
  shows "lookup (fold (\<lambda>k m. delete_at m k) ks m) = Map.empty"
  using assms by (auto simp: lookup_delete_all keys_dom restrict_map_def fun_eq_iff domIff)

lemma keys_empty_iff: "ok m \<Longrightarrow> keys m = [] \<longleftrightarrow> lookup m = Map.empty"
  using keys_dom [of m] by (metis dom_eq_empty_conv set_empty)

lemma length_keys: "ok m \<Longrightarrow> length (keys m) = card (dom (lookup m))"
  by (metis distinct_card keys_distinct keys_dom)

end

text \<open>The model of a map: its entries in some order, every key once.\<close>

type_synonym ('k, 'v) gomap = "('k \<times> 'v) list"

definition gm_ok :: "('k, 'v) gomap \<Rightarrow> bool" where
  "gm_ok m \<longleftrightarrow> distinct (map fst m)"

definition gm_set :: "('k, 'v) gomap \<Rightarrow> 'k \<Rightarrow> 'v \<Rightarrow> ('k, 'v) gomap" where
  "gm_set m k v = AList.update k v m"

definition gm_delete :: "('k, 'v) gomap \<Rightarrow> 'k \<Rightarrow> ('k, 'v) gomap" where
  "gm_delete m k = AList.delete k m"

definition gm_keys :: "('k, 'v) gomap \<Rightarrow> 'k list" where
  "gm_keys m = map fst m"

text \<open>\<open>m[k]\<close> is the zero value of the element type when the key is absent.\<close>

definition gm_at :: "'v \<Rightarrow> ('k, 'v) gomap \<Rightarrow> 'k \<Rightarrow> 'v" where
  "gm_at zero m k = (case map_of m k of None \<Rightarrow> zero | Some v \<Rightarrow> v)"

interpretation gm: go_map map_of gm_set gm_delete gm_keys "[]" gm_ok
  by unfold_locales
    (auto simp: gm_set_def gm_delete_def gm_keys_def gm_ok_def AList.update_conv'
      AList.delete_conv' AList.distinct_update AList.distinct_delete dom_map_of_conv_image_fst)

lemma gm_ok_Nil [simp]: "gm_ok []"
  by (rule gm.ok_empty)

lemma gm_ok_set [simp]: "gm_ok m \<Longrightarrow> gm_ok (gm_set m k v)"
  by (rule gm.ok_set)

lemma gm_ok_delete [simp]: "gm_ok m \<Longrightarrow> gm_ok (gm_delete m k)"
  by (rule gm.ok_delete)

lemma map_of_gm_set [simp]: "map_of (gm_set m k v) = (map_of m)(k \<mapsto> v)"
  by (simp add: gm_set_def AList.update_conv')

lemma map_of_gm_delete [simp]: "map_of (gm_delete m k) = (map_of m)(k := None)"
  by (simp add: gm_delete_def AList.delete_conv')

lemma gm_keys_set [simp]: "set (gm_keys (gm_set m k v)) = insert k (set (gm_keys m))"
  by (simp add: gm_keys_def gm_set_def AList.dom_update)

lemma gm_keys_delete [simp]: "set (gm_keys (gm_delete m k)) = set (gm_keys m) - {k}"
  by (simp add: gm_keys_def gm_delete_def AList.delete_keys)

lemma gm_keys_map_of: "k \<in> set (gm_keys m) \<longleftrightarrow> map_of m k \<noteq> None"
  by (simp add: gm_keys_def map_of_eq_None_iff)

lemma gm_at_set [simp]: "gm_at z (gm_set m k v) k' = (if k' = k then v else gm_at z m k')"
  by (simp add: gm_at_def)

lemma gm_at_Nil [simp]: "gm_at z [] k = z"
  by (simp add: gm_at_def)

lemma gm_at_cong: "map_of m = map_of m' \<Longrightarrow> gm_at z m = gm_at z m'"
  by (simp add: gm_at_def fun_eq_iff)

subsection \<open>The order of \<open>range\<close>\<close>

text \<open>
  Go leaves the order in which \<open>range\<close> visits a map open, and it may differ from one loop to the
  next. An order source gives the order of the \<open>n\<close>-th loop; the theorems hold for every source
  that permutes the keys.
\<close>

type_synonym range_order = "nat \<Rightarrow> string list \<Rightarrow> string list"

definition is_order :: "range_order \<Rightarrow> bool" where
  "is_order ord \<longleftrightarrow> (\<forall>n ks. mset (ord n ks) = mset ks)"

lemma is_order_set [simp]: "is_order ord \<Longrightarrow> set (ord n ks) = set ks"
  by (metis is_order_def set_mset_mset)

lemma is_order_distinct [simp]: "is_order ord \<Longrightarrow> distinct (ord n ks) = distinct ks"
  by (metis is_order_def mset_eq_imp_distinct_iff)

lemma is_order_length [simp]: "is_order ord \<Longrightarrow> length (ord n ks) = length ks"
  by (metis is_order_def size_mset)

definition stored_order :: range_order where
  "stored_order n ks = ks"

definition reverse_order :: range_order where
  "reverse_order n ks = rev ks"

lemma is_order_examples [simp]: "is_order stored_order" "is_order reverse_order"
  by (simp_all add: is_order_def stored_order_def reverse_order_def)

end
