(* ===== verification/Go_Json.thy ===== *)
theory Go_Json
  imports Go_Prelude "HOL-Library.List_Lexorder"
begin

text \<open>
  What the models use of \<open>encoding/json\<close>: JSON values, the encoder \<open>json.Marshal\<close> (with its
  escaping of HTML characters and of invalid UTF-8) and the parser behind \<open>json.Unmarshal\<close>. The
  parser takes fuel, one unit for each value, element and member; \<open>json_parse\<close> gives it more than
  twice the length of the text, and any two nested calls consume at least one byte, so it never
  runs out before the text does.
\<close>

section \<open>Values\<close>

text \<open>A number is kept as its literal, as the decoder's scanner sees it.\<close>

datatype jval =
    JNull
  | JBool bool
  | JNum string
  | JStr string
  | JArr "jval list"
  | JObj "(string \<times> jval) list"

definition JInt :: "int \<Rightarrow> jval" where
  "JInt i = JNum (fmt_d i)"

fun jfield :: "jval \<Rightarrow> string \<Rightarrow> jval option" where
  "jfield (JObj kvs) k = map_of kvs k"
| "jfield _ k = None"

fun jitems :: "jval \<Rightarrow> jval list" where
  "jitems (JArr vs) = vs"
| "jitems _ = []"

section \<open>UTF-8\<close>

definition byte_of :: "char \<Rightarrow> nat" where
  "byte_of c = of_char c"

definition in_range :: "nat \<Rightarrow> nat \<Rightarrow> char \<Rightarrow> bool" where
  "in_range lo hi c \<longleftrightarrow> lo \<le> byte_of c \<and> byte_of c \<le> hi"

abbreviation cont :: "char \<Rightarrow> bool" where
  "cont \<equiv> in_range 128 191"

text \<open>The number of bytes of the well-formed rune at the head, as \<open>utf8.DecodeRune\<close> finds it.\<close>

fun rune_len :: "string \<Rightarrow> nat option" where
  "rune_len [] = None"
| "rune_len (a # s) =
     (if byte_of a < 128 then Some 1
      else case s of
        [] \<Rightarrow> None
      | b # s' \<Rightarrow>
          (if in_range 194 223 a \<and> cont b then Some 2
           else case s' of
             [] \<Rightarrow> None
           | c # s'' \<Rightarrow>
               (if cont c \<and> (byte_of a = 224 \<and> in_range 160 191 b
                    \<or> (in_range 225 236 a \<or> in_range 238 239 a) \<and> cont b
                    \<or> byte_of a = 237 \<and> in_range 128 159 b) then Some 3
                else case s'' of
                  [] \<Rightarrow> None
                | d # _ \<Rightarrow>
                    (if cont c \<and> cont d \<and> (byte_of a = 240 \<and> in_range 144 191 b
                         \<or> in_range 241 243 a \<and> cont b
                         \<or> byte_of a = 244 \<and> in_range 128 143 b) then Some 4
                     else None))))"

text \<open>Encoding of a code point.\<close>

definition utf8_encode :: "nat \<Rightarrow> string" where
  "utf8_encode n =
     (if n < 128 then [char_of n]
      else if n < 2048 then [char_of (192 + n div 64), char_of (128 + n mod 64)]
      else if n < 65536 then
        [char_of (224 + n div 4096), char_of (128 + n div 64 mod 64), char_of (128 + n mod 64)]
      else
        [char_of (240 + n div 262144), char_of (128 + n div 4096 mod 64),
         char_of (128 + n div 64 mod 64), char_of (128 + n mod 64)])"

section \<open>Encoding\<close>

definition hex_char :: "nat \<Rightarrow> char" where
  "hex_char d = ''0123456789abcdef'' ! d"

text \<open>The encoder's escape for one ASCII byte.\<close>

definition escape_ascii :: "char \<Rightarrow> string" where
  "escape_ascii c =
     (if c = CHR 0x22 \<or> c = CHR 0x5C then [CHR 0x5C, c]
      else if byte_of c = 10 then [CHR 0x5C, CHR ''n'']
      else if byte_of c = 13 then [CHR 0x5C, CHR ''r'']
      else if byte_of c = 9 then [CHR 0x5C, CHR ''t'']
      else if byte_of c < 32 \<or> c = CHR ''<'' \<or> c = CHR ''>'' \<or> c = CHR ''&'' then
        [CHR 0x5C, CHR ''u'', CHR ''0'', CHR ''0'', hex_char (byte_of c div 16), hex_char (byte_of c mod 16)]
      else [c])"

function escape :: "string \<Rightarrow> string" where
  "escape [] = []"
| "escape (c # s) =
     (if byte_of c < 128 then escape_ascii c @ escape s
      else (case rune_len (c # s) of
          None \<Rightarrow> [CHR 0x5C] @ ''ufffd'' @ escape s
        | Some n \<Rightarrow>
            (if take n (c # s) = [CHR 0xE2, CHR 0x80, CHR 0xA8] then [CHR 0x5C] @ ''u2028''
             else if take n (c # s) = [CHR 0xE2, CHR 0x80, CHR 0xA9] then [CHR 0x5C] @ ''u2029''
             else take n (c # s)) @ escape (drop (n - 1) s)))"
  by pat_completeness auto
termination
  by (relation "measure length") auto

definition quoted :: "string \<Rightarrow> string" where
  "quoted s = [CHR 0x22] @ escape s @ [CHR 0x22]"

definition comma_sep :: "string list \<Rightarrow> string" where
  "comma_sep ts = join_with (CHR '','') ts"

fun Marshal :: "jval \<Rightarrow> string" where
  "Marshal JNull = ''null''"
| "Marshal (JBool b) = (if b then ''true'' else ''false'')"
| "Marshal (JNum t) = t"
| "Marshal (JStr s) = quoted s"
| "Marshal (JArr vs) = ''['' @ comma_sep (map Marshal vs) @ '']''"
| "Marshal (JObj kvs) =
     ''{'' @ comma_sep (map (\<lambda>(k, v). quoted k @ '':'' @ Marshal v) kvs) @ ''}''"

text \<open>The encoder writes the entries of a Go map sorted by key.\<close>

definition map_to_json :: "('v \<Rightarrow> jval) \<Rightarrow> (string, 'v) gomap \<Rightarrow> jval" where
  "map_to_json f m = JObj (map (\<lambda>(k, v). (k, f v)) (sort_key (\<lambda>(k, v). map byte_of k) m))"

lemma byte_of_inj: "byte_of c = byte_of d \<longleftrightarrow> c = d"
  by (simp add: byte_of_def)

lemma map_byte_of_inj: "map byte_of s = map byte_of t \<longleftrightarrow> s = t"
  by (auto simp: byte_of_inj inj_map_eq_map inj_on_def)

text \<open>The encoding of a map depends on its entries only, not on the order they are stored in.\<close>

lemma gomap_mset_eq:
  assumes "gm_ok m" and "gm_ok m'" and "map_of m = map_of m'"
  shows "mset m = mset m'"
proof -
  have "set m = set m'"
    using assms by (auto simp: gm_ok_def) (metis map_of_eq_Some_iff)+
  moreover have "distinct m" "distinct m'"
    using assms by (auto simp: gm_ok_def distinct_map)
  ultimately show ?thesis by (simp add: set_eq_iff_mset_eq_distinct)
qed

lemma map_to_json_cong:
  assumes "gm_ok m" and "gm_ok m'" and "map_of m = map_of m'"
  shows "map_to_json f m = map_to_json f m'"
proof -
  let ?key = "\<lambda>(k, v). map byte_of k"
  have eq: "mset m = mset m'" by (rule gomap_mset_eq [OF assms])
  have "inj_on ?key (set m)"
    using assms(1) by (auto simp: inj_on_def gm_ok_def map_byte_of_inj eq_key_imp_eq_value)
  then have "sort_key ?key m = sort_key ?key m'"
    using eq by (intro sort_key_inj_key_eq) (auto simp: sorted_sort_key)
  then show ?thesis by (simp add: map_to_json_def)
qed

section \<open>Parsing\<close>

definition is_ws :: "char \<Rightarrow> bool" where
  "is_ws c \<longleftrightarrow> byte_of c \<in> {9, 10, 13, 32}"

definition skip_ws :: "string \<Rightarrow> string" where
  "skip_ws s = dropWhile is_ws s"

definition hex_val :: "char \<Rightarrow> nat option" where
  "hex_val c =
     (if in_range 48 57 c then Some (byte_of c - 48)
      else if in_range 97 102 c then Some (byte_of c - 87)
      else if in_range 65 70 c then Some (byte_of c - 55)
      else None)"

fun hex4 :: "string \<Rightarrow> (nat \<times> string) option" where
  "hex4 (a # b # c # d # s) =
     (case (hex_val a, hex_val b, hex_val c, hex_val d) of
        (Some w, Some x, Some y, Some z) \<Rightarrow> Some (w * 4096 + x * 256 + y * 16 + z, s)
      | _ \<Rightarrow> None)"
| "hex4 _ = None"

text \<open>A \<open>\u\<close> escape, with the pairing of surrogates; a lone surrogate decodes to U+FFFD.\<close>

definition unescape_u :: "string \<Rightarrow> (string \<times> string) option" where
  "unescape_u s =
     (case hex4 s of
        None \<Rightarrow> None
      | Some (w, s') \<Rightarrow>
          (if 55296 \<le> w \<and> w < 57344 then
             (case s' of
                x # y # s'' \<Rightarrow>
                  (if x = CHR 0x5C \<and> y = CHR ''u'' \<and> w < 56320 then
                     (case hex4 s'' of
                        None \<Rightarrow> Some (utf8_encode 65533, s')
                      | Some (v, s3) \<Rightarrow>
                          (if 56320 \<le> v \<and> v < 57344
                           then Some (utf8_encode ((w - 55296) * 1024 + (v - 56320) + 65536), s3)
                           else Some (utf8_encode 65533, s')))
                   else Some (utf8_encode 65533, s'))
              | _ \<Rightarrow> Some (utf8_encode 65533, s'))
           else Some (utf8_encode w, s')))"

definition unescape_simple :: "char \<Rightarrow> char option" where
  "unescape_simple c =
     (if c = CHR 0x22 \<or> c = CHR 0x5C \<or> c = CHR ''/'' then Some c
      else if c = CHR ''b'' then Some (CHR 0x08)
      else if c = CHR ''f'' then Some (CHR 0x0C)
      else if c = CHR ''n'' then Some (CHR 0x0A)
      else if c = CHR ''r'' then Some (CHR 0x0D)
      else if c = CHR ''t'' then Some (CHR 0x09)
      else None)"

text \<open>The rest of a string literal, after its opening quote.\<close>

fun parse_chars :: "nat \<Rightarrow> string \<Rightarrow> (string \<times> string) option" where
  "parse_chars 0 s = None"
| "parse_chars (Suc fuel) [] = None"
| "parse_chars (Suc fuel) (c # s) =
     (if c = CHR 0x22 then Some ([], s)
      else if c = CHR 0x5C then
        (case s of
           [] \<Rightarrow> None
         | e # s' \<Rightarrow>
             (if e = CHR ''u'' then
                (case unescape_u s' of
                   None \<Rightarrow> None
                 | Some (t, r) \<Rightarrow> map_option (\<lambda>(u, r'). (t @ u, r')) (parse_chars fuel r))
              else
                (case unescape_simple e of
                   None \<Rightarrow> None
                 | Some x \<Rightarrow> map_option (\<lambda>(u, r'). (x # u, r')) (parse_chars fuel s'))))
      else if byte_of c < 32 then None
      else if byte_of c < 128 then map_option (\<lambda>(u, r'). (c # u, r')) (parse_chars fuel s)
      else (case rune_len (c # s) of
          None \<Rightarrow> map_option (\<lambda>(u, r'). (utf8_encode 65533 @ u, r')) (parse_chars fuel s)
        | Some n \<Rightarrow>
            map_option (\<lambda>(u, r'). (take n (c # s) @ u, r')) (parse_chars fuel (drop (n - 1) s))))"

text \<open>Number literals: sign, integer part without a leading zero, fraction, exponent.\<close>

definition parse_frac :: "string \<Rightarrow> (string \<times> string) option" where
  "parse_frac s =
     (case s of
        c # s' \<Rightarrow>
          (if c = CHR ''.'' then
             (let ds = takeWhile is_digit s'
              in if ds = [] then None else Some (c # ds, dropWhile is_digit s'))
           else Some ([], s))
      | [] \<Rightarrow> Some ([], s))"

definition parse_exp :: "string \<Rightarrow> (string \<times> string) option" where
  "parse_exp s =
     (case s of
        c # s' \<Rightarrow>
          (if c = CHR ''e'' \<or> c = CHR ''E'' then
             (let sg = (case s' of x # _ \<Rightarrow> if x = CHR ''+'' \<or> x = CHR ''-'' then [x] else [] | [] \<Rightarrow> []);
                  r = drop (length sg) s';
                  ds = takeWhile is_digit r
              in if ds = [] then None else Some (c # sg @ ds, dropWhile is_digit r))
           else Some ([], s))
      | [] \<Rightarrow> Some ([], s))"

definition parse_number :: "string \<Rightarrow> (string \<times> string) option" where
  "parse_number s =
     (let sg = (case s of x # _ \<Rightarrow> if x = CHR ''-'' then [x] else [] | [] \<Rightarrow> []);
          r = drop (length sg) s;
          ds = (case r of x # _ \<Rightarrow> if x = CHR ''0'' then [x] else takeWhile is_digit r | [] \<Rightarrow> []);
          r' = drop (length ds) r
      in if ds = [] then None
         else (case parse_frac r' of
             None \<Rightarrow> None
           | Some (f, r'') \<Rightarrow>
               map_option (\<lambda>(e, r3). (sg @ ds @ f @ e, r3)) (parse_exp r'')))"

definition expect :: "string \<Rightarrow> jval \<Rightarrow> string \<Rightarrow> (jval \<times> string) option" where
  "expect t v s = (if take (length t) s = t then Some (v, drop (length t) s) else None)"

fun parse_value :: "nat \<Rightarrow> string \<Rightarrow> (jval \<times> string) option"
  and parse_items :: "nat \<Rightarrow> string \<Rightarrow> (jval list \<times> string) option"
  and parse_members :: "nat \<Rightarrow> string \<Rightarrow> ((string \<times> jval) list \<times> string) option" where
  "parse_value 0 s = None"
| "parse_value (Suc fuel) s =
     (case skip_ws s of
        [] \<Rightarrow> None
      | c # r \<Rightarrow>
          (if c = CHR ''{'' then
             (case skip_ws r of
                [] \<Rightarrow> None
              | d # r' \<Rightarrow>
                  (if d = CHR ''}'' then Some (JObj [], r')
                   else map_option (\<lambda>(kvs, r'). (JObj kvs, r')) (parse_members fuel r)))
           else if c = CHR ''['' then
             (case skip_ws r of
                [] \<Rightarrow> None
              | d # r' \<Rightarrow>
                  (if d = CHR '']'' then Some (JArr [], r')
                   else map_option (\<lambda>(vs, r'). (JArr vs, r')) (parse_items fuel r)))
           else if c = CHR 0x22 then
             map_option (\<lambda>(t, r'). (JStr t, r')) (parse_chars (Suc (length r)) r)
           else if c = CHR ''n'' then expect ''null'' JNull (c # r)
           else if c = CHR ''t'' then expect ''true'' (JBool True) (c # r)
           else if c = CHR ''f'' then expect ''false'' (JBool False) (c # r)
           else map_option (\<lambda>(t, r'). (JNum t, r')) (parse_number (c # r))))"
| "parse_items 0 s = None"
| "parse_items (Suc fuel) s =
     (case parse_value fuel s of
        None \<Rightarrow> None
      | Some (v, r) \<Rightarrow>
          (case skip_ws r of
             [] \<Rightarrow> None
           | d # r' \<Rightarrow>
               (if d = CHR '']'' then Some ([v], r')
                else if d = CHR '','' then
                  map_option (\<lambda>(vs, r''). (v # vs, r'')) (parse_items fuel r')
                else None)))"
| "parse_members 0 s = None"
| "parse_members (Suc fuel) s =
     (case skip_ws s of
        [] \<Rightarrow> None
      | c # r \<Rightarrow>
          (if c \<noteq> CHR 0x22 then None
           else (case parse_chars (Suc (length r)) r of
               None \<Rightarrow> None
             | Some (k, r1) \<Rightarrow>
                 (case skip_ws r1 of
                    [] \<Rightarrow> None
                  | d # r2 \<Rightarrow>
                      (if d \<noteq> CHR '':'' then None
                       else (case parse_value fuel r2 of
                           None \<Rightarrow> None
                         | Some (v, r3) \<Rightarrow>
                             (case skip_ws r3 of
                                [] \<Rightarrow> None
                              | e # r4 \<Rightarrow>
                                  (if e = CHR ''}'' then Some ([(k, v)], r4)
                                   else if e = CHR '','' then
                                     map_option (\<lambda>(kvs, r5). ((k, v) # kvs, r5)) (parse_members fuel r4)
                                   else None))))))))"

definition json_parse :: "string \<Rightarrow> jval option" where
  "json_parse s =
     (case parse_value (Suc (2 * length s)) s of
        None \<Rightarrow> None
      | Some (v, r) \<Rightarrow> if skip_ws r = [] then Some v else None)"

end
