(* ===== verification/Rancher_Types.thy ===== *)
theory Rancher_Types
  imports Go_Json
begin

text \<open>
  The data model and the parsers of the Rancher client (\<open>upstream/rancher-go/client/types.go\<close>,
  \<open>parsers.go\<close>, \<open>yaml.go\<close>): quotas, members, projects, the comparison of members, the extraction of an LDAP
  group from a principal, and the readers of JSON listings. The JSON query library \<open>gjson\<close> is not
  part of the repository; it is a parameter, a record of its operations.
\<close>

section \<open>Data\<close>

type_synonym Quotas = "(string, string) gomap"

record ProjectQuotas =
  pq_Project :: Quotas
  pq_Used :: Quotas
  pq_Namespace :: Quotas

definition MemberTypeUser :: string where
  "MemberTypeUser = ''User''"

definition MemberTypeGroup :: string where
  "MemberTypeGroup = ''Group''"

record Member =
  m_ID :: string
  m_UserID :: string
  m_ProjectID :: string
  m_Type :: string
  m_PrincipalID :: string
  m_RoleTemplateID :: string

record Project =
  p_ID :: string
  p_Name :: string
  p_Description :: string
  p_PodSecurityPolicyID :: string
  p_Members :: "Member list"
  p_ResourceQuotas :: ProjectQuotas

record Entity =
  e_ID :: string
  e_Name :: string

lemma member_types_differ [simp]:
  "MemberTypeUser \<noteq> MemberTypeGroup" "MemberTypeGroup \<noteq> MemberTypeUser"
  "MemberTypeUser \<noteq> []" "MemberTypeGroup \<noteq> []"
  by (simp_all add: MemberTypeUser_def MemberTypeGroup_def)

section \<open>Comparing members\<close>

text \<open>\<open>Compare\<close> ignores the identifiers that Rancher assigns.\<close>

definition Compare :: "Member \<Rightarrow> Member \<Rightarrow> bool" where
  "Compare m p \<longleftrightarrow> m_Type m = m_Type p \<and> m_PrincipalID m = m_PrincipalID p
     \<and> m_RoleTemplateID m = m_RoleTemplateID p"

fun hasMember :: "Member list \<Rightarrow> Member \<Rightarrow> bool" where
  "hasMember [] target = False"
| "hasMember (m # members) target = (if Compare m target then True else hasMember members target)"

text \<open>
  Bringing a list of bindings to a wanted state by a two-sided difference needs only that the
  comparison is an equivalence: removing what is not wanted and adding what is missing leaves, up
  to the comparison, exactly the wanted entries.
\<close>

locale list_sync =
  fixes same :: "'a \<Rightarrow> 'a \<Rightarrow> bool"
    and has :: "'a list \<Rightarrow> 'a \<Rightarrow> bool"
  assumes same_refl: "same x x"
    and same_sym: "same x y \<Longrightarrow> same y x"
    and same_trans: "same x y \<Longrightarrow> same y z \<Longrightarrow> same x z"
    and has_iff: "has xs y \<longleftrightarrow> (\<exists>x \<in> set xs. same x y)"
begin

lemma has_same: "same x y \<Longrightarrow> has xs x \<longleftrightarrow> has xs y"
  by (auto simp: has_iff intro: same_trans same_sym)

lemma has_append: "has (xs @ ys) z \<longleftrightarrow> has xs z \<or> has ys z"
  by (auto simp: has_iff)

lemma sync:
  "has (filter (has want) old @ filter (\<lambda>m. \<not> has old m) want) x \<longleftrightarrow> has want x"
proof
  assume "has (filter (has want) old @ filter (\<lambda>m. \<not> has old m) want) x"
  then obtain y where y: "same y x" "y \<in> set old \<and> has want y \<or> y \<in> set want"
    by (auto simp: has_iff)
  then show "has want x"
    using has_same [OF y(1)] same_refl by (auto simp: has_iff)
next
  assume "has want x"
  then obtain w where w: "w \<in> set want" "same w x" by (auto simp: has_iff)
  show "has (filter (has want) old @ filter (\<lambda>m. \<not> has old m) want) x"
  proof (cases "has old w")
    case True
    then obtain m where m: "m \<in> set old" "same m w" by (auto simp: has_iff)
    with w have "has want m" by (auto simp: has_iff intro: same_sym)
    with m w show ?thesis by (auto simp: has_iff intro: same_trans)
  next
    case False
    with w show ?thesis by (auto simp: has_iff)
  qed
qed

lemma sync_done: "(\<And>x. has old x \<longleftrightarrow> has want x) \<Longrightarrow> filter (\<lambda>m. \<not> has old m) want = []"
  by (auto simp: filter_empty_conv has_iff intro: same_refl)

end

lemma hasMember_iff: "hasMember members target \<longleftrightarrow> (\<exists>m \<in> set members. Compare m target)"
  by (induction members) auto

interpretation member_sync: list_sync Compare hasMember
  by unfold_locales (auto simp: Compare_def hasMember_iff)

section \<open>LDAP groups\<close>

definition ldap_prefix :: string where
  "ldap_prefix = ''openldap_group''"

definition ldap_scheme :: string where
  "ldap_scheme = ''openldap_group://''"

definition parseGroupFromPrincipalID :: "string \<Rightarrow> (go_error + string) outcome" where
  "parseGroupFromPrincipalID principalID =
     (if \<not> HasPrefix principalID ldap_prefix then Ret (Inl ''Invalid LDAP principalID'')
      else (case slice_from principalID (length ldap_scheme) of
          Panic m \<Rightarrow> Panic m
        | Ret dn \<Rightarrow>
            (let dnParts = Split dn (CHR '','')
             in if length dnParts < 1 then Ret (Inl ''CN in the principalID not found'')
                else
                  (let cn = dnParts ! 0;
                       cnParts = Split cn (CHR ''='')
                   in if length cnParts < 2 then Ret (Inl ''Invalid CN value in the principalID'')
                      else if cnParts ! 0 \<noteq> ''cn'' then Ret (Inl ''CN field not found'')
                      else Ret (Inr (cnParts ! 1))))))"

section \<open>Reading JSON listings\<close>

text \<open>
  The operations of \<open>gjson\<close> the client uses: \<open>Get\<close> on a text, \<open>Get\<close> on a result, \<open>Array\<close>, the
  key and value pairs \<open>ForEach\<close> visits, and \<open>String\<close>.
\<close>

record 'r gjson =
  gj_Get :: "string \<Rightarrow> string \<Rightarrow> 'r"
  gj_At :: "'r \<Rightarrow> string \<Rightarrow> 'r"
  gj_Array :: "'r \<Rightarrow> 'r list"
  gj_ForEach :: "'r \<Rightarrow> ('r \<times> 'r) list"
  gj_String :: "'r \<Rightarrow> string"

definition parseValues :: "'r gjson \<Rightarrow> string \<Rightarrow> string \<Rightarrow> string list" where
  "parseValues gj jsonData jsonPath =
     (let results = gj_Array gj (gj_Get gj jsonData jsonPath)
      in map (gj_String gj) results)"

fun collectEntities :: "'r gjson \<Rightarrow> ('r \<times> 'r) list \<Rightarrow> Entity list" where
  "collectEntities gj [] = []"
| "collectEntities gj ((key, value) # rest) =
     (let name = gj_String gj (gj_At gj value ''name'');
          ident = gj_String gj (gj_At gj value ''id'')
      in if name = '''' \<or> ident = '''' then collectEntities gj rest
         else \<lparr>e_ID = ident, e_Name = name\<rparr> # collectEntities gj rest)"

definition parseEntities :: "'r gjson \<Rightarrow> string \<Rightarrow> string \<Rightarrow> Entity list" where
  "parseEntities gj jsonData jsonPath = collectEntities gj (gj_ForEach gj (gj_Get gj jsonData jsonPath))"

text \<open>A small concrete \<open>gjson\<close>, over JSON values and a table of what each text holds.\<close>

fun jtext :: "jval \<Rightarrow> string" where
  "jtext (JStr s) = s"
| "jtext (JNum t) = t"
| "jtext _ = []"

definition table_gjson :: "(string \<Rightarrow> string \<Rightarrow> jval) \<Rightarrow> jval gjson" where
  "table_gjson tab =
     \<lparr>gj_Get = tab,
      gj_At = (\<lambda>v k. case jfield v k of None \<Rightarrow> JNull | Some x \<Rightarrow> x),
      gj_Array = jitems,
      gj_ForEach = (\<lambda>v. case v of JObj kvs \<Rightarrow> map (\<lambda>(k, x). (JStr k, x)) kvs
                        | JArr vs \<Rightarrow> map (\<lambda>x. (JNull, x)) vs | _ \<Rightarrow> []),
      gj_String = jtext\<rparr>"

subsection \<open>Facts about the readers\<close>

lemma collectEntities_named:
  "e \<in> set (collectEntities gj rs) \<Longrightarrow> e_ID e \<noteq> '''' \<and> e_Name e \<noteq> ''''"
  by (induction gj rs rule: collectEntities.induct) (auto simp: Let_def split: if_splits)

lemma parseEntities_named:
  "e \<in> set (parseEntities gj b path) \<Longrightarrow> e_ID e \<noteq> '''' \<and> e_Name e \<noteq> ''''"
  unfolding parseEntities_def by (rule collectEntities_named)

lemma collectEntities_complete:
  "(key, v) \<in> set rs \<Longrightarrow> gj_String gj (gj_At gj v ''name'') \<noteq> '''' \<Longrightarrow>
   gj_String gj (gj_At gj v ''id'') \<noteq> '''' \<Longrightarrow>
   \<lparr>e_ID = gj_String gj (gj_At gj v ''id''), e_Name = gj_String gj (gj_At gj v ''name'')\<rparr>
     \<in> set (collectEntities gj rs)"
  by (induction gj rs rule: collectEntities.induct) (auto simp: Let_def)

subsection \<open>Facts about principals\<close>

lemma slice_from_append [simp]: "slice_from (p @ r) (length p) = Ret r"
  by (simp add: slice_from_def)

lemma length_ldap_scheme [simp]: "length ldap_scheme = 17"
  by (simp add: ldap_scheme_def)

lemma length_ldap_prefix [simp]: "length ldap_prefix = 14"
  by (simp add: ldap_prefix_def)

lemma parse_panics_iff:
  "(\<exists>m. parseGroupFromPrincipalID s = Panic m) \<longleftrightarrow> HasPrefix s ldap_prefix \<and> length s < 17"
  by (auto simp: parseGroupFromPrincipalID_def slice_from_def Let_def)

lemma Split_first: "\<exists>ps. Split s c = takeWhile (\<lambda>x. x \<noteq> c) s # ps"
  by (induction s) (auto split: list.splits)

text \<open>The two splits of a distinguished name read its first attribute up to the next separator.\<close>

lemma Split_second:
  "Split s c = k # g # ps \<longleftrightarrow> (\<exists>t. s = k @ c # t \<and> c \<notin> set k \<and> Split t c = g # ps)"
proof
  assume split: "Split s c = k # g # ps"
  have "s = k @ c # join_with c (g # ps)"
    using join_Split [of c s] by (simp add: split join_with_Cons)
  moreover have "c \<notin> set k" using Split_parts_clean [of k s c] by (simp add: split)
  ultimately show "\<exists>t. s = k @ c # t \<and> c \<notin> set k \<and> Split t c = g # ps"
    using split Split_append_sep [of c k] by auto
qed (auto simp: Split_append_sep)

lemma parse_group_iff:
  "parseGroupFromPrincipalID s = Ret (Inr g) \<longleftrightarrow> HasPrefix s ldap_prefix \<and> 17 \<le> length s \<and>
     (\<exists>ps. Split (takeWhile (\<lambda>x. x \<noteq> CHR '','') (drop 17 s)) (CHR ''='') = ''cn'' # g # ps)"
proof -
  let ?dn = "drop 17 s"
  let ?cn = "takeWhile (\<lambda>x. x \<noteq> CHR '','') ?dn"
  obtain qs where dn: "Split ?dn (CHR '','') = ?cn # qs" using Split_first by blast
  show ?thesis
  proof (cases "HasPrefix s ldap_prefix \<and> 17 \<le> length s")
    case True
    then show ?thesis
      using dn
      by (cases "Split ?cn (CHR ''='')"; cases "tl (Split ?cn (CHR ''=''))")
        (auto simp: parseGroupFromPrincipalID_def slice_from_def Let_def)
  next
    case False
    then show ?thesis
      by (auto simp: parseGroupFromPrincipalID_def slice_from_def Let_def)
  qed
qed

lemma parse_group_append:
  assumes "CHR '','' \<notin> set g" and "CHR ''='' \<notin> set g"
  shows "parseGroupFromPrincipalID (ldap_scheme @ ''cn='' @ g @ CHR '','' # rest) = Ret (Inr g)"
proof -
  have pre: "HasPrefix (ldap_scheme @ t) ldap_prefix" for t
    by (simp add: HasPrefix_def ldap_scheme_def ldap_prefix_def)
  have dn: "slice_from (ldap_scheme @ t) 17 = Ret t" for t
    using slice_from_append [of ldap_scheme t] by simp
  have "Split (''cn='' @ g @ CHR '','' # rest) (CHR '','') = (''cn='' @ g) # Split rest (CHR '','')"
    using assms Split_append_sep [of "CHR '',''" "''cn='' @ g" rest] by simp
  moreover have "Split (''cn='' @ g) (CHR ''='') = [''cn'', g]"
    using Split_append_sep [of "CHR ''=''" "''cn''" g] Split_no_sep [of "CHR ''=''" g] assms by simp
  ultimately show ?thesis
    using pre dn by (simp add: parseGroupFromPrincipalID_def Let_def)
qed

lemma first_attribute:
  "(\<exists>ps. Split (takeWhile (\<lambda>x. x \<noteq> CHR '','') t) (CHR ''='') = ''cn'' # g # ps) \<longleftrightarrow>
     CHR '','' \<notin> set g \<and> CHR ''='' \<notin> set g \<and>
     (\<exists>r. t = ''cn='' @ g @ r \<and> (r = [] \<or> hd r = CHR '','' \<or> hd r = CHR ''=''))"
  (is "?read \<longleftrightarrow> ?shape")
proof
  assume ?read
  then obtain ps u where u: "takeWhile (\<lambda>x. x \<noteq> CHR '','') t = ''cn'' @ CHR ''='' # u"
    "Split u (CHR ''='') = g # ps"
    unfolding Split_second by blast
  have g: "g = takeWhile (\<lambda>x. x \<noteq> CHR ''='') u" using Split_first [of u "CHR ''=''"] u(2) by auto
  let ?w = "dropWhile (\<lambda>x. x \<noteq> CHR '','') t"
  have t: "t = ''cn='' @ u @ ?w" "?w = [] \<or> hd ?w = CHR '',''"
    using takeWhile_dropWhile_id [of "\<lambda>x. x \<noteq> CHR '',''" t] hd_dropWhile [of "\<lambda>x. x \<noteq> CHR '',''" t]
    unfolding u(1) by auto
  have clean: "CHR '','' \<notin> set u"
    using set_takeWhileD [of "CHR '',''" "\<lambda>x. x \<noteq> CHR '',''" t] by (auto simp: u(1))
  let ?r = "dropWhile (\<lambda>x. x \<noteq> CHR ''='') u"
  have "?r @ ?w = [] \<or> hd (?r @ ?w) = CHR '','' \<or> hd (?r @ ?w) = CHR ''=''"
  proof (cases "?r = []")
    case True
    with t(2) show ?thesis unfolding True append_Nil by blast
  next
    case False
    from hd_dropWhile [OF False] have "hd ?r = CHR ''=''" by (simp only: not_not)
    with False show ?thesis by (simp only: hd_append if_False simp_thms)
  qed
  moreover have "t = ''cn='' @ g @ (?r @ ?w)"
    using t(1) unfolding g append_assoc [symmetric] takeWhile_dropWhile_id by simp
  moreover have "CHR '','' \<notin> set g" "CHR ''='' \<notin> set g"
    using clean by (auto simp: g dest: set_takeWhileD)
  ultimately show ?shape by blast
next
  assume ?shape
  then obtain r where clean: "CHR '','' \<notin> set g" "CHR ''='' \<notin> set g"
    and t: "t = ''cn='' @ g @ r" "r = [] \<or> hd r = CHR '','' \<or> hd r = CHR ''=''" by blast
  let ?w = "takeWhile (\<lambda>x. x \<noteq> CHR '','') r"
  have "takeWhile (\<lambda>x. x \<noteq> CHR '','') (g @ r) = g @ ?w"
    by (rule takeWhile_append2) (use clean in auto)
  then have comma: "takeWhile (\<lambda>x. x \<noteq> CHR '','') t = ''cn'' @ CHR ''='' # g @ ?w"
    by (simp add: t(1))
  have "\<exists>ps. Split (g @ ?w) (CHR ''='') = g # ps"
  proof (cases "?w = []")
    case True
    then show ?thesis using clean by (simp add: Split_no_sep)
  next
    case False
    with t(2) obtain w' where "?w = CHR ''='' # w'" by (cases r) (auto split: if_splits)
    then show ?thesis using clean by (simp add: Split_append_sep)
  qed
  then show ?read unfolding comma Split_second by auto
qed

lemma principal_group:
  "17 \<le> length s \<and> (\<exists>ps. Split (takeWhile (\<lambda>x. x \<noteq> CHR '','') (drop 17 s)) (CHR ''='') = ''cn'' # g # ps) \<longleftrightarrow>
     CHR '','' \<notin> set g \<and> CHR ''='' \<notin> set g \<and>
     (\<exists>p r. s = p @ ''cn='' @ g @ r \<and> length p = 17 \<and> (r = [] \<or> hd r = CHR '','' \<or> hd r = CHR ''=''))"
proof -
  have "17 \<le> length s \<and> drop 17 s = t \<longleftrightarrow> (\<exists>p. s = p @ t \<and> length p = 17)" for t
    by (metis append_eq_conv_conj append_take_drop_id le_add1 length_append length_take min.absorb2)
  then show ?thesis unfolding first_attribute by blast
qed

text \<open>
  C33: The group of a principal is read exactly: a principal gives the group \<open>g\<close> when it starts with
  \<open>openldap_group\<close> and, from its 18th byte, reads \<open>cn=g\<close> up to the next comma, equals sign or the end.
  The 17 bytes are not compared with the scheme. A principal that has the prefix and is shorter than the
  scheme makes the slice panic; every other principal gives an error.
\<close>

theorem group_of_principal:
  "(parseGroupFromPrincipalID s = Ret (Inr g) \<longleftrightarrow>
      HasPrefix s ''openldap_group'' \<and> CHR '','' \<notin> set g \<and> CHR ''='' \<notin> set g \<and>
      (\<exists>p r. s = p @ ''cn='' @ g @ r \<and> length p = 17 \<and> (r = [] \<or> hd r = CHR '','' \<or> hd r = CHR ''=''))) \<and>
   ((\<exists>m. parseGroupFromPrincipalID s = Panic m) \<longleftrightarrow> HasPrefix s ''openldap_group'' \<and> length s < 17)"
  using parse_panics_iff [of s] principal_group [of s g]
  by (simp add: parse_group_iff ldap_prefix_def)

text \<open>A short principal, and one whose scheme is mangled but still read.\<close>

lemma principal_examples:
  "parseGroupFromPrincipalID ''openldap_group:/'' = Panic ''slice bounds out of range''"
  "parseGroupFromPrincipalID ''openldap_groups--cn=foo,ou=Groups'' = Ret (Inr ''foo'')"
  by code_simp+

section \<open>Project lists\<close>

record ProjectList =
  pl_Projects :: "Project list"

text \<open>
  \<open>ReadProjects\<close> (\<open>yaml.go\<close>): reading the file and decoding it are parameters. The decoder fills the
  list it is given and reports an error, as \<open>yaml.Unmarshal\<close> does.
\<close>

definition ReadProjects :: "(string \<Rightarrow> go_error + string) \<Rightarrow> (string \<Rightarrow> ProjectList \<Rightarrow> ProjectList \<times> go_error option)
    \<Rightarrow> string \<Rightarrow> go_error + ProjectList" where
  "ReadProjects ReadFile Unmarshal yamlFile =
     (case ReadFile yamlFile of
        Inl err \<Rightarrow> Inl err
      | Inr data \<Rightarrow>
          (case Unmarshal data \<lparr>pl_Projects = []\<rparr> of
             (projects, Some err) \<Rightarrow> Inl err
           | (projects, None) \<Rightarrow> Inr projects))"

end
