(* ===== verification/Rancher_Client.thy ===== *)
theory Rancher_Client
  imports Rancher_Types
begin

text \<open>
  The Rancher REST client (\<open>upstream/rancher-go/client/client.go\<close>). Each method is a definition of
  the same name that makes the same HTTP requests in the same order. The HTTP library and the
  server behind it are a parameter, a service from histories of requests to responses; the history
  is the state the methods thread. A Go interface value is a record of methods.
\<close>

section \<open>Requests\<close>

datatype http_method = GET | POST | PUT | DELETE

text \<open>A value handed to the HTTP library for encoding, or bytes encoded by the program.\<close>

datatype payload = NoBody | Value jval | Bytes string

record http_req =
  rq_method :: http_method
  rq_url :: string
  rq_token :: "string option"
  rq_contentType :: "string option"
  rq_body :: payload

record http_resp =
  rs_status :: int
  rs_body :: string

type_synonym 'a http = "(http_req list, 'a) state"
type_synonym http_service = "(http_req, go_error + http_resp) service"

record 'r rancher_env =
  re_http :: http_service
  re_gjson :: "'r gjson"

record defaultClient =
  c_serverURL :: string
  c_token :: string

definition StatusOK :: int where
  "StatusOK = 200"

definition StatusCreated :: int where
  "StatusCreated = 201"

text \<open>\<open>resty.R().SetAuthToken(client.token)\<close>, then the verb.\<close>

definition request :: "defaultClient \<Rightarrow> http_method \<Rightarrow> string \<Rightarrow> payload \<Rightarrow> http_req" where
  "request c m path b =
     \<lparr>rq_method = m, rq_url = c_serverURL c @ path, rq_token = Some (c_token c),
      rq_contentType = None, rq_body = b\<rparr>"

definition rest :: "'r rancher_env \<Rightarrow> defaultClient \<Rightarrow> http_method \<Rightarrow> string \<Rightarrow> payload
    \<Rightarrow> (go_error + http_resp) http" where
  "rest env c m path b = call (re_http env) (request c m path b)"

section \<open>Readers\<close>

definition memberOf :: "'r gjson \<Rightarrow> 'r \<Rightarrow> Member" where
  "memberOf gj item =
     (let userPrincipalID = gj_String gj (gj_At gj item ''userPrincipalId'');
          groupPrincipalID = gj_String gj (gj_At gj item ''groupPrincipalId'')
      in \<lparr>m_ID = gj_String gj (gj_At gj item ''id''),
          m_UserID = gj_String gj (gj_At gj item ''userId''),
          m_ProjectID = gj_String gj (gj_At gj item ''projectId''),
          m_Type = (if userPrincipalID \<noteq> '''' then MemberTypeUser else MemberTypeGroup),
          m_PrincipalID = (if userPrincipalID \<noteq> '''' then userPrincipalID else groupPrincipalID),
          m_RoleTemplateID = gj_String gj (gj_At gj item ''roleTemplateId'')\<rparr>)"

definition GetProjectMembers :: "'r rancher_env \<Rightarrow> defaultClient \<Rightarrow> string
    \<Rightarrow> (go_error + Member list) http" where
  "GetProjectMembers env c projectID = do {
     resp \<leftarrow> rest env c GET (''/v3/projects/'' @ projectID @ ''/projectroletemplatebindings'') NoBody;
     State_Monad.return (case resp of
         Inl e \<Rightarrow> Inl e
       | Inr r \<Rightarrow>
           (let memberResults = gj_Get (re_gjson env) (rs_body r) ''data''
            in Inr (map (memberOf (re_gjson env)) (gj_Array (re_gjson env) memberResults))))
   }"

text \<open>\<open>GetProjectID\<close> has the body of \<open>GetProjectMembers\<close>.\<close>

definition GetProjectID :: "'r rancher_env \<Rightarrow> defaultClient \<Rightarrow> string
    \<Rightarrow> (go_error + Member list) http" where
  "GetProjectID env c projectID = do {
     resp \<leftarrow> rest env c GET (''/v3/projects/'' @ projectID @ ''/projectroletemplatebindings'') NoBody;
     State_Monad.return (case resp of
         Inl e \<Rightarrow> Inl e
       | Inr r \<Rightarrow>
           (let memberResults = gj_Get (re_gjson env) (rs_body r) ''data''
            in Inr (map (memberOf (re_gjson env)) (gj_Array (re_gjson env) memberResults))))
   }"

definition quotasOf :: "'r gjson \<Rightarrow> 'r \<Rightarrow> Quotas" where
  "quotasOf gj limits =
     fold (\<lambda>(key, value) q. gm_set q (gj_String gj key) (gj_String gj value)) (gj_ForEach gj limits) []"

definition GetProjectQuotas :: "'r rancher_env \<Rightarrow> defaultClient \<Rightarrow> string
    \<Rightarrow> (go_error + ProjectQuotas) http" where
  "GetProjectQuotas env c projectID = do {
     resp \<leftarrow> rest env c GET (''/v3/projects/'' @ projectID) NoBody;
     State_Monad.return (case resp of
         Inl e \<Rightarrow> Inl e
       | Inr r \<Rightarrow>
           (let gj = re_gjson env; body = rs_body r;
                projectLimitsResult = gj_Get gj body ''resourceQuota.limit'';
                projectUsedLimitsResult = gj_Get gj body ''resourceQuota.usedLimit'';
                namespaceLimitsResult = gj_Get gj body ''namespaceDefaultResourceQuota.limit''
            in Inr \<lparr>pq_Project = quotasOf gj projectLimitsResult,
                    pq_Used = quotasOf gj projectUsedLimitsResult,
                    pq_Namespace = quotasOf gj namespaceLimitsResult\<rparr>))
   }"

definition GetProjectDetail :: "'r rancher_env \<Rightarrow> defaultClient \<Rightarrow> string
    \<Rightarrow> (go_error + Project) http" where
  "GetProjectDetail env c projectID = do {
     rq \<leftarrow> GetProjectQuotas env c projectID;
     case rq of
       Inl e \<Rightarrow> State_Monad.return (Inl e)
     | Inr quotas \<Rightarrow> do {
         ms \<leftarrow> GetProjectMembers env c projectID;
         case ms of
           Inl e \<Rightarrow> State_Monad.return (Inl e)
         | Inr members \<Rightarrow> do {
             resp \<leftarrow> rest env c GET (''/v3/projects/'' @ projectID) NoBody;
             State_Monad.return (case resp of
                 Inl e \<Rightarrow> Inl e
               | Inr r \<Rightarrow>
                   (if rs_status r \<noteq> StatusOK
                    then Inl (''GetProjectDetail() failed: statusCode='' @ fmt_d (rs_status r))
                    else
                      (let gj = re_gjson env; body = rs_body r
                       in Inr \<lparr>p_ID = projectID,
                               p_Name = gj_String gj (gj_Get gj body ''name''),
                               p_Description = gj_String gj (gj_Get gj body ''description''),
                               p_PodSecurityPolicyID =
                                 gj_String gj (gj_Get gj body ''podSecurityPolicyTemplateId''),
                               p_Members = members,
                               p_ResourceQuotas = quotas\<rparr>)))
           }
       }
   }"

definition GetNamespaces :: "'r rancher_env \<Rightarrow> defaultClient \<Rightarrow> string
    \<Rightarrow> (go_error + string list) http" where
  "GetNamespaces env c clusterID = do {
     resp \<leftarrow> rest env c GET (''/v3/cluster/'' @ clusterID @ ''/namespaces'') NoBody;
     State_Monad.return (case resp of
         Inl e \<Rightarrow> Inl e
       | Inr r \<Rightarrow> Inr (parseValues (re_gjson env) (rs_body r) ''data.#.id''))
   }"

definition GetProjects :: "'r rancher_env \<Rightarrow> defaultClient \<Rightarrow> string
    \<Rightarrow> (go_error + Entity list) http" where
  "GetProjects env c clusterID = do {
     resp \<leftarrow> rest env c GET (''/v3/cluster/'' @ clusterID @ ''/projects'') NoBody;
     State_Monad.return (case resp of
         Inl e \<Rightarrow> Inl e
       | Inr r \<Rightarrow> Inr (parseEntities (re_gjson env) (rs_body r) ''data''))
   }"

definition GetProjectNamespaces :: "'r rancher_env \<Rightarrow> defaultClient \<Rightarrow> string \<Rightarrow> string
    \<Rightarrow> (go_error + string list) http" where
  "GetProjectNamespaces env c clusterID projectID = do {
     resp \<leftarrow> rest env c GET
       (''/v3/cluster/'' @ clusterID @ ''/namespaces?projectId='' @ projectID) NoBody;
     State_Monad.return (case resp of
         Inl e \<Rightarrow> Inl e
       | Inr r \<Rightarrow> Inr (parseValues (re_gjson env) (rs_body r) ''data.#.id''))
   }"

text \<open>The loop over the principals; an invalid one is logged and skipped, a panic is not.\<close>

fun collectGroups :: "string list \<Rightarrow> string list outcome" where
  "collectGroups [] = Ret []"
| "collectGroups (gid # ids) =
     (if gid \<noteq> '''' then
        (case parseGroupFromPrincipalID gid of
           Panic m \<Rightarrow> Panic m
         | Ret (Inl e) \<Rightarrow> collectGroups ids
         | Ret (Inr g) \<Rightarrow>
             (case collectGroups ids of
                Panic m \<Rightarrow> Panic m
              | Ret groups \<Rightarrow> Ret (if g \<noteq> '''' then g # groups else groups)))
      else collectGroups ids)"

definition GetProjectGroups :: "'r rancher_env \<Rightarrow> defaultClient \<Rightarrow> string
    \<Rightarrow> ((go_error + string list) outcome) http" where
  "GetProjectGroups env c projectID = do {
     resp \<leftarrow> rest env c GET (''/v3/projects/'' @ projectID @ ''/projectroletemplatebindings'') NoBody;
     State_Monad.return (case resp of
         Inl e \<Rightarrow> Ret (Inl e)
       | Inr r \<Rightarrow>
           (case collectGroups (parseValues (re_gjson env) (rs_body r) ''data.#.groupPrincipalId'') of
              Panic m \<Rightarrow> Panic m
            | Ret groups \<Rightarrow> Ret (Inr groups)))
   }"

definition GetClusters :: "'r rancher_env \<Rightarrow> defaultClient \<Rightarrow> (go_error + Entity list) http" where
  "GetClusters env c = do {
     resp \<leftarrow> rest env c GET ''/v3/clusters/'' NoBody;
     State_Monad.return (case resp of
         Inl e \<Rightarrow> Inl e
       | Inr r \<Rightarrow> Inr (parseEntities (re_gjson env) (rs_body r) ''data''))
   }"

section \<open>Writers\<close>

definition projectPayload :: "string \<Rightarrow> Project \<Rightarrow> (string \<times> jval) list \<Rightarrow> jval" where
  "projectPayload clusterID project ident =
     JObj ([(''type'', JStr ''project'')] @ ident @
       [(''name'', JStr (p_Name project)),
        (''clusterId'', JStr clusterID),
        (''podSecurityPolicyTemplateId'', JStr (p_PodSecurityPolicyID project)),
        (''description'', JStr (p_Description project)),
        (''resourceQuota'',
          JObj [(''limit'', map_to_json JStr (pq_Project (p_ResourceQuotas project)))]),
        (''namespaceDefaultResourceQuota'',
          JObj [(''limit'', map_to_json JStr (pq_Namespace (p_ResourceQuotas project)))])])"

definition memberPayload :: "string \<Rightarrow> Member \<Rightarrow> (string, jval) gomap" where
  "memberPayload projectID member =
     [(''type'', JStr ''projectRoleTemplateBinding''),
      (''subjectKind'', JStr (m_Type member)),
      (''userId'', JStr (m_UserID member)),
      (''projectRoleTemplateId'', JStr ''''),
      (''projectId'', JStr projectID),
      (''groupPrincipalId'', JStr ''''),
      (''userPrincipalId'', JStr ''''),
      (''roleTemplateId'', JStr (m_RoleTemplateID member))]"

definition AddProjectMember :: "'r rancher_env \<Rightarrow> defaultClient \<Rightarrow> string \<Rightarrow> Member
    \<Rightarrow> go_error option http" where
  "AddProjectMember env c projectID member =
     (let payload = memberPayload projectID member;
          post = (\<lambda>payload. do {
            resp \<leftarrow> rest env c POST ''/v3/projectroletemplatebinding'' (Value (JObj payload));
            State_Monad.return (case resp of
                Inl e \<Rightarrow> Some e
              | Inr r \<Rightarrow>
                  (if rs_status r \<noteq> StatusCreated
                   then Some (''add project member failed, code='' @ fmt_d (rs_status r))
                   else None)) })
      in if m_Type member = MemberTypeUser then
           post (gm_set payload ''userPrincipalId'' (JStr (m_PrincipalID member)))
         else if m_Type member = MemberTypeGroup then
           post (gm_set payload ''groupPrincipalId'' (JStr (m_PrincipalID member)))
         else State_Monad.return (Some ''invalid member type''))"

definition SetProjectPSP :: "'r rancher_env \<Rightarrow> defaultClient \<Rightarrow> string \<Rightarrow> string
    \<Rightarrow> go_error option http" where
  "SetProjectPSP env c projectID PodSecurityPolicyID = do {
     resp \<leftarrow> rest env c POST (''/v3/projects/'' @ projectID @ ''?action=setpodsecuritypolicytemplate'')
       (Value (JObj [(''podSecurityPolicyTemplateId'', JStr PodSecurityPolicyID)]));
     State_Monad.return (case resp of Inl e \<Rightarrow> Some e | Inr r \<Rightarrow> None)
   }"

definition DeleteProjectMember :: "'r rancher_env \<Rightarrow> defaultClient \<Rightarrow> string
    \<Rightarrow> go_error option http" where
  "DeleteProjectMember env c ID = do {
     resp \<leftarrow> rest env c DELETE (''/v3/projectRoleTemplateBindings/'' @ ID) NoBody;
     State_Monad.return (case resp of
         Inl e \<Rightarrow> Some e
       | Inr r \<Rightarrow>
           (if rs_status r \<noteq> StatusOK
            then Some (''delete failed, response='' @ fmt_d (rs_status r)) else None))
   }"

definition DeleteProject :: "'r rancher_env \<Rightarrow> defaultClient \<Rightarrow> string \<Rightarrow> go_error option http" where
  "DeleteProject env c projectID = do {
     resp \<leftarrow> rest env c DELETE (''/v3/projects/'' @ projectID) NoBody;
     State_Monad.return (case resp of
         Inl e \<Rightarrow> Some e
       | Inr r \<Rightarrow>
           (if rs_status r \<noteq> StatusOK
            then Some (''delete failed, response='' @ fmt_d (rs_status r)) else None))
   }"

text \<open>The loop that binds members: an error is logged and the loop goes on.\<close>

fun bindMembers :: "'r rancher_env \<Rightarrow> defaultClient \<Rightarrow> string \<Rightarrow> Member list \<Rightarrow> unit http" where
  "bindMembers env c projectID [] = State_Monad.return ()"
| "bindMembers env c projectID (m # ms) = do {
     err \<leftarrow> AddProjectMember env c projectID m;
     bindMembers env c projectID ms
   }"

fun unbindMembers :: "'r rancher_env \<Rightarrow> defaultClient \<Rightarrow> Member list \<Rightarrow> unit http" where
  "unbindMembers env c [] = State_Monad.return ()"
| "unbindMembers env c (m # ms) = do {
     err \<leftarrow> DeleteProjectMember env c (m_ID m);
     unbindMembers env c ms
   }"

definition CreateProject :: "'r rancher_env \<Rightarrow> defaultClient \<Rightarrow> string \<Rightarrow> Project
    \<Rightarrow> (string \<times> go_error option) http" where
  "CreateProject env c clusterID project = do {
     resp \<leftarrow> rest env c POST ''/v3/project?_replace=true'' (Value (projectPayload clusterID project []));
     case resp of
       Inl e \<Rightarrow> State_Monad.return ('''', Some e)
     | Inr r \<Rightarrow>
         (if rs_status r \<noteq> StatusCreated then
            State_Monad.return
              ('''', Some (''created project failed, statuscode='' @ fmt_d (rs_status r)))
          else
            (let projectID = gj_String (re_gjson env) (gj_Get (re_gjson env) (rs_body r) ''id'')
             in if projectID = '''' then
                  State_Monad.return ('''', Some ''created projectID not found'')
                else do {
                  _ \<leftarrow> bindMembers env c projectID (p_Members project);
                  err \<leftarrow> SetProjectPSP env c projectID (p_PodSecurityPolicyID project);
                  State_Monad.return (projectID, err)
                }))
   }"

definition newMembersOf :: "Member list \<Rightarrow> Member list \<Rightarrow> Member list" where
  "newMembersOf old want = filter (\<lambda>m. \<not> hasMember old m) want"

definition deletedMembersOf :: "Member list \<Rightarrow> Member list \<Rightarrow> Member list" where
  "deletedMembersOf old want = filter (\<lambda>m. \<not> hasMember want m) old"

definition UpdateProject :: "'r rancher_env \<Rightarrow> defaultClient \<Rightarrow> string \<Rightarrow> string \<Rightarrow> Project
    \<Rightarrow> go_error option http" where
  "UpdateProject env c clusterID projectID project = do {
     detail \<leftarrow> GetProjectDetail env c projectID;
     case detail of
       Inl e \<Rightarrow> State_Monad.return (Some e)
     | Inr oldPrj \<Rightarrow> do {
         resp \<leftarrow> rest env c PUT (''/v3/projects/'' @ projectID @ ''?_replace=true'')
           (Value (projectPayload clusterID project [(''id'', JStr projectID)]));
         case resp of
           Inl e \<Rightarrow> State_Monad.return (Some e)
         | Inr r \<Rightarrow> do {
             psp \<leftarrow> (if p_PodSecurityPolicyID oldPrj \<noteq> p_PodSecurityPolicyID project
                    then SetProjectPSP env c projectID (p_PodSecurityPolicyID project)
                    else State_Monad.return None);
             case psp of
               Some e \<Rightarrow> State_Monad.return (Some e)
             | None \<Rightarrow> do {
                 _ \<leftarrow> bindMembers env c projectID (newMembersOf (p_Members oldPrj) (p_Members project));
                 _ \<leftarrow> unbindMembers env c (deletedMembersOf (p_Members oldPrj) (p_Members project));
                 State_Monad.return None
               }
           }
       }
   }"

definition AddUser :: "'r rancher_env \<Rightarrow> defaultClient \<Rightarrow> string \<Rightarrow> string
    \<Rightarrow> (go_error + string) http" where
  "AddUser env c username password = do {
     resp \<leftarrow> rest env c POST ''/v3/users''
       (Value (JObj [(''enbled'', JBool True), (''me'', JBool False),
          (''mustChangePassword'', JBool False), (''username'', JStr username),
          (''name'', JStr username), (''password'', JStr password)]));
     State_Monad.return (case resp of
         Inl e \<Rightarrow> Inl e
       | Inr r \<Rightarrow> Inr (gj_String (re_gjson env) (gj_Get (re_gjson env) (rs_body r) ''id'')))
   }"

definition DeleteUser :: "'r rancher_env \<Rightarrow> defaultClient \<Rightarrow> string \<Rightarrow> go_error option http" where
  "DeleteUser env c userID = do {
     resp \<leftarrow> rest env c DELETE (''/v3/users/'' @ userID) NoBody;
     State_Monad.return (case resp of
         Inl e \<Rightarrow> Some e
       | Inr r \<Rightarrow>
           (if rs_status r \<noteq> StatusOK
            then Some (''delete failed, response='' @ fmt_d (rs_status r)) else None))
   }"

definition GetKubeConfig :: "'r rancher_env \<Rightarrow> defaultClient \<Rightarrow> string
    \<Rightarrow> (go_error + string) http" where
  "GetKubeConfig env c clusterID = do {
     resp \<leftarrow> rest env c POST (''/v3/clusters/'' @ clusterID @ ''/?action=generateKubeconfig'') NoBody;
     State_Monad.return (case resp of
         Inl e \<Rightarrow> Inl e
       | Inr r \<Rightarrow> Inr (gj_String (re_gjson env) (gj_Get (re_gjson env) (rs_body r) ''config'')))
   }"

definition GetUserToken :: "'r rancher_env \<Rightarrow> defaultClient \<Rightarrow> string \<Rightarrow> string
    \<Rightarrow> (go_error + string) http" where
  "GetUserToken env c username password = do {
     resp \<leftarrow> call (re_http env)
       \<lparr>rq_method = POST, rq_url = c_serverURL c @ ''/v3-public/localProviders/local?action=login'',
        rq_token = None, rq_contentType = Some ''application/json'',
        rq_body = Value (JObj [(''username'', JStr username), (''password'', JStr password)])\<rparr>;
     State_Monad.return (case resp of
         Inl e \<Rightarrow> Inl e
       | Inr r \<Rightarrow> Inr (gj_String (re_gjson env) (gj_Get (re_gjson env) (rs_body r) ''token'')))
   }"

section \<open>The client as an interface\<close>

text \<open>The method set of the interface \<open>Client\<close> (\<open>Reader\<close> and \<open>Writer\<close>), and its implementation.\<close>

record Client =
  cl_GetClusters :: "(go_error + Entity list) http"
  cl_GetNamespaces :: "string \<Rightarrow> (go_error + string list) http"
  cl_GetProjects :: "string \<Rightarrow> (go_error + Entity list) http"
  cl_GetProjectNamespaces :: "string \<Rightarrow> string \<Rightarrow> (go_error + string list) http"
  cl_GetProjectGroups :: "string \<Rightarrow> ((go_error + string list) outcome) http"
  cl_GetProjectQuotas :: "string \<Rightarrow> (go_error + ProjectQuotas) http"
  cl_GetProjectMembers :: "string \<Rightarrow> (go_error + Member list) http"
  cl_GetProjectDetail :: "string \<Rightarrow> (go_error + Project) http"
  cl_CreateProject :: "string \<Rightarrow> Project \<Rightarrow> (string \<times> go_error option) http"
  cl_DeleteProject :: "string \<Rightarrow> go_error option http"
  cl_UpdateProject :: "string \<Rightarrow> string \<Rightarrow> Project \<Rightarrow> go_error option http"
  cl_AddProjectMember :: "string \<Rightarrow> Member \<Rightarrow> go_error option http"
  cl_AddUser :: "string \<Rightarrow> string \<Rightarrow> (go_error + string) http"
  cl_DeleteUser :: "string \<Rightarrow> go_error option http"
  cl_GetKubeConfig :: "string \<Rightarrow> (go_error + string) http"
  cl_GetUserToken :: "string \<Rightarrow> string \<Rightarrow> (go_error + string) http"

definition NewClient :: "'r rancher_env \<Rightarrow> string \<Rightarrow> string \<Rightarrow> Client" where
  "NewClient env serverURL token =
     (let c = \<lparr>c_serverURL = serverURL, c_token = token\<rparr>
      in \<lparr>cl_GetClusters = GetClusters env c, cl_GetNamespaces = GetNamespaces env c,
          cl_GetProjects = GetProjects env c, cl_GetProjectNamespaces = GetProjectNamespaces env c,
          cl_GetProjectGroups = GetProjectGroups env c, cl_GetProjectQuotas = GetProjectQuotas env c,
          cl_GetProjectMembers = GetProjectMembers env c, cl_GetProjectDetail = GetProjectDetail env c,
          cl_CreateProject = CreateProject env c, cl_DeleteProject = DeleteProject env c,
          cl_UpdateProject = UpdateProject env c, cl_AddProjectMember = AddProjectMember env c,
          cl_AddUser = AddUser env c, cl_DeleteUser = DeleteUser env c,
          cl_GetKubeConfig = GetKubeConfig env c, cl_GetUserToken = GetUserToken env c\<rparr>)"

section \<open>Facts about requests\<close>

text \<open>Requests that only read, and that carry the client's token to the client's server.\<close>

definition authorised :: "string \<Rightarrow> string \<Rightarrow> http_req \<Rightarrow> bool" where
  "authorised server tok q \<longleftrightarrow> rq_token q = Some tok \<and> HasPrefix (rq_url q) server"

definition reading :: "string \<Rightarrow> string \<Rightarrow> http_req \<Rightarrow> bool" where
  "reading server tok q \<longleftrightarrow> rq_method q = GET \<and> authorised server tok q"

lemma request_sel [simp]:
  "rq_method (request c m p b) = m" "rq_url (request c m p b) = c_serverURL c @ p"
  "rq_token (request c m p b) = Some (c_token c)" "rq_body (request c m p b) = b"
  by (simp_all add: request_def)

lemma authorised_request [simp]: "authorised (c_serverURL c) (c_token c) (request c m p b)"
  by (simp add: authorised_def)

lemma reading_request [simp]: "reading (c_serverURL c) (c_token c) (request c GET p b)"
  by (simp add: reading_def)

lemma run_rest [simp, io_simps]:
  "run_state (rest env c m p b) h = (re_http env h (request c m p b), h @ [request c m p b])"
  by (simp add: rest_def)

lemma extends_rest [intro]: "P (request c m p b) \<Longrightarrow> extends P (rest env c m p b)"
  by (simp add: rest_def extends_call)

lemmas reader_defs = GetProjectMembers_def GetProjectID_def GetProjectQuotas_def GetNamespaces_def
  GetProjects_def GetProjectNamespaces_def GetProjectGroups_def GetClusters_def

lemmas writer_defs = AddProjectMember_def SetProjectPSP_def DeleteProjectMember_def
  DeleteProject_def DeleteUser_def AddUser_def GetKubeConfig_def

text \<open>The methods that make one request make exactly that one.\<close>

definition one_request :: "(http_req \<Rightarrow> bool) \<Rightarrow> 'a http \<Rightarrow> bool" where
  "one_request P m \<longleftrightarrow> (\<forall>h. \<exists>q. P q \<and> snd (run_state m h) = h @ [q])"

lemma one_requestE:
  assumes "one_request P m"
  obtains q where "P q" "snd (run_state m h) = h @ [q]"
  using assms by (auto simp: one_request_def)

lemma one_request_extends: "one_request P m \<Longrightarrow> extends P m"
  by (fastforce simp: one_request_def extends_def)

lemma readers_one_request:
  "one_request (reading (c_serverURL c) (c_token c)) (GetProjects env c cid)"
  "one_request (reading (c_serverURL c) (c_token c)) (GetProjectMembers env c pid)"
  "one_request (reading (c_serverURL c) (c_token c)) (GetProjectNamespaces env c cid pid)"
  by (auto simp: one_request_def reader_defs)

lemma readers_read:
  "extends (reading (c_serverURL c) (c_token c)) (GetProjectMembers env c pid)"
  "extends (reading (c_serverURL c) (c_token c)) (GetProjectID env c pid)"
  "extends (reading (c_serverURL c) (c_token c)) (GetProjectQuotas env c pid)"
  "extends (reading (c_serverURL c) (c_token c)) (GetNamespaces env c cid)"
  "extends (reading (c_serverURL c) (c_token c)) (GetProjects env c cid)"
  "extends (reading (c_serverURL c) (c_token c)) (GetProjectNamespaces env c cid pid)"
  "extends (reading (c_serverURL c) (c_token c)) (GetProjectGroups env c pid)"
  "extends (reading (c_serverURL c) (c_token c)) (GetClusters env c)"
  by (auto simp: reader_defs intro!: extends_bind extends_rest)

lemma detail_reads: "extends (reading (c_serverURL c) (c_token c)) (GetProjectDetail env c pid)"
  by (auto simp: GetProjectDetail_def intro!: extends_bind extends_rest readers_read split: sum.split)

lemma reading_authorised: "reading s t q \<Longrightarrow> authorised s t q"
  by (simp add: reading_def)

lemma writers_authorised:
  "extends (authorised (c_serverURL c) (c_token c)) (AddProjectMember env c pid m)"
  "extends (authorised (c_serverURL c) (c_token c)) (SetProjectPSP env c pid psp)"
  "extends (authorised (c_serverURL c) (c_token c)) (DeleteProjectMember env c ident)"
  "extends (authorised (c_serverURL c) (c_token c)) (DeleteProject env c pid)"
  "extends (authorised (c_serverURL c) (c_token c)) (DeleteUser env c uid)"
  "extends (authorised (c_serverURL c) (c_token c)) (AddUser env c u p)"
  "extends (authorised (c_serverURL c) (c_token c)) (GetKubeConfig env c cid)"
  by (auto simp: writer_defs Let_def intro!: extends_bind extends_rest)

lemma bind_loops_authorised:
  "extends (authorised (c_serverURL c) (c_token c)) (bindMembers env c pid ms)"
  "extends (authorised (c_serverURL c) (c_token c)) (unbindMembers env c ms)"
  by (induction ms) (auto intro!: extends_bind writers_authorised)

lemma CreateProject_authorised:
  "extends (authorised (c_serverURL c) (c_token c)) (CreateProject env c cid p)"
  by (auto simp: CreateProject_def Let_def intro!: extends_bind extends_rest writers_authorised
      bind_loops_authorised split: sum.split)

lemma UpdateProject_authorised:
  "extends (authorised (c_serverURL c) (c_token c)) (UpdateProject env c cid pid p)"
  by (auto simp: UpdateProject_def intro!: extends_bind extends_rest writers_authorised
      bind_loops_authorised extends_mono [OF detail_reads reading_authorised]
      split: sum.split option.split)

section \<open>Synchronising the members of a project\<close>

text \<open>The request, if any, that binds one member.\<close>

definition bindRequests :: "defaultClient \<Rightarrow> string \<Rightarrow> Member \<Rightarrow> http_req list" where
  "bindRequests c pid m =
     (let post = (\<lambda>field. request c POST ''/v3/projectroletemplatebinding''
            (Value (JObj (gm_set (memberPayload pid m) field (JStr (m_PrincipalID m))))))
      in if m_Type m = MemberTypeUser then [post ''userPrincipalId'']
         else if m_Type m = MemberTypeGroup then [post ''groupPrincipalId'']
         else [])"

definition unbindRequest :: "defaultClient \<Rightarrow> Member \<Rightarrow> http_req" where
  "unbindRequest c m = request c DELETE (''/v3/projectRoleTemplateBindings/'' @ m_ID m) NoBody"

lemma run_AddProjectMember_state:
  "snd (run_state (AddProjectMember env c pid m) h) = h @ bindRequests c pid m"
  by (simp add: AddProjectMember_def bindRequests_def Let_def)

lemma run_bindMembers [io_simps]:
  "run_state (bindMembers env c pid ms) h = ((), h @ concat (map (bindRequests c pid) ms))"
proof (induction ms arbitrary: h)
  case (Cons m ms)
  then show ?case
    using run_AddProjectMember_state [of env c pid m h]
    by (cases "run_state (AddProjectMember env c pid m) h") simp
qed simp

lemma run_unbindMembers [io_simps]:
  "run_state (unbindMembers env c ms) h = ((), h @ map (unbindRequest c) ms)"
  by (induction ms arbitrary: h) (simp_all add: DeleteProjectMember_def unbindRequest_def)

lemma sync_by_id:
  assumes "distinct (map m_ID old)"
  shows "filter (\<lambda>m. m_ID m \<notin> m_ID ` set (deletedMembersOf old want)) old = filter (hasMember want) old"
proof (rule filter_cong [OF refl])
  fix m assume "m \<in> set old"
  with assms show "m_ID m \<notin> m_ID ` set (deletedMembersOf old want) \<longleftrightarrow> hasMember want m"
    by (auto simp: deletedMembersOf_def distinct_map inj_on_def)
qed

text \<open>
  What requests amount to when Rancher carries them out: the old bindings that none of them deletes and
  the wanted members that one of them binds.
\<close>

definition membersAfter :: "defaultClient \<Rightarrow> string \<Rightarrow> Member list \<Rightarrow> Member list \<Rightarrow> http_req list \<Rightarrow> Member list" where
  "membersAfter c pid old want reqs =
     filter (\<lambda>m. unbindRequest c m \<notin> set reqs) old
       @ filter (\<lambda>m. list_ex (\<lambda>q. q \<in> set reqs) (bindRequests c pid m)) want"

definition bindable :: "Member \<Rightarrow> bool" where
  "bindable m \<longleftrightarrow> m_Type m = MemberTypeUser \<or> m_Type m = MemberTypeGroup"

lemma bindRequests_post: "q \<in> set (bindRequests c pid m) \<Longrightarrow> rq_method q = POST"
  by (auto simp: bindRequests_def Let_def request_def split: if_splits)

lemma bindRequests_bindable: "bindRequests c pid m \<noteq> [] \<longleftrightarrow> bindable m"
  by (simp add: bindRequests_def Let_def bindable_def)

lemma unbind_written:
  assumes "distinct (map m_ID old)" and "rq_method put = PUT" and "m \<in> set old"
  shows "unbindRequest c m \<in> set (put # concat (map (bindRequests c pid) ns) @ map (unbindRequest c) (deletedMembersOf old want)) \<longleftrightarrow>
    \<not> hasMember want m"
proof -
  have "rq_method (unbindRequest c m) = DELETE" by (simp add: unbindRequest_def request_def)
  then have "unbindRequest c m \<noteq> put" "unbindRequest c m \<notin> set (concat (map (bindRequests c pid) ns))"
    using assms(2) bindRequests_post by (fastforce simp: set_concat)+
  moreover have "unbindRequest c m \<in> set (map (unbindRequest c) (deletedMembersOf old want)) \<longleftrightarrow>
      (\<exists>d \<in> set old. \<not> hasMember want d \<and> m_ID m = m_ID d)"
    by (auto simp: unbindRequest_def request_def deletedMembersOf_def)
  moreover have "(\<exists>d \<in> set old. \<not> hasMember want d \<and> m_ID m = m_ID d) \<longleftrightarrow> \<not> hasMember want m"
    using assms(1,3) by (auto simp: distinct_map inj_on_def)
  ultimately show ?thesis by (simp only: list.set set_append insert_iff Un_iff) blast
qed

lemma membersAfter_sync:
  assumes "distinct (map m_ID old)" and "rq_method put = PUT"
  shows "hasMember (membersAfter c pid old want (put # concat (map (bindRequests c pid) (newMembersOf old want))
      @ map (unbindRequest c) (deletedMembersOf old want))) x \<longleftrightarrow> hasMember want x \<and> (bindable x \<or> hasMember old x)"
    (is "hasMember (membersAfter c pid old want ?reqs) x \<longleftrightarrow> _")
proof -
  let ?bound = "filter (\<lambda>m. list_ex (\<lambda>q. q \<in> set ?reqs) (bindRequests c pid m)) want"
  have kept: "filter (\<lambda>m. unbindRequest c m \<notin> set ?reqs) old = filter (hasMember want) old"
    by (rule filter_cong [OF refl]) (simp add: unbind_written [OF assms] del: set_simps set_append)
  have bound: "bindable m" if "m \<in> set ?bound" for m
    using that bindRequests_bindable [of c pid m] by auto
  have new: "m \<in> set ?bound" if "m \<in> set want" "bindable m" "\<not> hasMember old m" for m
  proof -
    have "bindRequests c pid m \<noteq> []" using that bindRequests_bindable by blast
    then obtain q qs where "bindRequests c pid m = q # qs" by (auto simp: neq_Nil_conv)
    with that show ?thesis by (auto simp: newMembersOf_def intro!: bexI [of _ m])
  qed
  have same: "bindable m = bindable n \<and> hasMember ms m = hasMember ms n" if "Compare m n" for m n ms
    using that by (auto simp: bindable_def Compare_def hasMember_iff)
  show ?thesis unfolding membersAfter_def kept member_sync.has_append
  proof safe
    assume "hasMember want x" "\<not> hasMember ?bound x"
    then obtain w where w: "w \<in> set want" "Compare w x" by (auto simp: hasMember_iff)
    assume "bindable x"
    then have "bindable w" using same [OF w(2)] by blast
    have "w \<notin> set ?bound" using w(2) \<open>\<not> hasMember ?bound x\<close> unfolding hasMember_iff by blast
    with new [OF w(1) \<open>bindable w\<close>] have "hasMember old w" by blast
    then show "hasMember (filter (hasMember want) old) x"
      using w by (fastforce simp: hasMember_iff Compare_def)
  qed (use bound in \<open>fastforce simp: hasMember_iff Compare_def bindable_def\<close>)+
qed

section \<open>What a resolver needs of a client\<close>

text \<open>
  The contract between the client and the cache built from it: each of the three listings is one
  authorised GET, and the listed projects have a name and an identifier.
\<close>

locale project_source =
  fixes cl :: Client
    and server :: string
    and tok :: string
  assumes projects_one: "one_request (reading server tok) (cl_GetProjects cl cid)"
    and members_one: "one_request (reading server tok) (cl_GetProjectMembers cl pid)"
    and namespaces_one: "one_request (reading server tok) (cl_GetProjectNamespaces cl cid pid)"
    and projects_named: "fst (run_state (cl_GetProjects cl cid) h) = Inr es \<Longrightarrow> e \<in> set es \<Longrightarrow>
      e_ID e \<noteq> '''' \<and> e_Name e \<noteq> ''''"

lemma NewClient_sel [simp]:
  "cl_GetProjects (NewClient env u t) = GetProjects env \<lparr>c_serverURL = u, c_token = t\<rparr>"
  "cl_GetProjectMembers (NewClient env u t) = GetProjectMembers env \<lparr>c_serverURL = u, c_token = t\<rparr>"
  "cl_GetProjectNamespaces (NewClient env u t) =
     GetProjectNamespaces env \<lparr>c_serverURL = u, c_token = t\<rparr>"
  "cl_GetProjectQuotas (NewClient env u t) = GetProjectQuotas env \<lparr>c_serverURL = u, c_token = t\<rparr>"
  "cl_GetProjectDetail (NewClient env u t) = GetProjectDetail env \<lparr>c_serverURL = u, c_token = t\<rparr>"
  by (simp_all add: NewClient_def Let_def)

lemma GetProjects_named:
  "fst (run_state (GetProjects env c cid) h) = Inr es \<Longrightarrow> e \<in> set es \<Longrightarrow>
   e_ID e \<noteq> '''' \<and> e_Name e \<noteq> ''''"
  by (auto simp: GetProjects_def split: sum.splits dest!: parseEntities_named)

interpretation rc: project_source "NewClient env u t" u t for env u t
  using readers_one_request [where c = "\<lparr>c_serverURL = u, c_token = t\<rparr>"]
  by unfold_locales (auto dest: GetProjects_named)

section \<open>Properties of the client\<close>

text \<open>
  The methods that query Rancher only read: whatever the server answers, every request they make
  is a GET with the client's token to the client's server.
\<close>

lemma readers_only_read:
  "extends (reading (c_serverURL c) (c_token c)) (GetProjectDetail env c pid) \<and>
   extends (reading (c_serverURL c) (c_token c)) (GetProjectMembers env c pid) \<and>
   extends (reading (c_serverURL c) (c_token c)) (GetProjectID env c pid) \<and>
   extends (reading (c_serverURL c) (c_token c)) (GetProjectQuotas env c pid) \<and>
   extends (reading (c_serverURL c) (c_token c)) (GetProjectGroups env c pid) \<and>
   extends (reading (c_serverURL c) (c_token c)) (GetProjectNamespaces env c cid pid) \<and>
   extends (reading (c_serverURL c) (c_token c)) (GetProjects env c cid) \<and>
   extends (reading (c_serverURL c) (c_token c)) (GetNamespaces env c cid) \<and>
   extends (reading (c_serverURL c) (c_token c)) (GetClusters env c)"
  by (simp add: readers_read detail_reads)

text \<open>
  \<open>AddProjectMember\<close> on every branch: a user or a group is bound by one POST that carries its
  principal in the matching field, and the answer is an error exactly when the request fails or the
  status is not 201; a member of another type is refused and nothing is sent.
\<close>

lemma AddProjectMember_branches:
  "run_state (AddProjectMember env c pid m) h =
     (case bindRequests c pid m of
        [] \<Rightarrow> (Some ''invalid member type'', h)
      | q # _ \<Rightarrow>
          (case re_http env h q of
             Inl e \<Rightarrow> Some e
           | Inr r \<Rightarrow> if rs_status r = 201 then None
                      else Some (''add project member failed, code='' @ fmt_d (rs_status r)),
           h @ [q]))
   \<and> (bindRequests c pid m = [] \<longleftrightarrow> m_Type m \<noteq> ''User'' \<and> m_Type m \<noteq> ''Group'')"
  by (auto simp: AddProjectMember_def bindRequests_def Let_def StatusCreated_def MemberTypeUser_def
      MemberTypeGroup_def split: sum.split)

text \<open>
  C37: \<open>UpdateProject\<close> brings the members to the wanted list. With the security policy unchanged it
  makes, after reading the project, exactly the PUT, then one binding request for each wanted member
  that no old member equals, then one deletion for each old member that no wanted member equals; it
  answers nil whatever those requests and the PUT answer (\<open>r\<close> is any response). When the old bindings
  have distinct identifiers and Rancher carries these requests out, what remains is, up to \<open>Compare\<close>,
  exactly the wanted list; of the wanted members that are neither users nor groups, for which nothing is
  sent, only those that were there before.
\<close>

theorem UpdateProject_syncs:
  assumes "run_state (GetProjectDetail env c pid) h = (Inr old, h1)"
    and "re_http env h1 (request c PUT (''/v3/projects/'' @ pid @ ''?_replace=true'')
       (Value (projectPayload cid want [(''id'', JStr pid)]))) = Inr r"
    and "p_PodSecurityPolicyID old = p_PodSecurityPolicyID want"
    and "distinct (map m_ID (p_Members old))"
  shows "run_state (UpdateProject env c cid pid want) h =
     (None, h1 @ [request c PUT (''/v3/projects/'' @ pid @ ''?_replace=true'')
         (Value (projectPayload cid want [(''id'', JStr pid)]))]
       @ concat (map (bindRequests c pid) (newMembersOf (p_Members old) (p_Members want)))
       @ map (unbindRequest c) (deletedMembersOf (p_Members old) (p_Members want)))
   \<and> (\<forall>x. hasMember (membersAfter c pid (p_Members old) (p_Members want)
         (drop (length h1) (snd (run_state (UpdateProject env c cid pid want) h)))) x \<longleftrightarrow>
       hasMember (p_Members want) x \<and> (bindable x \<or> hasMember (p_Members old) x))"
proof -
  let ?put = "request c PUT (''/v3/projects/'' @ pid @ ''?_replace=true'') (Value (projectPayload cid want [(''id'', JStr pid)]))"
  have "run_state (UpdateProject env c cid pid want) h =
     (None, h1 @ [?put] @ concat (map (bindRequests c pid) (newMembersOf (p_Members old) (p_Members want)))
       @ map (unbindRequest c) (deletedMembersOf (p_Members old) (p_Members want)))"
    using assms by (simp add: UpdateProject_def run_bindMembers run_unbindMembers)
  moreover have "rq_method ?put = PUT" by (simp add: request_def)
  ultimately show ?thesis using membersAfter_sync [OF assms(4)] by simp
qed

definition sync_table :: "string \<Rightarrow> string \<Rightarrow> jval" where
  "sync_table body path =
     (if path = ''data'' then
        JArr [JObj [(''id'', JStr ''b1''), (''groupPrincipalId'', JStr ''g1''), (''roleTemplateId'', JStr ''r'')],
              JObj [(''id'', JStr ''b2''), (''userPrincipalId'', JStr ''u1''), (''roleTemplateId'', JStr ''r'')]]
      else if path = ''name'' then JStr ''proj'' else JNull)"

definition sync_env :: "jval rancher_env" where
  "sync_env = \<lparr>re_http = (\<lambda>h q. Inr \<lparr>rs_status = (if rq_method q = GET then 200 else 500), rs_body = ''b''\<rparr>),
     re_gjson = table_gjson sync_table\<rparr>"

definition sync_client :: defaultClient where
  "sync_client = \<lparr>c_serverURL = ''s'', c_token = ''t''\<rparr>"

definition sync_member :: "string \<Rightarrow> string \<Rightarrow> string \<Rightarrow> Member" where
  "sync_member ident typ prin = \<lparr>m_ID = ident, m_UserID = '''', m_ProjectID = '''', m_Type = typ,
     m_PrincipalID = prin, m_RoleTemplateID = ''r''\<rparr>"

definition sync_want :: Project where
  "sync_want = \<lparr>p_ID = '''', p_Name = ''proj'', p_Description = '''', p_PodSecurityPolicyID = '''',
     p_Members = [sync_member '''' ''User'' ''u1'', sync_member '''' ''User'' ''u2''],
     p_ResourceQuotas = \<lparr>pq_Project = [], pq_Used = [], pq_Namespace = []\<rparr>\<rparr>"

definition sync_old :: "Member list" where
  "sync_old = [sync_member ''b1'' ''Group'' ''g1'', sync_member ''b2'' ''User'' ''u1'']"

lemma sync_detail:
  "run_state (GetProjectDetail sync_env sync_client ''p'') [] =
     (Inr \<lparr>p_ID = ''p'', p_Name = ''proj'', p_Description = '''', p_PodSecurityPolicyID = '''',
        p_Members = sync_old, p_ResourceQuotas = \<lparr>pq_Project = [], pq_Used = [], pq_Namespace = []\<rparr>\<rparr>,
      [request sync_client GET ''/v3/projects/p'' NoBody,
       request sync_client GET ''/v3/projects/p/projectroletemplatebindings'' NoBody,
       request sync_client GET ''/v3/projects/p'' NoBody])"
  by (simp add: GetProjectDetail_def GetProjectQuotas_def GetProjectMembers_def sync_env_def
      sync_table_def table_gjson_def quotasOf_def memberOf_def Let_def StatusOK_def sync_old_def
      sync_member_def MemberTypeUser_def MemberTypeGroup_def)

theorem UpdateProject_syncs_witness:
  "\<exists>h1. run_state (UpdateProject sync_env sync_client ''c'' ''p'' sync_want) [] =
     (None, h1 @ [request sync_client PUT ''/v3/projects/p?_replace=true''
         (Value (projectPayload ''c'' sync_want [(''id'', JStr ''p'')]))]
       @ bindRequests sync_client ''p'' (sync_member '''' ''User'' ''u2'')
       @ [request sync_client DELETE ''/v3/projectRoleTemplateBindings/b1'' NoBody])"
proof -
  note upd = UpdateProject_syncs [OF sync_detail, where cid = "''c''" and want = sync_want
      and r = "\<lparr>rs_status = 500, rs_body = ''b''\<rparr>"]
  show ?thesis
    using upd by (simp add: sync_env_def sync_want_def sync_old_def sync_member_def newMembersOf_def
        deletedMembersOf_def Compare_def unbindRequest_def)
qed

text \<open>
  \<open>CreateProject\<close>, once the server has answered 201 with an identifier, binds the members in
  order, going on after failures, then sets the security policy; it returns the identifier even when
  that last request fails, and the error is the error of that request alone.
\<close>

lemma CreateProject_created:
  assumes "re_http env h (request c POST ''/v3/project?_replace=true''
      (Value (projectPayload cid prj []))) = Inr r"
    and "rs_status r = 201"
    and "gj_String (re_gjson env) (gj_Get (re_gjson env) (rs_body r) ''id'') = pid" and "pid \<noteq> ''''"
  shows "\<exists>h2 psp. h2 = h @ request c POST ''/v3/project?_replace=true'' (Value (projectPayload cid prj []))
        # concat (map (bindRequests c pid) (p_Members prj)) \<and>
     psp = request c POST (''/v3/projects/'' @ pid @ ''?action=setpodsecuritypolicytemplate'')
       (Value (JObj [(''podSecurityPolicyTemplateId'', JStr (p_PodSecurityPolicyID prj))])) \<and>
     run_state (CreateProject env c cid prj) h =
       ((pid, case re_http env h2 psp of Inl e \<Rightarrow> Some e | Inr _ \<Rightarrow> None), h2 @ [psp])"
  using assms by (simp add: CreateProject_def run_bindMembers SetProjectPSP_def Let_def StatusCreated_def)

definition create_env :: "jval rancher_env" where
  "create_env = \<lparr>re_http = (\<lambda>h q. if length h < 2 then Inr \<lparr>rs_status = 201, rs_body = ''b''\<rparr> else Inl ''timeout''),
     re_gjson = table_gjson (\<lambda>b p. JStr ''p7'')\<rparr>"

lemma CreateProject_created_witness:
  "\<exists>h2. run_state (CreateProject create_env sync_client ''c'' sync_want) [] = ((''p7'', Some ''timeout''), h2)"
  using CreateProject_created [of create_env "[]" sync_client "''c''" sync_want
      "\<lparr>rs_status = 201, rs_body = ''b''\<rparr>" "''p7''"]
  by (simp add: create_env_def table_gjson_def sync_want_def bindRequests_def sync_member_def
      MemberTypeUser_def MemberTypeGroup_def Let_def)

end
