(* ===== verification/Project_Resolver.thy ===== *)
theory Project_Resolver
  imports Rancher_Client
begin

text \<open>
  The cached view of Rancher's projects (\<open>namespace-controller/server/project_resolver.go\<close>): which
  projects a user is a member of and which project a namespace belongs to. The cache is refilled
  from Rancher on a miss and then published to the policy agent (OPA). The state holds the cache,
  the HTTP requests made so far and the number of \<open>range\<close> loops run so far.
\<close>

section \<open>Data and state\<close>

record UserProjectInfo =
  up_IsOwner :: bool
  up_ProjectID :: string
  up_ProjectName :: string

record ProjectResolverCache =
  User2projects :: "(string, UserProjectInfo list) gomap"
  Namespace2ProjectID :: "(string, string) gomap"

text \<open>The resolver's fixed part: the client, the cluster, the agent it publishes to, the loop orders.\<close>

record ProjectResolver =
  pr_client :: Client
  pr_clusterID :: string
  pr_opa :: http_service
  pr_order :: range_order

record rstate =
  st_http :: "http_req list"
  st_cache :: ProjectResolverCache
  st_loops :: nat

type_synonym 'a resolving = "(rstate, 'a) state"

definition onHttp :: "'a http \<Rightarrow> 'a resolving" where
  "onHttp m = zoom st_http (\<lambda>h s. s\<lparr>st_http := h\<rparr>) m"

definition onCache :: "(ProjectResolverCache \<Rightarrow> ProjectResolverCache) \<Rightarrow> unit resolving" where
  "onCache f = State (\<lambda>s. ((), s\<lparr>st_cache := f (st_cache s)\<rparr>))"

definition theCache :: "ProjectResolverCache resolving" where
  "theCache = State (\<lambda>s. (st_cache s, s))"

text \<open>The order in which the next \<open>range\<close> loop visits the given keys.\<close>

definition nextRange :: "range_order \<Rightarrow> string list \<Rightarrow> string list resolving" where
  "nextRange ord ks = State (\<lambda>s. (ord (st_loops s) ks, s\<lparr>st_loops := Suc (st_loops s)\<rparr>))"

lemma run_resolver_primitives [simp, io_simps]:
  "run_state (onHttp m) s = (case run_state m (st_http s) of (a, h) \<Rightarrow> (a, s\<lparr>st_http := h\<rparr>))"
  "run_state (onCache f) s = ((), s\<lparr>st_cache := f (st_cache s)\<rparr>)"
  "run_state theCache s = (st_cache s, s)"
  "run_state (nextRange ord ks) s = (ord (st_loops s) ks, s\<lparr>st_loops := Suc (st_loops s)\<rparr>)"
  by (simp_all add: onHttp_def onCache_def theCache_def nextRange_def)

text \<open>The resolution errors of \<open>ResolveError\<close>.\<close>

datatype ErrorType = NOT_MEMBER_IN_ANY_PROJECTS | MEMBER_OF_MULTIPLE_PROJECTS | PROJECT_OWNER

definition emptyCache :: ProjectResolverCache where
  "emptyCache = \<lparr>User2projects = [], Namespace2ProjectID = []\<rparr>"

definition NewProjectResolver :: "'r rancher_env \<Rightarrow> http_service \<Rightarrow> range_order \<Rightarrow> string \<Rightarrow> string
    \<Rightarrow> string \<Rightarrow> ProjectResolver \<times> ProjectResolverCache" where
  "NewProjectResolver env opa ord rancherURL clusterID token =
     (\<lparr>pr_client = NewClient env rancherURL token, pr_clusterID = clusterID,
       pr_opa = opa, pr_order = ord\<rparr>, emptyCache)"

section \<open>Filling the cache\<close>

definition ClearCache :: "range_order \<Rightarrow> unit resolving" where
  "ClearCache ord = do {
     cache \<leftarrow> theCache;
     users \<leftarrow> nextRange ord (gm_keys (User2projects cache));
     _ \<leftarrow> onCache (\<lambda>c. c\<lparr>User2projects := fold (\<lambda>k m. gm_delete m k) users (User2projects c)\<rparr>);
     nss \<leftarrow> nextRange ord (gm_keys (Namespace2ProjectID cache));
     onCache (\<lambda>c. c\<lparr>Namespace2ProjectID :=
       fold (\<lambda>k m. gm_delete m k) nss (Namespace2ProjectID c)\<rparr>)
   }"

definition infoOf :: "Entity \<Rightarrow> Member \<Rightarrow> UserProjectInfo" where
  "infoOf project member =
     \<lparr>up_IsOwner = (m_RoleTemplateID member = ''project-owner''),
      up_ProjectID = e_ID project, up_ProjectName = e_Name project\<rparr>"

definition addMember :: "Entity \<Rightarrow> Member \<Rightarrow> ProjectResolverCache \<Rightarrow> ProjectResolverCache" where
  "addMember project member cache =
     (let plist = gm_at [] (User2projects cache) (m_UserID member);
          plist' = plist @ [infoOf project member]
      in cache\<lparr>User2projects := gm_set (User2projects cache) (m_UserID member) plist'\<rparr>)"

definition addNamespace :: "Entity \<Rightarrow> string \<Rightarrow> ProjectResolverCache \<Rightarrow> ProjectResolverCache" where
  "addNamespace project namespace cache =
     cache\<lparr>Namespace2ProjectID := gm_set (Namespace2ProjectID cache) namespace (e_ID project)\<rparr>"

fun cacheProjects :: "ProjectResolver \<Rightarrow> Entity list \<Rightarrow> go_error option resolving" where
  "cacheProjects pr [] = State_Monad.return None"
| "cacheProjects pr (project # projects) = do {
     ms \<leftarrow> onHttp (cl_GetProjectMembers (pr_client pr) (e_ID project));
     case ms of
       Inl err \<Rightarrow> State_Monad.return (Some err)
     | Inr members \<Rightarrow> do {
         _ \<leftarrow> onCache (fold (addMember project) members);
         nss \<leftarrow> onHttp (cl_GetProjectNamespaces (pr_client pr) (pr_clusterID pr) (e_ID project));
         case nss of
           Inl err \<Rightarrow> State_Monad.return (Some err)
         | Inr namespaces \<Rightarrow> do {
             _ \<leftarrow> onCache (fold (addNamespace project) namespaces);
             cacheProjects pr projects
           }
       }
   }"

definition infoJson :: "UserProjectInfo \<Rightarrow> jval" where
  "infoJson u = JObj [(''isowner'', JBool (up_IsOwner u)), (''projectid'', JStr (up_ProjectID u)),
     (''projectname'', JStr (up_ProjectName u))]"

definition cacheJson :: "ProjectResolverCache \<Rightarrow> jval" where
  "cacheJson c =
     JObj [(''user2projects'', map_to_json (\<lambda>us. JArr (map infoJson us)) (User2projects c)),
           (''namespace2projectid'', map_to_json JStr (Namespace2ProjectID c))]"

definition opaRequest :: "ProjectResolverCache \<Rightarrow> http_req" where
  "opaRequest c =
     \<lparr>rq_method = PUT, rq_url = ''https://opa.opa/v1/data/rancher'', rq_token = None,
      rq_contentType = Some ''application/json; charset=utf-8'', rq_body = Bytes (Marshal (cacheJson c))\<rparr>"

definition UpdateCache :: "ProjectResolver \<Rightarrow> (go_error option) outcome resolving" where
  "UpdateCache pr = do {
     es \<leftarrow> onHttp (cl_GetProjects (pr_client pr) (pr_clusterID pr));
     case es of
       Inl err \<Rightarrow> State_Monad.return (Ret (Some err))
     | Inr entities \<Rightarrow> do {
         _ \<leftarrow> ClearCache (pr_order pr);
         failed \<leftarrow> cacheProjects pr entities;
         case failed of
           Some err \<Rightarrow> State_Monad.return (Ret (Some err))
         | None \<Rightarrow> do {
             cache \<leftarrow> theCache;
             resp \<leftarrow> onHttp (call (pr_opa pr) (opaRequest cache));
             State_Monad.return (case resp of Inl err \<Rightarrow> Panic err | Inr r \<Rightarrow> Ret None)
           }
       }
   }"

section \<open>Queries\<close>

definition ResolveProjectsByUser :: "ProjectResolver \<Rightarrow> string
    \<Rightarrow> (UserProjectInfo list \<times> go_error option) outcome resolving" where
  "ResolveProjectsByUser pr userID = do {
     cache \<leftarrow> theCache;
     let plist = gm_at [] (User2projects cache) userID;
     if length plist > 0 then State_Monad.return (Ret (plist, None))
     else do {
       res \<leftarrow> UpdateCache pr;
       case res of
         Panic m \<Rightarrow> State_Monad.return (Panic m)
       | Ret (Some err) \<Rightarrow> State_Monad.return (Ret ([], Some err))
       | Ret None \<Rightarrow> do {
           cache' \<leftarrow> theCache;
           let plist' = gm_at [] (User2projects cache') userID;
           if length plist' > 0 then State_Monad.return (Ret (plist', None))
           else State_Monad.return (Ret ([], None))
         }
     }
   }"

definition ResolveProjectIdbyNamespace :: "ProjectResolver \<Rightarrow> string
    \<Rightarrow> (string \<times> bool \<times> go_error option) outcome resolving" where
  "ResolveProjectIdbyNamespace pr namespace = do {
     cache \<leftarrow> theCache;
     let projectID = gm_at '''' (Namespace2ProjectID cache) namespace;
     if projectID = '''' then do {
       res \<leftarrow> UpdateCache pr;
       case res of
         Panic m \<Rightarrow> State_Monad.return (Panic m)
       | Ret (Some err) \<Rightarrow> State_Monad.return (Ret ('''', False, Some err))
       | Ret None \<Rightarrow> do {
           cache' \<leftarrow> theCache;
           State_Monad.return (Ret (gm_at '''' (Namespace2ProjectID cache') namespace, False, None))
         }
     }
     else State_Monad.return (Ret (projectID, True, None))
   }"

definition notFound :: go_error where
  "notFound = ''projectID not found''"

text \<open>The search: users in the order of the loop, the projects of each in order.\<close>

fun findOwner :: "UserProjectInfo list \<Rightarrow> string \<Rightarrow> bool option" where
  "findOwner [] projectID = None"
| "findOwner (project # plist) projectID =
     (if up_ProjectID project = projectID then Some (up_IsOwner project)
      else findOwner plist projectID)"

fun searchUsers :: "(string, UserProjectInfo list) gomap \<Rightarrow> string list \<Rightarrow> string
    \<Rightarrow> string \<times> bool \<times> go_error option" where
  "searchUsers m [] projectID = ('''', False, Some notFound)"
| "searchUsers m (userId # users) projectID =
     (case findOwner (gm_at [] m userId) projectID of
        Some isOwner \<Rightarrow> (userId, isOwner, None)
      | None \<Rightarrow> searchUsers m users projectID)"

definition findUserByProject :: "ProjectResolver \<Rightarrow> string
    \<Rightarrow> (string \<times> bool \<times> go_error option) resolving" where
  "findUserByProject pr projectID = do {
     cache \<leftarrow> theCache;
     users \<leftarrow> nextRange (pr_order pr) (gm_keys (User2projects cache));
     State_Monad.return (searchUsers (User2projects cache) users projectID)
   }"

definition FindUserByProject :: "ProjectResolver \<Rightarrow> string
    \<Rightarrow> (string \<times> bool \<times> go_error option) outcome resolving" where
  "FindUserByProject pr projectID = do {
     found \<leftarrow> findUserByProject pr projectID;
     case found of
       (userId, isOwner, None) \<Rightarrow> State_Monad.return (Ret (userId, isOwner, None))
     | (_, _, Some _) \<Rightarrow> do {
         res \<leftarrow> UpdateCache pr;
         case res of
           Panic m \<Rightarrow> State_Monad.return (Panic m)
         | Ret (Some err) \<Rightarrow> State_Monad.return (Ret ('''', False, Some err))
         | Ret None \<Rightarrow> do {
             again \<leftarrow> findUserByProject pr projectID;
             cache \<leftarrow> theCache;
             let userId = fst again;
             let plist = gm_at [] (User2projects cache) userId;
             State_Monad.return (Ret
               (if length plist > 1 then (userId, False, None)
                else if length plist = 1 then (userId, up_IsOwner (plist ! 0), None)
                else ('''', False, Some notFound)))
           }
       }
   }"

text \<open>\<open>projectIDs\<close> is declared and never assigned.\<close>

definition ResolveProjectIDFromRancher :: "string \<Rightarrow> ErrorType + string" where
  "ResolveProjectIDFromRancher userID =
     (let projectIDs = [] :: string list
      in if length projectIDs = 0 then Inl NOT_MEMBER_IN_ANY_PROJECTS
         else if length projectIDs > 1 then Inl MEMBER_OF_MULTIPLE_PROJECTS
         else Inr (projectIDs ! 0))"

section \<open>What a refresh computes\<close>

text \<open>
  Fetching, separated from recording: the listings of the projects up to the first failure, the
  project whose members were read but whose namespaces failed, the error, and the history.
\<close>

type_synonym listing = "Entity \<times> Member list \<times> string list"

fun fetchAll :: "ProjectResolver \<Rightarrow> Entity list \<Rightarrow> http_req list
    \<Rightarrow> listing list \<times> (Entity \<times> Member list) option \<times> go_error option \<times> http_req list" where
  "fetchAll pr [] h = ([], None, None, h)"
| "fetchAll pr (p # ps) h =
     (case run_state (cl_GetProjectMembers (pr_client pr) (e_ID p)) h of
        (Inl e, h1) \<Rightarrow> ([], None, Some e, h1)
      | (Inr ms, h1) \<Rightarrow>
          (case run_state (cl_GetProjectNamespaces (pr_client pr) (pr_clusterID pr) (e_ID p)) h1 of
             (Inl e, h2) \<Rightarrow> ([], Some (p, ms), Some e, h2)
           | (Inr ns, h2) \<Rightarrow>
               (case fetchAll pr ps h2 of (ds, part, err, h3) \<Rightarrow> ((p, ms, ns) # ds, part, err, h3))))"

definition recordListing :: "listing \<Rightarrow> ProjectResolverCache \<Rightarrow> ProjectResolverCache" where
  "recordListing d c =
     (case d of (p, ms, ns) \<Rightarrow> fold (addNamespace p) ns (fold (addMember p) ms c))"

definition recordPart :: "(Entity \<times> Member list) option \<Rightarrow> ProjectResolverCache \<Rightarrow> ProjectResolverCache" where
  "recordPart part c = (case part of None \<Rightarrow> c | Some (p, ms) \<Rightarrow> fold (addMember p) ms c)"

definition cacheOf :: "listing list \<Rightarrow> (Entity \<times> Member list) option \<Rightarrow> ProjectResolverCache" where
  "cacheOf ds part = recordPart part (fold recordListing ds emptyCache)"

text \<open>The abstract content: a user's projects in listing order, a namespace's last project.\<close>

definition membershipsIn :: "string \<Rightarrow> Entity \<times> Member list \<Rightarrow> UserProjectInfo list" where
  "membershipsIn u d = (case d of (p, ms) \<Rightarrow> map (infoOf p) (filter (\<lambda>m. m_UserID m = u) ms))"

definition projectsOfUser :: "listing list \<Rightarrow> string \<Rightarrow> UserProjectInfo list" where
  "projectsOfUser ds u = concat (map (\<lambda>(p, ms, ns). membershipsIn u (p, ms)) ds)"

definition projectOfNamespace :: "listing list \<Rightarrow> string \<Rightarrow> string option" where
  "projectOfNamespace ds n =
     (case filter (\<lambda>(p, ms, ns). n \<in> set ns) (rev ds) of [] \<Rightarrow> None | (p, ms, ns) # _ \<Rightarrow> Some (e_ID p))"

subsection \<open>Recording\<close>

lemma addMembers_users:
  "gm_at [] (User2projects (fold (addMember p) ms c)) u
     = gm_at [] (User2projects c) u @ membershipsIn u (p, ms)"
  by (induction ms arbitrary: c) (auto simp: addMember_def Let_def membershipsIn_def)

lemma addMembers_namespaces [simp]:
  "Namespace2ProjectID (fold (addMember p) ms c) = Namespace2ProjectID c"
  by (induction ms arbitrary: c) (auto simp: addMember_def Let_def)

lemma addNamespaces_users [simp]:
  "User2projects (fold (addNamespace p) ns c) = User2projects c"
  by (induction ns arbitrary: c) (auto simp: addNamespace_def)

lemma addNamespaces_fold:
  "Namespace2ProjectID (fold (addNamespace p) ns c)
     = fold (\<lambda>(k, v) m. gm_set m k v) (map (\<lambda>n. (n, e_ID p)) ns) (Namespace2ProjectID c)"
  by (induction ns arbitrary: c) (auto simp: addNamespace_def)

lemma addNamespaces_lookup:
  "map_of (Namespace2ProjectID (fold (addNamespace p) ns c)) n
     = (if n \<in> set ns then Some (e_ID p) else map_of (Namespace2ProjectID c) n)"
  by (induction ns arbitrary: c) (auto simp: addNamespace_def)

lemma recordListing_eq: "recordListing (p, ms, ns) c = fold (addNamespace p) ns (fold (addMember p) ms c)"
  by (simp add: recordListing_def)

lemma recordPart_eqs [simp]:
  "recordPart None c = c" "recordPart (Some (p, ms)) c = fold (addMember p) ms c"
  by (simp_all add: recordPart_def)

lemma recordListing_users:
  "gm_at [] (User2projects (recordListing (p, ms, ns) c)) u
     = gm_at [] (User2projects c) u @ membershipsIn u (p, ms)"
  by (simp add: recordListing_def addMembers_users)

lemma record_users:
  "gm_at [] (User2projects (fold recordListing ds c)) u
     = gm_at [] (User2projects c) u @ projectsOfUser ds u"
  by (induction ds arbitrary: c) (auto simp: recordListing_users projectsOfUser_def)

lemma record_namespaces:
  "map_of (Namespace2ProjectID (fold recordListing ds c)) n
     = (case projectOfNamespace ds n of None \<Rightarrow> map_of (Namespace2ProjectID c) n | Some p \<Rightarrow> Some p)"
proof (induction ds arbitrary: c rule: rev_induct)
  case Nil
  then show ?case by (simp add: projectOfNamespace_def)
next
  case (snoc d ds)
  then show ?case
    by (cases d) (simp add: recordListing_def addNamespaces_lookup projectOfNamespace_def)
qed

lemma cacheOf_users:
  "gm_at [] (User2projects (cacheOf ds part)) u
     = projectsOfUser ds u @ (case part of None \<Rightarrow> [] | Some d \<Rightarrow> membershipsIn u d)"
  by (auto simp: cacheOf_def recordPart_def record_users emptyCache_def addMembers_users split: option.split)

lemma cacheOf_namespaces:
  "map_of (Namespace2ProjectID (cacheOf ds part)) n = projectOfNamespace ds n"
  by (auto simp: cacheOf_def recordPart_def record_namespaces emptyCache_def split: option.split)

subsection \<open>The refresh\<close>

lemma run_cacheProjects:
  "run_state (cacheProjects pr ps) s =
     (case fetchAll pr ps (st_http s) of (ds, part, err, h) \<Rightarrow>
        (err, s\<lparr>st_http := h, st_cache := recordPart part (fold recordListing ds (st_cache s))\<rparr>))"
proof (induction ps arbitrary: s)
  case Nil
  then show ?case by simp
next
  case (Cons p ps)
  show ?case
    by (simp add: Cons.IH recordListing_eq split: prod.split sum.split)
qed

lemma delete_all_keys: "set ks = set (gm_keys m) \<Longrightarrow> fold (\<lambda>k m. gm_delete m k) ks m = []"
proof -
  assume ks: "set ks = set (gm_keys m)"
  have "map_of (fold (\<lambda>k m. gm_delete m k) ks m) = (map_of m) |` (- set ks)"
    by (induction ks arbitrary: m) (auto simp: restrict_map_def fun_eq_iff)
  also have "\<dots> = Map.empty"
    using ks by (auto simp: restrict_map_def fun_eq_iff gm_keys_map_of)
  finally show ?thesis by (simp add: map_of_eq_empty_iff)
qed

lemma run_ClearCache:
  "is_order ord \<Longrightarrow> run_state (ClearCache ord) s
     = ((), s\<lparr>st_cache := emptyCache, st_loops := Suc (Suc (st_loops s))\<rparr>)"
  by (simp add: ClearCache_def delete_all_keys emptyCache_def)

lemma run_UpdateCache:
  assumes "is_order (pr_order pr)"
  shows "run_state (UpdateCache pr) s =
    (case run_state (cl_GetProjects (pr_client pr) (pr_clusterID pr)) (st_http s) of
       (Inl e, h) \<Rightarrow> (Ret (Some e), s\<lparr>st_http := h\<rparr>)
     | (Inr es, h) \<Rightarrow>
         (case fetchAll pr es h of (ds, part, err, h') \<Rightarrow>
            (case err of
               Some e \<Rightarrow> (Ret (Some e),
                 s\<lparr>st_http := h', st_cache := cacheOf ds part, st_loops := Suc (Suc (st_loops s))\<rparr>)
             | None \<Rightarrow>
                 (case pr_opa pr h' (opaRequest (cacheOf ds part)) of
                    Inl e \<Rightarrow> Panic e | Inr r \<Rightarrow> Ret None,
                  s\<lparr>st_http := h' @ [opaRequest (cacheOf ds part)], st_cache := cacheOf ds part,
                    st_loops := Suc (Suc (st_loops s))\<rparr>))))"
  using assms
  by (simp add: UpdateCache_def run_ClearCache run_cacheProjects cacheOf_def
      split: prod.split sum.split option.split)

lemma fetchAll_listed: "fetchAll pr ps h = (ds, part, None, h') \<Longrightarrow> map fst ds = ps \<and> part = None"
  by (induction pr ps h arbitrary: ds h' rule: fetchAll.induct)
    (auto split: prod.splits sum.splits)

lemma fetchAll_prefix:
  "fetchAll pr ps h = (ds, part, Some e, h') \<Longrightarrow>
   \<exists>p qs. ps = map fst ds @ p # qs \<and> (part = None \<or> (\<exists>ms. part = Some (p, ms)))"
proof (induction pr ps h arbitrary: ds h' rule: fetchAll.induct)
  case (1 pr h)
  then show ?case by simp
next
  case (2 pr p ps h)
  then show ?case
    by (fastforce split: prod.splits sum.splits)
qed

section \<open>Invariants of the cache and of the requests\<close>

definition namedInfo :: "UserProjectInfo \<Rightarrow> bool" where
  "namedInfo i \<longleftrightarrow> up_ProjectID i \<noteq> '''' \<and> up_ProjectName i \<noteq> ''''"

definition cacheOk :: "ProjectResolverCache \<Rightarrow> bool" where
  "cacheOk c \<longleftrightarrow> gm_ok (User2projects c) \<and> gm_ok (Namespace2ProjectID c)
     \<and> (\<forall>u. list_all namedInfo (gm_at [] (User2projects c) u))
     \<and> (\<forall>u. map_of (User2projects c) u \<noteq> Some [])
     \<and> (\<forall>n. map_of (Namespace2ProjectID c) n \<noteq> Some '''')"

text \<open>A request the resolver may make: an authorised read of Rancher, or a tokenless PUT to the agent.\<close>

definition allowedReq :: "string \<Rightarrow> string \<Rightarrow> http_req \<Rightarrow> bool" where
  "allowedReq server tok q \<longleftrightarrow> reading server tok q
     \<or> (rq_method q = PUT \<and> rq_url q = ''https://opa.opa/v1/data/rancher'' \<and> rq_token q = None)"

definition stateOk :: "string \<Rightarrow> string \<Rightarrow> rstate \<Rightarrow> bool" where
  "stateOk server tok s \<longleftrightarrow> cacheOk (st_cache s) \<and> list_all (allowedReq server tok) (st_http s)"

definition namedEntity :: "Entity \<Rightarrow> bool" where
  "namedEntity e \<longleftrightarrow> e_ID e \<noteq> '''' \<and> e_Name e \<noteq> ''''"

lemma cacheOk_named: "cacheOk c \<Longrightarrow> list_all namedInfo (gm_at [] (User2projects c) u)"
  by (simp add: cacheOk_def)

lemma cacheOk_empty [simp]: "cacheOk emptyCache"
  by (simp add: cacheOk_def emptyCache_def)

lemma cacheOk_addMember: "namedEntity p \<Longrightarrow> cacheOk c \<Longrightarrow> cacheOk (addMember p m c)"
  by (auto simp: cacheOk_def addMember_def Let_def namedInfo_def infoOf_def namedEntity_def)

lemma cacheOk_addNamespace: "namedEntity p \<Longrightarrow> cacheOk c \<Longrightarrow> cacheOk (addNamespace p n c)"
  by (auto simp: cacheOk_def addNamespace_def namedEntity_def)

lemma cacheOk_addMembers: "namedEntity p \<Longrightarrow> cacheOk c \<Longrightarrow> cacheOk (fold (addMember p) ms c)"
  by (induction ms arbitrary: c) (auto intro: cacheOk_addMember)

lemma cacheOk_addNamespaces: "namedEntity p \<Longrightarrow> cacheOk c \<Longrightarrow> cacheOk (fold (addNamespace p) ns c)"
  by (induction ns arbitrary: c) (auto intro: cacheOk_addNamespace)

lemma cacheOk_recordListing: "namedEntity (fst d) \<Longrightarrow> cacheOk c \<Longrightarrow> cacheOk (recordListing d c)"
  by (cases d) (simp add: recordListing_eq cacheOk_addMembers cacheOk_addNamespaces)

lemma cacheOk_record:
  "list_all namedEntity (map fst ds) \<Longrightarrow> cacheOk c \<Longrightarrow> cacheOk (fold recordListing ds c)"
  by (induction ds arbitrary: c) (simp_all add: cacheOk_recordListing)

lemma cacheOk_cacheOf:
  assumes "list_all namedEntity (map fst ds)" and "\<And>p ms. part = Some (p, ms) \<Longrightarrow> namedEntity p"
  shows "cacheOk (cacheOf ds part)"
  using assms by (cases part) (auto simp: cacheOf_def intro!: cacheOk_record cacheOk_addMembers)

lemma cacheOk_fetchAll:
  assumes "list_all namedEntity ps" and "fetchAll pr ps h = (ds, part, err, h')"
  shows "cacheOk (cacheOf ds part)"
proof (cases err)
  case None
  then show ?thesis using assms by (auto dest!: fetchAll_listed intro: cacheOk_cacheOf)
next
  case (Some e)
  with assms fetchAll_prefix [of pr ps h ds part e h'] show ?thesis
    by (auto intro!: cacheOk_cacheOf)
qed

lemma allowed_opa [simp]: "allowedReq server tok (opaRequest c)"
  by (simp add: allowedReq_def opaRequest_def)

context project_source
begin

lemma fetchAll_requests:
  assumes "pr_client pr = cl" and "fetchAll pr ps h = (ds, part, err, h')"
  shows "\<exists>t. h' = h @ t \<and> list_all (reading server tok) t \<and>
    length t = 2 * length ds + (case err of None \<Rightarrow> 0 | Some e \<Rightarrow> if part = None then 1 else 2)"
  using assms(2)
proof (induction ps arbitrary: h ds)
  case Nil
  then show ?case by simp
next
  case (Cons p ps)
  obtain q1 where q1: "reading server tok q1" "snd (run_state (cl_GetProjectMembers cl (e_ID p)) h) = h @ [q1]"
    using members_one by (rule one_requestE)
  obtain q2 where q2: "reading server tok q2"
      "snd (run_state (cl_GetProjectNamespaces cl (pr_clusterID pr) (e_ID p)) (h @ [q1])) = (h @ [q1]) @ [q2]"
    using namespaces_one by (rule one_requestE)
  obtain a1 where r1: "run_state (cl_GetProjectMembers cl (e_ID p)) h = (a1, h @ [q1])"
    using q1(2) by (metis prod.collapse)
  obtain a2 where r2: "run_state (cl_GetProjectNamespaces cl (pr_clusterID pr) (e_ID p)) (h @ [q1])
      = (a2, h @ [q1, q2])"
    using q2(2) by (metis append.assoc append_Cons append_Nil prod.collapse)
  show ?case
  proof (cases "isl a1 \<or> isl a2")
    case True
    with Cons.prems q1(1) q2(1) r1 r2 assms(1) show ?thesis
      by (auto simp: isl_def split: sum.splits prod.splits)
  next
    case False
    then obtain ms ns where ok: "a1 = Inr ms" "a2 = Inr ns" by (auto simp: isl_def split: sum.splits) (metis isl_def sum.exhaust_sel)
    obtain ds' part' err' h3 where rest: "fetchAll pr ps (h @ [q1, q2]) = (ds', part', err', h3)"
      by (cases "fetchAll pr ps (h @ [q1, q2])")
    with Cons.prems r1 r2 ok assms(1) have
      eq: "ds = (p, ms, ns) # ds'" "part = part'" "err = err'" "h' = h3"
      by auto
    with rest Cons.IH [of "h @ [q1, q2]" ds'] q1(1) q2(1) show ?thesis
      by (auto simp: algebra_simps)
  qed
qed

lemma UpdateCache_ok:
  assumes pr: "pr_client pr = cl" "is_order (pr_order pr)"
    and ok: "stateOk server tok s" and run: "run_state (UpdateCache pr) s = (r, s')"
  shows "stateOk server tok s'"
proof -
  obtain q where q: "reading server tok q"
      "snd (run_state (cl_GetProjects cl (pr_clusterID pr)) (st_http s)) = st_http s @ [q]"
    using projects_one by (rule one_requestE)
  then obtain a where a: "run_state (cl_GetProjects cl (pr_clusterID pr)) (st_http s) = (a, st_http s @ [q])"
    by (metis prod.collapse)
  show ?thesis
  proof (cases a)
    case (Inl e)
    with a run pr ok q(1) show ?thesis
      by (auto simp: run_UpdateCache stateOk_def allowedReq_def)
  next
    case (Inr es)
    have named: "list_all namedEntity es"
      using projects_named [of "pr_clusterID pr" "st_http s" es] a Inr
      by (auto simp: list_all_iff namedEntity_def)
    obtain ds part err h' where f: "fetchAll pr es (st_http s @ [q]) = (ds, part, err, h')"
      by (cases "fetchAll pr es (st_http s @ [q])")
    from cacheOk_fetchAll [OF named f] have cache: "cacheOk (cacheOf ds part)" .
    from fetchAll_requests [OF pr(1) f] obtain t where
      "h' = (st_http s @ [q]) @ t" "list_all (reading server tok) t" by blast
    with ok q(1) have "list_all (allowedReq server tok) h'"
      by (auto simp: stateOk_def allowedReq_def list_all_iff)
    with cache run a Inr f pr show ?thesis
      by (auto simp: run_UpdateCache stateOk_def split: option.splits)
  qed
qed

lemma queries_ok:
  assumes pr: "pr_client pr = cl" "is_order (pr_order pr)" and ok: "stateOk server tok s"
  shows "stateOk server tok (snd (run_state (ResolveProjectsByUser pr u) s))"
    and "stateOk server tok (snd (run_state (ResolveProjectIdbyNamespace pr n) s))"
    and "stateOk server tok (snd (run_state (FindUserByProject pr p) s))"
proof -
  have upd: "stateOk server tok s'" if "run_state (UpdateCache pr) t = (r, s')" "stateOk server tok t" for t r s'
    using UpdateCache_ok [OF pr that(2,1)] .
  have loops: "stateOk server tok (t\<lparr>st_loops := k\<rparr>) = stateOk server tok t" for t k
    by (simp add: stateOk_def)
  show "stateOk server tok (snd (run_state (ResolveProjectsByUser pr u) s))"
    using ok by (auto simp: ResolveProjectsByUser_def Let_def split: prod.split outcome.split option.split
        dest: upd)
  show "stateOk server tok (snd (run_state (ResolveProjectIdbyNamespace pr n) s))"
    using ok by (auto simp: ResolveProjectIdbyNamespace_def Let_def
        split: prod.split outcome.split option.split dest: upd)
  show "stateOk server tok (snd (run_state (FindUserByProject pr p) s))"
    using ok by (auto simp: FindUserByProject_def findUserByProject_def Let_def loops
        split: prod.split outcome.split option.split dest: upd)
qed

end

section \<open>Runs of the resolver\<close>

text \<open>The states a resolver reaches by any sequence of queries, each from the state the last one left.\<close>

inductive reaches :: "ProjectResolver \<Rightarrow> rstate \<Rightarrow> bool" for pr where
  start: "reaches pr \<lparr>st_http = [], st_cache = emptyCache, st_loops = 0\<rparr>"
| by_user: "reaches pr s \<Longrightarrow> reaches pr (snd (run_state (ResolveProjectsByUser pr u) s))"
| by_namespace: "reaches pr s \<Longrightarrow> reaches pr (snd (run_state (ResolveProjectIdbyNamespace pr n) s))"
| by_project: "reaches pr s \<Longrightarrow> reaches pr (snd (run_state (FindUserByProject pr p) s))"

lemma NewProjectResolver_sel [simp]:
  "pr_client (fst (NewProjectResolver env opa ord url cid tok)) = NewClient env url tok"
  "pr_clusterID (fst (NewProjectResolver env opa ord url cid tok)) = cid"
  "pr_opa (fst (NewProjectResolver env opa ord url cid tok)) = opa"
  "pr_order (fst (NewProjectResolver env opa ord url cid tok)) = ord"
  by (simp_all add: NewProjectResolver_def)

lemma reaches_ok:
  assumes "reaches (fst (NewProjectResolver env opa ord url cid tok)) s" and "is_order ord"
  shows "stateOk url tok s"
  using assms(1)
proof (induction rule: reaches.induct)
  case start
  show ?case by (simp add: stateOk_def)
qed (use assms(2) in \<open>auto intro!: rc.queries_ok\<close>)

subsection \<open>A small installation\<close>

text \<open>
  A Rancher with two projects: \<open>u1\<close> is a member of the first and an owner of the second, \<open>u2\<close> is a
  member of the second; a group binding has no user. It serves as the concrete input of the
  witnesses.
\<close>

definition demo_obj :: "(string \<times> string) list \<Rightarrow> jval" where
  "demo_obj kvs = JObj (map (\<lambda>(k, v). (k, JStr v)) kvs)"

definition demo_member :: "string \<Rightarrow> string \<Rightarrow> jval" where
  "demo_member u r = demo_obj [(''userId'', u), (''userPrincipalId'', u), (''roleTemplateId'', r)]"

definition demo_table :: "string \<Rightarrow> string \<Rightarrow> jval" where
  "demo_table body path =
     (if body = ''projects'' then
        JArr [demo_obj [(''id'', ''p1''), (''name'', ''alice'')], demo_obj [(''id'', ''p2''), (''name'', ''team'')]]
      else if body = ''m1'' then JArr [demo_member ''u1'' ''project-member'']
      else if body = ''m2'' then JArr [demo_member ''u1'' ''project-owner'', demo_member ''u2'' ''project-member'']
      else if body = ''m2g'' then JArr [demo_member '''' ''project-owner'']
      else if body = ''n1'' then JArr [JStr ''alice-a'']
      else if body = ''n2'' then JArr [JStr ''team-a'']
      else JNull)"

definition demo_url :: "(string \<times> string) list" where
  "demo_url =
     [(''s/v3/cluster/c/projects'', ''projects''),
      (''s/v3/projects/p1/projectroletemplatebindings'', ''m1''),
      (''s/v3/projects/p2/projectroletemplatebindings'', ''m2''),
      (''s/v3/cluster/c/namespaces?projectId=p1'', ''n1''),
      (''s/v3/cluster/c/namespaces?projectId=p2'', ''n2'')]"

definition demo_http :: "(string \<times> string) list \<Rightarrow> http_service" where
  "demo_http urls h q =
     (case map_of urls (rq_url q) of
        None \<Rightarrow> Inl ''connection refused''
      | Some b \<Rightarrow> Inr \<lparr>rs_status = 200, rs_body = b\<rparr>)"

definition demo_env :: "(string \<times> string) list \<Rightarrow> jval rancher_env" where
  "demo_env urls = \<lparr>re_http = demo_http urls, re_gjson = table_gjson demo_table\<rparr>"

definition demo_opa :: http_service where
  "demo_opa h q = Inr \<lparr>rs_status = 204, rs_body = []\<rparr>"

definition demo_pr :: "(string \<times> string) list \<Rightarrow> range_order \<Rightarrow> ProjectResolver" where
  "demo_pr urls ord = fst (NewProjectResolver (demo_env urls) demo_opa ord ''s'' ''c'' ''t'')"

definition demo_start :: rstate where
  "demo_start = \<lparr>st_http = [], st_cache = emptyCache, st_loops = 0\<rparr>"

definition demo_cache :: ProjectResolverCache where
  "demo_cache =
     \<lparr>User2projects =
        [(''u1'', [\<lparr>up_IsOwner = False, up_ProjectID = ''p1'', up_ProjectName = ''alice''\<rparr>,
                   \<lparr>up_IsOwner = True, up_ProjectID = ''p2'', up_ProjectName = ''team''\<rparr>]),
         (''u2'', [\<lparr>up_IsOwner = False, up_ProjectID = ''p2'', up_ProjectName = ''team''\<rparr>])],
      Namespace2ProjectID = [(''alice-a'', ''p1''), (''team-a'', ''p2'')]\<rparr>"

text \<open>The same Rancher when the bindings of the second project cannot be read.\<close>

definition demo_url_broken :: "(string \<times> string) list" where
  "demo_url_broken = filter (\<lambda>(u, b). b \<noteq> ''m2'') demo_url"

definition demo_url_group :: "(string \<times> string) list" where
  "demo_url_group = (''s/v3/projects/p2/projectroletemplatebindings'', ''m2g'') # demo_url"

lemmas demo_defs = demo_obj_def demo_member_def demo_table_def demo_url_def demo_url_broken_def
  demo_url_group_def demo_http_def demo_env_def demo_opa_def demo_pr_def demo_start_def
  table_gjson_def parseEntities_def parseValues_def memberOf_def emptyCache_def
  MemberTypeUser_def MemberTypeGroup_def

lemmas demo_eval = run_UpdateCache demo_defs reader_defs cacheOf_def recordListing_eq addMember_def
  addNamespace_def infoOf_def gm_set_def gm_at_def request_def Let_def

definition demo_gets :: "string list \<Rightarrow> http_req list" where
  "demo_gets paths = map (\<lambda>p. request \<lparr>c_serverURL = ''s'', c_token = ''t''\<rparr> GET p NoBody) paths"

definition demo_after :: rstate where
  "demo_after =
     \<lparr>st_http = demo_gets [''/v3/cluster/c/projects'', ''/v3/projects/p1/projectroletemplatebindings'',
        ''/v3/cluster/c/namespaces?projectId=p1'', ''/v3/projects/p2/projectroletemplatebindings'',
        ''/v3/cluster/c/namespaces?projectId=p2''] @ [opaRequest demo_cache],
      st_cache = demo_cache, st_loops = 2\<rparr>"

lemma demo_start_cache [simp]:
  "st_cache demo_start = emptyCache" "gm_at z (User2projects emptyCache) u = z"
  by (simp_all add: demo_start_def emptyCache_def)

lemma demo_refresh:
  "is_order ord \<Longrightarrow> run_state (UpdateCache (demo_pr demo_url ord)) demo_start = (Ret None, demo_after)"
  by (simp add: demo_eval demo_after_def demo_gets_def demo_cache_def)

section \<open>Properties of the resolver\<close>

text \<open>
  C23: A refresh that succeeds computes exactly Rancher's membership relation: every user's list is
  the user's memberships in listing order, every namespace maps to the last listed project that
  contains it, nothing of the old cache survives, and the cache as stored is what is sent to the
  policy agent, as the last request.
\<close>

theorem UpdateCache_contents:
  assumes "is_order (pr_order pr)" and "run_state (UpdateCache pr) s = (Ret None, s')"
  shows "\<exists>es h ds h'.
     run_state (cl_GetProjects (pr_client pr) (pr_clusterID pr)) (st_http s) = (Inr es, h) \<and>
     fetchAll pr es h = (ds, None, None, h') \<and> map fst ds = es \<and>
     (\<forall>u. gm_at [] (User2projects (st_cache s')) u = projectsOfUser ds u) \<and>
     (\<forall>n. map_of (Namespace2ProjectID (st_cache s')) n = projectOfNamespace ds n) \<and>
     st_http s' = h' @ [opaRequest (st_cache s')]"
  using assms(2)
  by (auto simp: run_UpdateCache [OF assms(1)] cacheOf_users cacheOf_namespaces dest!: fetchAll_listed
      split: prod.splits sum.splits option.splits)

theorem UpdateCache_contents_witness:
  "\<exists>es h ds h'.
     run_state (cl_GetProjects (pr_client (demo_pr demo_url reverse_order)) ''c'') [] = (Inr es, h) \<and>
     fetchAll (demo_pr demo_url reverse_order) es h = (ds, None, None, h') \<and> map fst ds = es \<and>
     (\<forall>u. gm_at [] (User2projects demo_cache) u = projectsOfUser ds u) \<and>
     (\<forall>n. map_of (Namespace2ProjectID demo_cache) n = projectOfNamespace ds n) \<and>
     st_http demo_after = h' @ [opaRequest demo_cache]"
  using UpdateCache_contents [OF _ demo_refresh [of reverse_order]]
  by (simp add: demo_start_def demo_after_def demo_pr_def)

text \<open>
  C27: A refresh that fails part way leaves the cache filled with the projects read so far, and the
  cache then answers for a user who is in one of them without asking Rancher again: the user's
  memberships in the remaining projects are silently missing.
\<close>

theorem partial_refresh_is_served:
  assumes "is_order (pr_order pr)"
    and "run_state (cl_GetProjects (pr_client pr) (pr_clusterID pr)) (st_http s) = (Inr es, h)"
    and "fetchAll pr es h = (ds, part, Some e, h')" and "projectsOfUser ds u \<noteq> []"
  shows "\<exists>s' p qs. run_state (UpdateCache pr) s = (Ret (Some e), s') \<and> es = map fst ds @ p # qs \<and>
     run_state (ResolveProjectsByUser pr u) s' =
       (Ret (projectsOfUser ds u @ (case part of None \<Rightarrow> [] | Some d \<Rightarrow> membershipsIn u d), None), s')"
proof -
  let ?s' = "s\<lparr>st_http := h', st_cache := cacheOf ds part, st_loops := Suc (Suc (st_loops s))\<rparr>"
  have "run_state (UpdateCache pr) s = (Ret (Some e), ?s')"
    using assms by (simp add: run_UpdateCache)
  moreover have "run_state (ResolveProjectsByUser pr u) ?s' =
      (Ret (projectsOfUser ds u @ (case part of None \<Rightarrow> [] | Some d \<Rightarrow> membershipsIn u d), None), ?s')"
    using assms(4) by (simp add: ResolveProjectsByUser_def cacheOf_users)
  ultimately show ?thesis
    using fetchAll_prefix [OF assms(3)] by blast
qed

theorem partial_refresh_is_served_witness:
  "\<exists>s' p qs. run_state (UpdateCache (demo_pr demo_url_broken stored_order)) demo_start
       = (Ret (Some ''connection refused''), s') \<and>
     [\<lparr>e_ID = ''p1'', e_Name = ''alice''\<rparr>, \<lparr>e_ID = ''p2'', e_Name = ''team''\<rparr>]
       = [\<lparr>e_ID = ''p1'', e_Name = ''alice''\<rparr>] @ p # qs \<and>
     run_state (ResolveProjectsByUser (demo_pr demo_url_broken stored_order) ''u1'') s' =
       (Ret ([\<lparr>up_IsOwner = False, up_ProjectID = ''p1'', up_ProjectName = ''alice''\<rparr>], None), s')"
proof -
  let ?pr = "demo_pr demo_url_broken stored_order"
  let ?es = "[\<lparr>e_ID = ''p1'', e_Name = ''alice''\<rparr>, \<lparr>e_ID = ''p2'', e_Name = ''team''\<rparr>]"
  let ?m = "\<lparr>m_ID = [], m_UserID = ''u1'', m_ProjectID = [], m_Type = ''User'',
     m_PrincipalID = ''u1'', m_RoleTemplateID = ''project-member''\<rparr>"
  have es: "run_state (cl_GetProjects (pr_client ?pr) (pr_clusterID ?pr)) (st_http demo_start)
      = (Inr ?es, demo_gets [''/v3/cluster/c/projects''])"
    by (simp add: demo_eval demo_gets_def)
  have fetched: "fetchAll ?pr ?es (demo_gets [''/v3/cluster/c/projects'']) =
      ([(\<lparr>e_ID = ''p1'', e_Name = ''alice''\<rparr>, [?m], [''alice-a''])], None, Some ''connection refused'',
       demo_gets [''/v3/cluster/c/projects'', ''/v3/projects/p1/projectroletemplatebindings'',
        ''/v3/cluster/c/namespaces?projectId=p1'', ''/v3/projects/p2/projectroletemplatebindings''])"
    by (simp add: demo_eval demo_gets_def)
  have ord: "is_order (pr_order ?pr)" by (simp add: demo_pr_def)
  show ?thesis
    using partial_refresh_is_served [OF ord es fetched, of "''u1''"]
    by (simp add: projectsOfUser_def membershipsIn_def infoOf_def)
qed

text \<open>
  In every state a resolver of \<open>NewProjectResolver\<close> reaches, whatever Rancher and the agent
  answer, the cache names every project it mentions (no empty identifier or name, no empty list),
  and the requests made so far are authorised reads of Rancher or the publication to the agent,
  which never carries the Rancher token.
\<close>

lemma resolver_invariant:
  assumes "reaches (fst (NewProjectResolver env opa ord url cid tok)) s" and "is_order ord"
  shows "cacheOk (st_cache s) \<and> list_all (allowedReq url tok) (st_http s)"
  using reaches_ok [OF assms] by (simp add: stateOk_def)

lemma resolver_invariant_witness:
  "cacheOk (st_cache (snd (run_state (ResolveProjectIdbyNamespace (demo_pr demo_url stored_order) ''x'') demo_start)))
   \<and> list_all (allowedReq ''s'' ''t'')
     (st_http (snd (run_state (ResolveProjectIdbyNamespace (demo_pr demo_url stored_order) ''x'') demo_start)))"
proof -
  let ?pr = "fst (NewProjectResolver (demo_env demo_url) demo_opa stored_order ''s'' ''c'' ''t'')"
  have "reaches ?pr (snd (run_state (ResolveProjectIdbyNamespace ?pr ''x'') demo_start))"
    unfolding demo_start_def by (intro by_namespace start)
  then show ?thesis
    unfolding demo_pr_def by (rule resolver_invariant) simp
qed

text \<open>
  The cache mechanism: a user whose projects were found is answered again, with the same list,
  without a request and without a change of state.
\<close>

lemma ResolveProjectsByUser_cached:
  assumes "run_state (ResolveProjectsByUser pr u) s = (Ret (plist, None), s')" and "plist \<noteq> []"
  shows "run_state (ResolveProjectsByUser pr u) s' = (Ret (plist, None), s')"
  using assms
  by (auto simp: ResolveProjectsByUser_def Let_def split: if_splits prod.splits outcome.splits option.splits)

lemma ResolveProjectsByUser_cached_witness:
  "run_state (ResolveProjectsByUser (demo_pr demo_url stored_order) ''u2'') demo_after
     = (Ret ([\<lparr>up_IsOwner = False, up_ProjectID = ''p2'', up_ProjectName = ''team''\<rparr>], None), demo_after)"
proof (rule ResolveProjectsByUser_cached)
  show "run_state (ResolveProjectsByUser (demo_pr demo_url stored_order) ''u2'') demo_start
     = (Ret ([\<lparr>up_IsOwner = False, up_ProjectID = ''p2'', up_ProjectName = ''team''\<rparr>], None), demo_after)"
    by (simp add: ResolveProjectsByUser_def demo_refresh)
      (simp add: demo_after_def demo_cache_def gm_at_def)
qed simp

subsection \<open>Searching a project's user\<close>

lemma searchUsers_hit:
  "searchUsers m us pid = (u, a, None) \<Longrightarrow> u \<in> set us \<and> findOwner (gm_at [] m u) pid = Some a"
  by (induction us) (auto split: option.splits)

lemma searchUsers_miss:
  "(\<And>u. u \<in> set us \<Longrightarrow> findOwner (gm_at [] m u) pid = None) \<Longrightarrow>
   searchUsers m us pid = ('''', False, Some notFound)"
  by (induction us) auto

lemma searchUsers_first:
  "findOwner (gm_at [] m u) pid = Some a \<Longrightarrow> searchUsers m (u # us) pid = (u, a, None)"
  by simp

lemma findOwner_key: "findOwner (gm_at [] m u) pid = Some a \<Longrightarrow> u \<in> set (gm_keys m)"
  by (auto simp: gm_at_def gm_keys_map_of split: option.splits)

lemma searchUsers_found:
  assumes "u \<in> set us" and "findOwner (gm_at [] m u) pid \<noteq> None"
  shows "\<exists>v b. searchUsers m us pid = (v, b, None)"
  using assms by (induction us) (auto split: option.splits)

definition front_order :: "string \<Rightarrow> range_order" where
  "front_order u n ks = (if u \<in> set ks then u # remove1 u ks else ks)"

lemma is_order_front [simp]: "is_order (front_order u)"
  by (auto simp: is_order_def front_order_def)

text \<open>
  C30: Which user \<open>FindUserByProject\<close> answers with, and with it whether the project counts as owned,
  is left to the order of the loop: when the project is in the cache, the possible answers are
  exactly the users that have it, each with the role of that user.
\<close>

theorem FindUserByProject_answers:
  assumes "findOwner (gm_at [] (User2projects (st_cache s)) v) pid \<noteq> None"
  shows "(\<exists>ord. is_order ord \<and>
            fst (run_state (FindUserByProject (pr\<lparr>pr_order := ord\<rparr>) pid) s) = Ret (u, isOwner, None))
         \<longleftrightarrow> findOwner (gm_at [] (User2projects (st_cache s)) u) pid = Some isOwner"
proof
  let ?m = "User2projects (st_cache s)"
  assume "\<exists>ord. is_order ord \<and>
      fst (run_state (FindUserByProject (pr\<lparr>pr_order := ord\<rparr>) pid) s) = Ret (u, isOwner, None)"
  then obtain ord where ord: "is_order ord"
    and ans: "fst (run_state (FindUserByProject (pr\<lparr>pr_order := ord\<rparr>) pid) s) = Ret (u, isOwner, None)"
    by blast
  from assms ord findOwner_key have "v \<in> set (ord (st_loops s) (gm_keys ?m))" by auto
  from searchUsers_found [OF this assms] ans
  have "searchUsers ?m (ord (st_loops s) (gm_keys ?m)) pid = (u, isOwner, None)"
    by (auto simp: FindUserByProject_def findUserByProject_def)
  then show "findOwner (gm_at [] ?m u) pid = Some isOwner" by (auto dest: searchUsers_hit)
next
  let ?m = "User2projects (st_cache s)"
  assume u: "findOwner (gm_at [] ?m u) pid = Some isOwner"
  then have "u \<in> set (gm_keys ?m)" by (rule findOwner_key)
  with u have "fst (run_state (FindUserByProject (pr\<lparr>pr_order := front_order u\<rparr>) pid) s)
      = Ret (u, isOwner, None)"
    by (simp add: FindUserByProject_def findUserByProject_def front_order_def)
  then show "\<exists>ord. is_order ord \<and>
      fst (run_state (FindUserByProject (pr\<lparr>pr_order := ord\<rparr>) pid) s) = Ret (u, isOwner, None)"
    by (intro exI [of _ "front_order u"]) simp
qed

theorem FindUserByProject_answers_witness:
  "(\<exists>ord. is_order ord \<and> fst (run_state (FindUserByProject
        ((demo_pr demo_url stored_order)\<lparr>pr_order := ord\<rparr>) ''p2'') demo_after) = Ret (''u1'', True, None)) \<and>
   (\<exists>ord. is_order ord \<and> fst (run_state (FindUserByProject
        ((demo_pr demo_url stored_order)\<lparr>pr_order := ord\<rparr>) ''p2'') demo_after) = Ret (''u2'', False, None))"
proof -
  have v: "findOwner (gm_at [] (User2projects (st_cache demo_after)) ''u1'') ''p2'' \<noteq> None"
    by (simp add: demo_after_def demo_cache_def gm_at_def)
  show ?thesis
    using FindUserByProject_answers [OF v, of "demo_pr demo_url stored_order" "''u1''" True]
      FindUserByProject_answers [OF v, of "demo_pr demo_url stored_order" "''u2''" False]
    by (simp add: demo_after_def demo_cache_def gm_at_def)
qed

text \<open>
  A project nobody has is not always reported as missing. After the refresh the error of the
  second search is dropped and the projects of the user with the empty name are consulted; group
  bindings have that name, so with one group binding the search succeeds with that binding's role.
\<close>

lemma FindUserByProject_unknown_project:
  assumes "is_order (pr_order pr)"
    and "\<And>u. findOwner (gm_at [] (User2projects (st_cache s)) u) pid = None"
    and "run_state (UpdateCache pr) (s\<lparr>st_loops := Suc (st_loops s)\<rparr>) = (Ret None, s')"
    and "\<And>u. findOwner (gm_at [] (User2projects (st_cache s')) u) pid = None"
    and "gm_at [] (User2projects (st_cache s')) '''' = [binding]"
  shows "fst (run_state (FindUserByProject pr pid) s) = Ret ('''', up_IsOwner binding, None)"
  using assms
  by (simp add: FindUserByProject_def findUserByProject_def searchUsers_miss Let_def)

definition group_after :: rstate where
  "group_after = snd (run_state (UpdateCache (demo_pr demo_url_group stored_order)) (demo_start\<lparr>st_loops := 1\<rparr>))"

lemma group_refresh:
  "run_state (UpdateCache (demo_pr demo_url_group stored_order)) (demo_start\<lparr>st_loops := 1\<rparr>)
     = (Ret None, group_after)"
  "User2projects (st_cache group_after) =
     [(''u1'', [\<lparr>up_IsOwner = False, up_ProjectID = ''p1'', up_ProjectName = ''alice''\<rparr>]),
      ('''', [\<lparr>up_IsOwner = True, up_ProjectID = ''p2'', up_ProjectName = ''team''\<rparr>])]"
  by (simp_all add: group_after_def demo_eval)

lemma FindUserByProject_unknown_project_witness:
  "fst (run_state (FindUserByProject (demo_pr demo_url_group stored_order) ''p9'') demo_start)
     = Ret ('''', True, None)"
proof -
  have ord: "is_order (pr_order (demo_pr demo_url_group stored_order))" by (simp add: demo_pr_def)
  have start: "findOwner (gm_at [] (User2projects (st_cache demo_start)) u) ''p9'' = None" for u
    by (simp add: demo_start_def emptyCache_def)
  have refreshed: "run_state (UpdateCache (demo_pr demo_url_group stored_order))
      (demo_start\<lparr>st_loops := Suc (st_loops demo_start)\<rparr>) = (Ret None, group_after)"
    using group_refresh(1) by (simp add: demo_start_def)
  have absent: "findOwner (gm_at [] (User2projects (st_cache group_after)) u) ''p9'' = None" for u
    by (simp add: group_refresh(2) gm_at_def)
  have empty: "gm_at [] (User2projects (st_cache group_after)) ''''
      = [\<lparr>up_IsOwner = True, up_ProjectID = ''p2'', up_ProjectName = ''team''\<rparr>]"
    by (simp add: group_refresh(2) gm_at_def)
  show ?thesis
    using FindUserByProject_unknown_project [OF ord start refreshed absent empty] by simp
qed

text \<open>
  The answer right after a refresh and the answer from the cache disagree. With a fixed loop
  order, a project found for a user who owns it and is in several projects is reported as not owned
  by the call that filled the cache, and as owned by the next call.
\<close>

lemma FindUserByProject_changes_answer:
  assumes "is_order (pr_order pr)" and "\<And>m n ks. pr_order pr m ks = pr_order pr n ks"
    and "\<And>u. findOwner (gm_at [] (User2projects (st_cache s)) u) pid = None"
    and "run_state (UpdateCache pr) (s\<lparr>st_loops := Suc (st_loops s)\<rparr>) = (Ret None, t)"
    and "searchUsers (User2projects (st_cache t)) (pr_order pr 0 (gm_keys (User2projects (st_cache t)))) pid
      = (u, True, None)"
    and "length (gm_at [] (User2projects (st_cache t)) u) > 1"
  shows "\<exists>s'. run_state (FindUserByProject pr pid) s = (Ret (u, False, None), s') \<and>
     fst (run_state (FindUserByProject pr pid) s') = Ret (u, True, None)"
proof -
  have fixed: "pr_order pr n ks = pr_order pr 0 ks" for n ks by (rule assms(2))
  show ?thesis
    using assms(1,3-6)
    by (simp add: FindUserByProject_def findUserByProject_def searchUsers_miss Let_def
        fixed [of "st_loops t"] fixed [of "Suc (st_loops t)"])
qed

lemma FindUserByProject_changes_answer_witness:
  "\<exists>s'. run_state (FindUserByProject (demo_pr demo_url stored_order) ''p2'') demo_start
       = (Ret (''u1'', False, None), s') \<and>
     fst (run_state (FindUserByProject (demo_pr demo_url stored_order) ''p2'') s') = Ret (''u1'', True, None)"
proof (rule FindUserByProject_changes_answer)
  show "run_state (UpdateCache (demo_pr demo_url stored_order)) (demo_start\<lparr>st_loops := Suc (st_loops demo_start)\<rparr>)
      = (Ret None, demo_after\<lparr>st_loops := 3\<rparr>)"
    by (simp add: demo_eval demo_after_def demo_gets_def demo_cache_def)
qed (simp_all add: demo_pr_def stored_order_def demo_start_def emptyCache_def demo_after_def
    demo_cache_def gm_keys_def gm_at_def)

end
