(* ===== verification/Admission_Controller.thy ===== *)
theory Admission_Controller
  imports Project_Resolver
begin

text \<open>
  The mutating admission webhook (\<open>namespace-controller/server/admission_controller.go\<close>), the HTTP
  server around it (\<open>http_server.go\<close>) and its start-up (\<open>namespace-controller/main.go\<close>). A
  \<open>Namespace\<close> request is put into the requester's Rancher project, a \<open>Pod\<close> request in a normal
  user's project must ask for resources and gets limits equal to its requests. The decoders of the
  Kubernetes API machinery, its \<open>Quantity\<close> arithmetic and the encoder of the review are parameters.
\<close>

section \<open>Data\<close>

definition jsonContentType :: string where
  "jsonContentType = ''application/json''"

record AdmissionController =
  ac_projectResolver :: ProjectResolver

record PatchOperation =
  po_Op :: string
  po_Path :: string
  po_Value :: jval

text \<open>The fields of the API objects that the webhook reads and writes.\<close>

record AdmissionRequest =
  ar_UID :: string
  ar_Kind :: string
  ar_Username :: string
  ar_Namespace :: string
  ar_Raw :: string

record AdmissionResponse =
  rp_UID :: string
  rp_Allowed :: bool
  rp_Patch :: "string option"
  rp_Message :: "string option"

record NamespaceObj =
  ns_Name :: string
  ns_Annotations :: "(string, string) gomap"

record 'q Container =
  ct_Name :: string
  ct_Requests :: "(string, 'q) gomap option"
  ct_Limits :: "(string, 'q) gomap"

type_synonym 'q PodObj = "'q Container list"

text \<open>
  Third-party code: the deserialiser of reviews, \<open>json.Unmarshal\<close> into the two API types (a JSON
  \<open>null\<close> gives a nil pointer), comparison and rendering of quantities, the encoder of the review.
\<close>

record 'q admission_env =
  ae_review :: "string \<Rightarrow> go_error + AdmissionRequest option"
  ae_namespace :: "string \<Rightarrow> go_error + NamespaceObj option"
  ae_pod :: "string \<Rightarrow> go_error + 'q PodObj option"
  ae_Cmp :: "'q \<Rightarrow> 'q \<Rightarrow> int"
  ae_String :: "'q \<Rightarrow> string"
  ae_encode :: "AdmissionResponse \<Rightarrow> go_error + string"

definition NewAdmissionController :: "ProjectResolver \<Rightarrow> AdmissionController" where
  "NewAdmissionController projectResolver = \<lparr>ac_projectResolver = projectResolver\<rparr>"

lemma NewAdmissionController_sel [simp]: "ac_projectResolver (NewAdmissionController pr) = pr"
  by (simp add: NewAdmissionController_def)

text \<open>\<open>metav1.NamespacePublic\<close> and \<open>metav1.NamespaceSystem\<close>.\<close>

definition IsKubeNamespace :: "string \<Rightarrow> bool" where
  "IsKubeNamespace ns \<longleftrightarrow> ns = ''kube-public'' \<or> ns = ''kube-system''"

section \<open>State: the resolver and the response being written\<close>

text \<open>\<open>http.Request\<close>: \<open>Header.Get\<close> of an absent header is the empty string; the body may fail to be read.\<close>

record HttpRequest =
  hr_Method :: string
  hr_Path :: string
  hr_ContentType :: string
  hr_Body :: "go_error + string"

text \<open>\<open>http.ResponseWriter\<close>: the first \<open>WriteHeader\<close> wins, \<open>Write\<close> implies status 200.\<close>

record ResponseWriter =
  rw_status :: "nat option"
  rw_body :: string

record astate =
  as_resolver :: rstate
  as_writer :: ResponseWriter

type_synonym 'a admitting = "(astate, 'a) state"

definition newWriter :: ResponseWriter where
  "newWriter = \<lparr>rw_status = None, rw_body = ''''\<rparr>"

definition onResolver :: "'a resolving \<Rightarrow> 'a admitting" where
  "onResolver m = zoom as_resolver (\<lambda>t s. s\<lparr>as_resolver := t\<rparr>) m"

definition setStatus :: "nat \<Rightarrow> ResponseWriter \<Rightarrow> ResponseWriter" where
  "setStatus code w = (case rw_status w of None \<Rightarrow> w\<lparr>rw_status := Some code\<rparr> | Some _ \<Rightarrow> w)"

definition WriteHeader :: "nat \<Rightarrow> unit admitting" where
  "WriteHeader code = State (\<lambda>s. ((), s\<lparr>as_writer := setStatus code (as_writer s)\<rparr>))"

definition Write :: "string \<Rightarrow> unit admitting" where
  "Write bytes = State (\<lambda>s.
     (let w = setStatus 200 (as_writer s)
      in ((), s\<lparr>as_writer := w\<lparr>rw_body := rw_body w @ bytes\<rparr>\<rparr>)))"

lemma run_admitting [simp, io_simps]:
  "run_state (onResolver m) s =
     (case run_state m (as_resolver s) of (a, t) \<Rightarrow> (a, s\<lparr>as_resolver := t\<rparr>))"
  "run_state (WriteHeader code) s = ((), s\<lparr>as_writer := setStatus code (as_writer s)\<rparr>)"
  by (simp_all add: onResolver_def WriteHeader_def)

section \<open>The two kinds of request\<close>

text \<open>How the \<open>switch\<close> ends: a return from the handler, or the values of its local variables.\<close>

datatype verdict =
    Returned "go_error option"
  | Decided bool string "PatchOperation list"

definition annotationPatch :: "(string, string) gomap \<Rightarrow> PatchOperation" where
  "annotationPatch kvp =
     \<lparr>po_Op = ''add'', po_Path = ''/metadata/annotations'', po_Value = map_to_json JStr kvp\<rparr>"

definition admitNamespace :: "'q admission_env \<Rightarrow> AdmissionController \<Rightarrow> AdmissionRequest
    \<Rightarrow> verdict outcome admitting" where
  "admitNamespace env ac req = do {
     res \<leftarrow> onResolver (ResolveProjectsByUser (ac_projectResolver ac) (ar_Username req));
     case res of
       Panic m \<Rightarrow> State_Monad.return (Panic m)
     | Ret (plist, Some err) \<Rightarrow> State_Monad.return (Ret (Returned (Some err)))
     | Ret (plist, None) \<Rightarrow>
         if length plist > 1 then State_Monad.return (Ret (Returned None))
         else if length plist = 0 then State_Monad.return (Ret (Returned None))
         else if up_IsOwner (plist ! 0) then State_Monad.return (Ret (Returned None))
         else (case ae_namespace env (ar_Raw req) of
             Inl err \<Rightarrow> State_Monad.return (Ret (Returned (Some err)))
           | Inr p \<Rightarrow>
               (case deref p of
                  Panic m \<Rightarrow> State_Monad.return (Panic m)
                | Ret ns \<Rightarrow>
                    if \<not> HasPrefix (ns_Name ns) (up_ProjectName (plist ! 0)) then
                      State_Monad.return (Ret (Decided False
                        (''Namespace must start with '' @ [CHR 0x27] @ up_ProjectName (plist ! 0) @ [CHR 0x27]) []))
                    else do {
                      ks \<leftarrow> onResolver (nextRange (pr_order (ac_projectResolver ac))
                        (gm_keys (ns_Annotations ns)));
                      let kvp = fold (\<lambda>k m. gm_set m k (gm_at '''' (ns_Annotations ns) k)) ks [];
                      let kvp' = gm_set kvp ''field.cattle.io/projectId'' (up_ProjectID (plist ! 0));
                      State_Monad.return (Ret (Decided True ''denied'' [annotationPatch kvp']))
                    }))
   }"

text \<open>One round of the loop over the requests of the \<open>i\<close>-th container.\<close>

definition limitPatch :: "nat \<Rightarrow> string \<Rightarrow> string \<Rightarrow> PatchOperation" where
  "limitPatch i rtype rval =
     \<lparr>po_Op = ''add'',
      po_Path = ''/spec/containers/'' @ fmt_d (int i) @ ''/resources/limits/'' @ rtype,
      po_Value = JStr rval\<rparr>"

definition limitTooHigh :: "'q admission_env \<Rightarrow> string \<Rightarrow> 'q \<Rightarrow> 'q \<Rightarrow> string" where
  "limitTooHigh env rtype lval rval =
     ''Resource limit.'' @ rtype @ '': '' @ ae_String env lval @ '' is higher than the request.''
       @ rtype @ '': '' @ ae_String env rval"

definition requestsMissing :: "string \<Rightarrow> string" where
  "requestsMissing name = ''Resource requests are missing for container '' @ name"

type_synonym podVars = "bool \<times> string \<times> PatchOperation list"

definition checkRequest :: "'q admission_env \<Rightarrow> nat \<Rightarrow> (string, 'q) gomap \<Rightarrow> (string, 'q) gomap
    \<Rightarrow> string \<Rightarrow> podVars \<Rightarrow> podVars" where
  "checkRequest env i reqs lims rtype vars =
     (case vars of (allowed, deniedReason, patchOps) \<Rightarrow>
        (case map_of reqs rtype of
           None \<Rightarrow> vars
         | Some rval \<Rightarrow>
             (case map_of lims rtype of
                Some lval \<Rightarrow>
                  (if ae_Cmp env lval rval = 1 then (False, limitTooHigh env rtype lval rval, patchOps)
                   else vars)
              | None \<Rightarrow> (allowed, deniedReason, patchOps @ [limitPatch i rtype (ae_String env rval)]))))"

definition checkContainer :: "'q admission_env \<Rightarrow> range_order \<Rightarrow> nat \<Rightarrow> 'q Container \<Rightarrow> podVars
    \<Rightarrow> podVars resolving" where
  "checkContainer env ord i c vars = do {
     let reqs = (case ct_Requests c of None \<Rightarrow> [] | Some m \<Rightarrow> m);
     ks \<leftarrow> nextRange ord (gm_keys reqs);
     let (allowed, deniedReason, patchOps) = fold (checkRequest env i reqs (ct_Limits c)) ks vars;
     State_Monad.return
       (if allowed \<and> ct_Requests c = None
        then (False, requestsMissing (ct_Name c), patchOps)
        else (allowed, deniedReason, patchOps))
   }"

fun checkContainers :: "'q admission_env \<Rightarrow> range_order \<Rightarrow> nat \<Rightarrow> 'q Container list \<Rightarrow> podVars
    \<Rightarrow> podVars resolving" where
  "checkContainers env ord i [] vars = State_Monad.return vars"
| "checkContainers env ord i (c # cs) vars = do {
     vars' \<leftarrow> checkContainer env ord i c vars;
     checkContainers env ord (Suc i) cs vars'
   }"

definition admitPod :: "'q admission_env \<Rightarrow> AdmissionController \<Rightarrow> AdmissionRequest
    \<Rightarrow> verdict outcome admitting" where
  "admitPod env ac req =
     (case ae_pod env (ar_Raw req) of
        Inl err \<Rightarrow> State_Monad.return (Ret (Returned (Some err)))
      | Inr p \<Rightarrow> do {
          res \<leftarrow> onResolver (ResolveProjectIdbyNamespace (ac_projectResolver ac) (ar_Namespace req));
          case res of
            Panic m \<Rightarrow> State_Monad.return (Panic m)
          | Ret (projectID, _, _) \<Rightarrow>
              if projectID = '''' then State_Monad.return (Ret (Decided True ''denied'' []))
              else do {
                found \<leftarrow> onResolver (FindUserByProject (ac_projectResolver ac) projectID);
                case found of
                  Panic m \<Rightarrow> State_Monad.return (Panic m)
                | Ret (_, isOwner, err) \<Rightarrow>
                    if err \<noteq> None \<or> isOwner then State_Monad.return (Ret (Decided True ''denied'' []))
                    else (case deref p of
                        Panic m \<Rightarrow> State_Monad.return (Panic m)
                      | Ret pod \<Rightarrow> do {
                          vars \<leftarrow> onResolver (checkContainers env (pr_order (ac_projectResolver ac)) 0 pod
                            (True, ''denied'', []));
                          State_Monad.return (Ret (case vars of (allowed, deniedReason, patchOps) \<Rightarrow>
                            Decided allowed deniedReason patchOps))
                        })
              }
        })"

section \<open>The handler\<close>

text \<open>
  The patch as JSON; a nil slice of operations encodes as \<open>null\<close>. Encoding strings and maps of
  strings cannot fail, so the \<open>Inl\<close> of the result is never taken.
\<close>

definition patchJson :: "PatchOperation \<Rightarrow> jval" where
  "patchJson p = JObj [(''op'', JStr (po_Op p)), (''path'', JStr (po_Path p)), (''value'', po_Value p)]"

definition patchText :: "PatchOperation list \<Rightarrow> string" where
  "patchText ops = Marshal (if ops = [] then JNull else JArr (map patchJson ops))"

definition encodePatch :: "PatchOperation list \<Rightarrow> go_error + string" where
  "encodePatch ops = Inr (patchText ops)"

definition reviewResponse :: "AdmissionRequest \<Rightarrow> bool \<Rightarrow> string \<Rightarrow> string \<Rightarrow> AdmissionResponse" where
  "reviewResponse req allowed deniedReason patch =
     \<lparr>rp_UID = ar_UID req, rp_Allowed = allowed,
      rp_Patch = (if allowed then Some patch else None),
      rp_Message = (if allowed then None else Some deniedReason)\<rparr>"

definition refuse :: "nat \<Rightarrow> go_error \<Rightarrow> (string \<times> go_error option) outcome admitting" where
  "refuse code err = do {
     _ \<leftarrow> WriteHeader code;
     State_Monad.return (Ret ('''', Some err))
   }"

definition DoServeAdmitFunc :: "'q admission_env \<Rightarrow> AdmissionController \<Rightarrow> HttpRequest
    \<Rightarrow> (string \<times> go_error option) outcome admitting" where
  "DoServeAdmitFunc env ac r =
     (if hr_Method r \<noteq> ''POST'' then
        refuse 405 (''Invalid method '' @ hr_Method r @ '', only POST requests are allowed'')
      else (case hr_Body r of
          Inl err \<Rightarrow> refuse 400 (''Could not read request body: '' @ err)
        | Inr body \<Rightarrow>
            if hr_ContentType r \<noteq> jsonContentType then
              refuse 400 (''Unsupported content type '' @ hr_ContentType r @ '', only ''
                @ jsonContentType @ '' is supported'')
            else (case ae_review env body of
                Inl err \<Rightarrow> refuse 400 (''Could not deserialize request: '' @ err)
              | Inr None \<Rightarrow> refuse 400 ''Malformed admission review: request is nil''
              | Inr (Some req) \<Rightarrow> do {
                  res \<leftarrow>
                    (if ar_Kind req = ''Namespace'' then admitNamespace env ac req
                     else if ar_Kind req = ''Pod'' then admitPod env ac req
                     else State_Monad.return (Ret (Decided True ''denied'' [])));
                  case res of
                    Panic m \<Rightarrow> State_Monad.return (Panic m)
                  | Ret (Returned err) \<Rightarrow> State_Monad.return (Ret ('''', err))
                  | Ret (Decided allowed deniedReason patchOps) \<Rightarrow>
                      (case encodePatch patchOps of
                         Inl err \<Rightarrow> refuse 500 (''Could not marshal JSON patch: '' @ err)
                       | Inr patch \<Rightarrow>
                           (case ae_encode env (reviewResponse req allowed deniedReason patch) of
                              Inl err \<Rightarrow> State_Monad.return (Ret ('''', Some (''Marshaling response: '' @ err)))
                            | Inr bytes \<Rightarrow> State_Monad.return (Ret (bytes, None))))
                })))"

definition ServeAdmitFunc :: "'q admission_env \<Rightarrow> AdmissionController \<Rightarrow> HttpRequest
    \<Rightarrow> unit outcome admitting" where
  "ServeAdmitFunc env ac r = do {
     res \<leftarrow> DoServeAdmitFunc env ac r;
     case res of
       Panic m \<Rightarrow> State_Monad.return (Panic m)
     | Ret (bytes, Some err) \<Rightarrow> do {
         _ \<leftarrow> WriteHeader 500;
         _ \<leftarrow> Write err;
         State_Monad.return (Ret ())
       }
     | Ret (bytes, None) \<Rightarrow> do {
         _ \<leftarrow> Write bytes;
         State_Monad.return (Ret ())
       }
   }"

section \<open>The server\<close>

text \<open>
  \<open>ListenForever\<close> builds the resolver and the controller and routes \<open>/mutate\<close> to the handler; any
  other path gets the 404 of \<open>http.ServeMux\<close>. The path is the cleaned one: a request whose path is
  not clean is redirected by the mux and reaches no handler.
\<close>

definition tlsDir :: string where "tlsDir = ''/run/secrets/tls''"
definition tlsCertFile :: string where "tlsCertFile = ''tls.crt''"
definition tlsKeyFile :: string where "tlsKeyFile = ''tls.key''"

record Server =
  sv_Addr :: string
  sv_cert :: string
  sv_key :: string
  sv_controller :: AdmissionController
  sv_start :: rstate

definition ListenForever :: "'r rancher_env \<Rightarrow> http_service \<Rightarrow> range_order \<Rightarrow> int \<Rightarrow> string \<Rightarrow> string
    \<Rightarrow> string \<Rightarrow> string \<Rightarrow> string \<Rightarrow> Server" where
  "ListenForever renv opa ord port certPath keyPath rancherURL token clusterID =
     (let (projectResolver, cache) = NewProjectResolver renv opa ord rancherURL clusterID token
      in \<lparr>sv_Addr = '':'' @ fmt_d port, sv_cert = certPath, sv_key = keyPath,
          sv_controller = NewAdmissionController projectResolver,
          sv_start = \<lparr>st_http = [], st_cache = cache, st_loops = 0\<rparr>\<rparr>)"

definition pathJoin :: "string \<Rightarrow> string \<Rightarrow> string" where
  "pathJoin dir file = dir @ ''/'' @ file"

definition admission_main :: "'r rancher_env \<Rightarrow> http_service \<Rightarrow> range_order \<Rightarrow> (string \<Rightarrow> string) \<Rightarrow> Server" where
  "admission_main renv opa ord Getenv =
     ListenForever renv opa ord 8443 (pathJoin tlsDir tlsCertFile) (pathJoin tlsDir tlsKeyFile)
       (Getenv ''RANCHER_URL'') (Getenv ''RANCHER_TOKEN'') (Getenv ''RANCHER_CLUSTER_ID'')"

definition serveMux :: "'q admission_env \<Rightarrow> AdmissionController \<Rightarrow> HttpRequest \<Rightarrow> unit outcome admitting" where
  "serveMux env ac r =
     (if hr_Path r = ''/mutate'' then ServeAdmitFunc env ac r
      else do {
        _ \<leftarrow> WriteHeader 404;
        _ \<leftarrow> Write (''404 page not found'' @ [CHR 0x0A]);
        State_Monad.return (Ret ())
      })"

text \<open>
  A run of the server: requests one after the other, each with a writer of its own; a handler that
  panics is recovered by \<open>net/http\<close> and the server goes on with the state it left.
\<close>

inductive serves :: "'q admission_env \<Rightarrow> AdmissionController \<Rightarrow> rstate \<Rightarrow> rstate
    \<Rightarrow> (HttpRequest \<times> unit outcome \<times> ResponseWriter) list \<Rightarrow> bool" for env ac s0 where
  idle: "serves env ac s0 s0 []"
| request: "serves env ac s0 s log \<Longrightarrow>
    run_state (serveMux env ac r) \<lparr>as_resolver = s, as_writer = newWriter\<rparr> = (res, s') \<Longrightarrow>
    serves env ac s0 (as_resolver s') (log @ [(r, res, as_writer s')])"

inductive_cases serves_snocE: "serves env ac s0 s (log @ [entry])"

text \<open>
  The process: \<open>ListenAndServeTLS\<close> serves the requests it accepts until it fails, which it always does in
  the end, with an error (at once when the certificate cannot be read), and \<open>log.Fatal\<close> exits with 1. The
  socket and the TLS handshake are the parameter \<open>listen\<close>: what is accepted at an address with a
  certificate, and the error.
\<close>

fun serveRequests :: "'q admission_env \<Rightarrow> AdmissionController \<Rightarrow> HttpRequest list \<Rightarrow> rstate \<Rightarrow> ResponseWriter list \<times> rstate" where
  "serveRequests env ac [] s = ([], s)"
| "serveRequests env ac (r # rs) s =
     (case run_state (serveMux env ac r) \<lparr>as_resolver = s, as_writer = newWriter\<rparr> of (res, s') \<Rightarrow>
        (case serveRequests env ac rs (as_resolver s') of (ws, t) \<Rightarrow> (as_writer s' # ws, t)))"

record process_end =
  pe_replies :: "ResponseWriter list"
  pe_resolver :: rstate
  pe_log :: string
  pe_code :: nat

definition serveForever :: "'q admission_env \<Rightarrow> (string \<Rightarrow> string \<Rightarrow> string \<Rightarrow> HttpRequest list \<times> go_error) \<Rightarrow> Server \<Rightarrow> process_end" where
  "serveForever env listen sv =
     (let (accepted, err) = listen (sv_Addr sv) (sv_cert sv) (sv_key sv);
          (replies, s) = serveRequests env (sv_controller sv) accepted (sv_start sv)
      in \<lparr>pe_replies = replies, pe_resolver = s, pe_log = err, pe_code = 1\<rparr>)"

lemma serves_snoc_run:
  "serves env ac s0 s log \<Longrightarrow> serveRequests env ac rs s = (ws, t) \<Longrightarrow>
     \<exists>log'. serves env ac s0 t (log @ log') \<and> map fst log' = rs \<and> map (\<lambda>e. snd (snd e)) log' = ws"
proof (induction rs arbitrary: s log ws)
  case Nil
  then show ?case by auto
next
  case (Cons r rs)
  from Cons.prems(2) obtain res s' ws' where
    run: "run_state (serveMux env ac r) \<lparr>as_resolver = s, as_writer = newWriter\<rparr> = (res, s')"
    and rest: "serveRequests env ac rs (as_resolver s') = (ws', t)" and ws: "ws = as_writer s' # ws'"
    by (auto split: prod.splits)
  from Cons.IH [OF serves.request [OF Cons.prems(1) run] rest] obtain log' where
    "serves env ac s0 t ((log @ [(r, res, as_writer s')]) @ log')"
    "map fst log' = rs" "map (\<lambda>e. snd (snd e)) log' = ws'" by blast
  then show ?case
    by (intro exI [of _ "(r, res, as_writer s') # log'"]) (simp add: ws)
qed

text \<open>What the process did is a run of the server on the requests that were accepted.\<close>

lemma serveForever_serves:
  assumes "listen (sv_Addr sv) (sv_cert sv) (sv_key sv) = (accepted, err)"
  shows "\<exists>log. serves env (sv_controller sv) (sv_start sv) (pe_resolver (serveForever env listen sv)) log \<and>
    map fst log = accepted \<and> map (\<lambda>e. snd (snd e)) log = pe_replies (serveForever env listen sv)"
proof -
  obtain ws t where run: "serveRequests env (sv_controller sv) accepted (sv_start sv) = (ws, t)" by (metis prod.exhaust)
  from serves_snoc_run [OF serves.idle this] show ?thesis
    by (simp add: serveForever_def assms run)
qed

section \<open>Checking a pod\<close>

text \<open>The specification: what is wrong with a container, and the limits it lacks.\<close>

definition requestsOf :: "'q Container \<Rightarrow> (string, 'q) gomap" where
  "requestsOf c = (case ct_Requests c of None \<Rightarrow> [] | Some m \<Rightarrow> m)"

definition exceeds :: "'q admission_env \<Rightarrow> (string, 'q) gomap \<Rightarrow> (string, 'q) gomap \<Rightarrow> string \<Rightarrow> bool" where
  "exceeds env reqs lims k =
     (case (map_of reqs k, map_of lims k) of
        (Some rval, Some lval) \<Rightarrow> ae_Cmp env lval rval = 1
      | _ \<Rightarrow> False)"

definition unlimited :: "(string, 'q) gomap \<Rightarrow> (string, 'q) gomap \<Rightarrow> string \<Rightarrow> bool" where
  "unlimited reqs lims k \<longleftrightarrow> map_of reqs k \<noteq> None \<and> map_of lims k = None"

definition containerOk :: "'q admission_env \<Rightarrow> 'q Container \<Rightarrow> bool" where
  "containerOk env c \<longleftrightarrow> ct_Requests c \<noteq> None
     \<and> list_all (\<lambda>k. \<not> exceeds env (requestsOf c) (ct_Limits c) k) (gm_keys (requestsOf c))"

definition missingLimits :: "'q admission_env \<Rightarrow> nat \<Rightarrow> 'q Container \<Rightarrow> string list \<Rightarrow> PatchOperation list" where
  "missingLimits env i c ks =
     map (\<lambda>k. limitPatch i k (ae_String env (the (map_of (requestsOf c) k))))
       (filter (unlimited (requestsOf c) (ct_Limits c)) ks)"

fun allMissingLimits :: "'q admission_env \<Rightarrow> nat \<Rightarrow> 'q Container list \<Rightarrow> PatchOperation list" where
  "allMissingLimits env i [] = []"
| "allMissingLimits env i (c # cs) =
     missingLimits env i c (gm_keys (requestsOf c)) @ allMissingLimits env (Suc i) cs"

text \<open>The explanations a container can be refused with.\<close>

definition offences :: "'q admission_env \<Rightarrow> 'q Container \<Rightarrow> string set" where
  "offences env c =
     {limitTooHigh env k lval rval | k lval rval.
        map_of (requestsOf c) k = Some rval \<and> map_of (ct_Limits c) k = Some lval \<and> ae_Cmp env lval rval = 1}
     \<union> (if ct_Requests c = None then {requestsMissing (ct_Name c)} else {})"

lemma checkRequest_exceeds:
  assumes "exceeds env reqs lims k"
  shows "\<exists>lval rval. map_of reqs k = Some rval \<and> map_of lims k = Some lval \<and> ae_Cmp env lval rval = 1 \<and>
    checkRequest env i reqs lims k (a, d, ops) = (False, limitTooHigh env k lval rval, ops)"
    and "\<not> unlimited reqs lims k"
  using assms by (auto simp: exceeds_def checkRequest_def unlimited_def split: option.splits)

lemma checkRequest_within:
  assumes "\<not> exceeds env reqs lims k" and "map_of reqs k \<noteq> None"
  shows "checkRequest env i reqs lims k (a, d, ops) =
    (a, d, if unlimited reqs lims k
      then ops @ [limitPatch i k (ae_String env (the (map_of reqs k)))] else ops)"
  using assms by (auto simp: exceeds_def checkRequest_def unlimited_def split: option.splits)

lemma fold_checkRequest:
  assumes "fold (checkRequest env i reqs lims) ks (a, d, ops) = (a', d', ops')"
    and "set ks \<subseteq> dom (map_of reqs)"
  shows "a' = (a \<and> list_all (\<lambda>k. \<not> exceeds env reqs lims k) ks) \<and>
   ops' = ops @ map (\<lambda>k. limitPatch i k (ae_String env (the (map_of reqs k)))) (filter (unlimited reqs lims) ks) \<and>
   (if list_all (\<lambda>k. \<not> exceeds env reqs lims k) ks then d' = d
    else \<exists>k lval rval. map_of reqs k = Some rval \<and> map_of lims k = Some lval \<and> ae_Cmp env lval rval = 1 \<and>
      d' = limitTooHigh env k lval rval)"
  using assms
proof (induction ks arbitrary: a d ops)
  case Nil
  then show ?case by simp
next
  case (Cons k ks)
  show ?case
  proof (cases "exceeds env reqs lims k")
    case True
    then obtain rval lval where kv: "map_of reqs k = Some rval" "map_of lims k = Some lval"
        "ae_Cmp env lval rval = 1"
        "checkRequest env i reqs lims k (a, d, ops) = (False, limitTooHigh env k lval rval, ops)"
      using checkRequest_exceeds by blast
    with Cons.prems have "fold (checkRequest env i reqs lims) ks (False, limitTooHigh env k lval rval, ops)
        = (a', d', ops')" and "set ks \<subseteq> dom (map_of reqs)" by simp_all
    from Cons.IH [OF this] True kv(1-3) checkRequest_exceeds(2) [OF True] show ?thesis
      by (auto split: if_splits)
  next
    case False
    with Cons.prems(2) have step: "checkRequest env i reqs lims k (a, d, ops) =
        (a, d, if unlimited reqs lims k
          then ops @ [limitPatch i k (ae_String env (the (map_of reqs k)))] else ops)"
      by (intro checkRequest_within) auto
    from Cons.prems(2) have "set ks \<subseteq> dom (map_of reqs)" by simp
    from Cons.IH [OF Cons.prems(1) [unfolded fold_simps step] this] False show ?thesis
      by simp
  qed
qed

lemma list_all_order: "is_order ord \<Longrightarrow> list_all P (ord n ks) = list_all P ks"
  by (simp add: list_all_iff)

lemma mset_missingLimits:
  "is_order ord \<Longrightarrow> mset (missingLimits env i c (ord n ks)) = mset (missingLimits env i c ks)"
  by (simp add: missingLimits_def is_order_def)

lemma run_checkContainer:
  assumes ord: "is_order ord"
    and run: "run_state (checkContainer env ord i c (a, d, ops)) s = ((a', d', ops'), s')"
  shows "a' = (a \<and> containerOk env c)"
    and "mset ops' = mset ops + mset (missingLimits env i c (gm_keys (requestsOf c)))"
    and "d' = d \<or> d' \<in> offences env c" and "a \<and> \<not> a' \<Longrightarrow> d' \<in> offences env c"
    and "s' = s\<lparr>st_loops := Suc (st_loops s)\<rparr>"
proof -
  let ?ks = "ord (st_loops s) (gm_keys (requestsOf c))"
  obtain a1 d1 ops1 where f: "fold (checkRequest env i (requestsOf c) (ct_Limits c)) ?ks (a, d, ops) = (a1, d1, ops1)"
    by (metis prod_cases3)
  have "set ?ks \<subseteq> dom (map_of (requestsOf c))"
    using ord by (auto simp: gm_keys_map_of)
  note spec = fold_checkRequest [OF f this]
  from f run have res: "a' = (a1 \<and> ct_Requests c \<noteq> None)" "ops' = ops1"
      "d' = (if a1 \<and> ct_Requests c = None then requestsMissing (ct_Name c) else d1)"
      "s' = s\<lparr>st_loops := Suc (st_loops s)\<rparr>"
    by (auto simp: checkContainer_def requestsOf_def Let_def split: if_splits)
  show "a' = (a \<and> containerOk env c)"
    using spec res ord by (auto simp: containerOk_def list_all_order)
  show "mset ops' = mset ops + mset (missingLimits env i c (gm_keys (requestsOf c)))"
    using spec res mset_missingLimits [OF ord] by (simp add: missingLimits_def)
  show "d' = d \<or> d' \<in> offences env c" and "a \<and> \<not> a' \<Longrightarrow> d' \<in> offences env c"
    using spec res by (auto simp: offences_def split: if_splits)
  show "s' = s\<lparr>st_loops := Suc (st_loops s)\<rparr>" by (rule res)
qed

lemma run_checkContainers:
  assumes ord: "is_order ord"
    and run: "run_state (checkContainers env ord i cs (a, d, ops)) s = ((a', d', ops'), s')"
  shows "a' = (a \<and> list_all (containerOk env) cs) \<and>
    mset ops' = mset ops + mset (allMissingLimits env i cs) \<and>
    (a \<and> \<not> a' \<longrightarrow> (\<exists>c \<in> set cs. d' \<in> offences env c)) \<and> (d' = d \<or> (\<exists>c \<in> set cs. d' \<in> offences env c)) \<and>
    s' = s\<lparr>st_loops := st_loops s + length cs\<rparr>"
  using run
proof (induction cs arbitrary: i a d ops s)
  case Nil
  then show ?case by simp
next
  case (Cons c cs)
  obtain a1 d1 ops1 s1 where one: "run_state (checkContainer env ord i c (a, d, ops)) s = ((a1, d1, ops1), s1)"
    by (metis prod.collapse)
  with Cons.prems have "run_state (checkContainers env ord (Suc i) cs (a1, d1, ops1)) s1 = ((a', d', ops'), s')"
    by simp
  note IH = Cons.IH [OF this]
  note step = run_checkContainer [OF ord one]
  show ?case
    using IH step(1,3,5) step(2) step(4) by auto
qed

section \<open>Putting a namespace into a project\<close>

text \<open>A requester is handled when Rancher lists exactly one project and the requester does not own it.\<close>

definition soleProject :: "UserProjectInfo list \<Rightarrow> UserProjectInfo option" where
  "soleProject plist =
     (case plist of [info] \<Rightarrow> (if up_IsOwner info then None else Some info) | _ \<Rightarrow> None)"

text \<open>The decoder returns a Go map, in which every key occurs once.\<close>

definition decodesMaps :: "'q admission_env \<Rightarrow> bool" where
  "decodesMaps env \<longleftrightarrow> (\<forall>raw ns. ae_namespace env raw = Inr (Some ns) \<longrightarrow> gm_ok (ns_Annotations ns))"

definition prefixDenial :: "string \<Rightarrow> string" where
  "prefixDenial name = ''Namespace must start with '' @ [CHR 0x27] @ name @ [CHR 0x27]"

definition placeNamespace :: "NamespaceObj \<Rightarrow> UserProjectInfo \<Rightarrow> verdict" where
  "placeNamespace ns info =
     (if HasPrefix (ns_Name ns) (up_ProjectName info)
      then Decided True ''denied''
        [annotationPatch (gm_set (ns_Annotations ns) ''field.cattle.io/projectId'' (up_ProjectID info))]
      else Decided False (prefixDenial (up_ProjectName info)) [])"

lemma copy_loop:
  "map_of (fold (\<lambda>k m. gm_set m k (f k)) ks m) k = (if k \<in> set ks then Some (f k) else map_of m k)"
  by (induction ks arbitrary: m) auto

lemma copy_loop_ok: "gm_ok m \<Longrightarrow> gm_ok (fold (\<lambda>k m. gm_set m k (f k)) ks m)"
  by (induction ks arbitrary: m) auto

lemma copied_annotations:
  assumes "is_order ord"
  shows "map_of (fold (\<lambda>k m. gm_set m k (gm_at '''' annots k)) (ord n (gm_keys annots)) []) = map_of annots"
  using assms by (auto simp: copy_loop gm_keys_map_of gm_at_def fun_eq_iff split: option.splits)

lemma annotationPatch_cong:
  "gm_ok m \<Longrightarrow> gm_ok m' \<Longrightarrow> map_of m = map_of m' \<Longrightarrow> annotationPatch m = annotationPatch m'"
  unfolding annotationPatch_def using map_to_json_cong [of m m' JStr] by simp

lemma copied_patch:
  assumes "is_order ord" and "gm_ok annots"
  shows "annotationPatch (gm_set (fold (\<lambda>k m. gm_set m k (gm_at '''' annots k)) (ord n (gm_keys annots)) []) a v)
    = annotationPatch (gm_set annots a v)"
  using assms by (intro annotationPatch_cong) (simp_all add: copied_annotations copy_loop_ok)

lemma soleProject_Some: "soleProject plist = Some info \<longleftrightarrow> plist = [info] \<and> \<not> up_IsOwner info"
  by (auto simp: soleProject_def split: list.splits)

lemma soleProject_None:
  "soleProject plist = None \<longleftrightarrow> length plist > 1 \<or> length plist = 0 \<or> up_IsOwner (plist ! 0)"
  by (auto simp: soleProject_def split: list.splits)

lemma run_admitNamespace:
  assumes ord: "is_order (pr_order (ac_projectResolver ac))"
    and annots: "decodesMaps env"
  shows "run_state (admitNamespace env ac req) s =
    (case run_state (ResolveProjectsByUser (ac_projectResolver ac) (ar_Username req)) (as_resolver s) of
       (Panic m, t) \<Rightarrow> (Panic m, s\<lparr>as_resolver := t\<rparr>)
     | (Ret (plist, Some err), t) \<Rightarrow> (Ret (Returned (Some err)), s\<lparr>as_resolver := t\<rparr>)
     | (Ret (plist, None), t) \<Rightarrow>
         (case soleProject plist of
            None \<Rightarrow> (Ret (Returned None), s\<lparr>as_resolver := t\<rparr>)
          | Some info \<Rightarrow>
              (case ae_namespace env (ar_Raw req) of
                 Inl err \<Rightarrow> (Ret (Returned (Some err)), s\<lparr>as_resolver := t\<rparr>)
               | Inr None \<Rightarrow> (Panic ''nil pointer dereference'', s\<lparr>as_resolver := t\<rparr>)
               | Inr (Some ns) \<Rightarrow>
                   (Ret (placeNamespace ns info),
                    s\<lparr>as_resolver := (if HasPrefix (ns_Name ns) (up_ProjectName info)
                        then t\<lparr>st_loops := Suc (st_loops t)\<rparr> else t)\<rparr>))))"
proof -
  obtain a t where run: "run_state (ResolveProjectsByUser (ac_projectResolver ac) (ar_Username req)) (as_resolver s) = (a, t)"
    by (metis prod.collapse)
  consider (panic) m where "a = Panic m" | (err) plist e where "a = Ret (plist, Some e)"
    | (ok) plist where "a = Ret (plist, None)"
    by (metis outcome.exhaust option.exhaust prod.exhaust)
  then show ?thesis
  proof cases
    case panic
    with run show ?thesis by (simp add: admitNamespace_def)
  next
    case err
    with run show ?thesis by (simp add: admitNamespace_def)
  next
    case ok
    show ?thesis
    proof (cases "soleProject plist")
      case None
      then have "length plist > 1 \<or> length plist = 0 \<or> up_IsOwner (plist ! 0)"
        by (simp add: soleProject_None)
      with run ok None show ?thesis by (auto simp: admitNamespace_def)
    next
      case (Some info)
      then have sole: "plist = [info]" "\<not> up_IsOwner info" by (simp_all add: soleProject_Some)
      show ?thesis
      proof (cases "\<exists>ns. ae_namespace env (ar_Raw req) = Inr (Some ns)")
        case True
        with run ok sole annots [unfolded decodesMaps_def] show ?thesis
          by (auto simp: admitNamespace_def soleProject_def placeNamespace_def prefixDenial_def Let_def
              copied_patch [OF ord])
      next
        case False
        with run ok sole show ?thesis
          by (auto simp: admitNamespace_def soleProject_def split: sum.split option.split)
      qed
    qed
  qed
qed

section \<open>What the webhook relies on from the resolver\<close>

text \<open>
  The contract of the three queries: they keep an invariant, and under it a user's projects have an
  identifier and a name. The facts about the webhook that need it are proved from it alone.
\<close>

locale resolver_contract =
  fixes pr :: ProjectResolver and inv :: "rstate \<Rightarrow> bool"
  assumes user_inv: "run_state (ResolveProjectsByUser pr u) s = (ru, t) \<Longrightarrow> inv s \<Longrightarrow> inv t"
    and namespace_inv: "run_state (ResolveProjectIdbyNamespace pr n) s = (rn, t) \<Longrightarrow> inv s \<Longrightarrow> inv t"
    and project_inv: "run_state (FindUserByProject pr p) s = (rp, t) \<Longrightarrow> inv s \<Longrightarrow> inv t"
    and loops_inv: "inv s \<Longrightarrow> inv (s\<lparr>st_loops := k\<rparr>)"
    and order: "inv s \<Longrightarrow> is_order (pr_order pr)"
    and named: "run_state (ResolveProjectsByUser pr u) s = (Ret (plist, e), t) \<Longrightarrow> inv s \<Longrightarrow>
      list_all namedInfo plist"
begin

abbreviation safe :: "astate \<Rightarrow> bool" where
  "safe s \<equiv> inv (as_resolver s)"

lemma keeps_onResolver: "keeps inv m \<Longrightarrow> keeps safe (onResolver m)"
  unfolding onResolver_def by (rule keeps_zoom) auto

lemma queries_keep [simp, intro]:
  "keeps inv (ResolveProjectsByUser pr u)" "keeps inv (ResolveProjectIdbyNamespace pr n)"
  "keeps inv (FindUserByProject pr p)" "keeps inv (nextRange ord ks)"
  by (auto intro!: keepsI intro: loops_inv split: prod.split
      simp: prod.collapse [symmetric] elim: user_inv [OF prod.collapse [symmetric]]
        namespace_inv [OF prod.collapse [symmetric]] project_inv [OF prod.collapse [symmetric]])

lemma checkContainers_keeps [simp, intro]: "keeps inv (checkContainers env ord i cs vars)"
proof (induction cs arbitrary: i vars)
  case Nil
  then show ?case by simp
next
  case (Cons c cs)
  have "keeps inv (checkContainer env ord i c vars)"
    unfolding checkContainer_def Let_def by (intro keeps_bind queries_keep) (simp split: prod.split)
  with Cons show ?case by auto
qed

lemma admitNamespace_keeps:
  assumes [simp]: "ac_projectResolver ac = pr"
  shows "keeps safe (admitNamespace env ac req)"
  unfolding admitNamespace_def Let_def
  by (intro keeps_bind keeps_onResolver)
    (auto intro!: keeps_bind keeps_onResolver simp: deref_def
      split: outcome.split prod.split option.split sum.split)

lemma admitPod_keeps:
  assumes [simp]: "ac_projectResolver ac = pr"
  shows "keeps safe (admitPod env ac req)"
  unfolding admitPod_def
  by (auto intro!: keeps_bind keeps_onResolver simp: deref_def
      split: outcome.split prod.split option.split sum.split)

lemma WriteHeader_keeps [simp, intro]: "keeps safe (WriteHeader code)" "keeps safe (Write bytes)"
  by (auto intro!: keepsI simp: Write_def Let_def)

lemma DoServeAdmitFunc_keeps:
  assumes [simp]: "ac_projectResolver ac = pr"
  shows "keeps safe (DoServeAdmitFunc env ac r)"
  unfolding DoServeAdmitFunc_def refuse_def encodePatch_def
  by (auto intro!: keeps_bind admitNamespace_keeps admitPod_keeps
      split: outcome.split prod.split option.split sum.split verdict.split)

lemma serveMux_keeps:
  assumes [simp]: "ac_projectResolver ac = pr"
  shows "keeps safe (serveMux env ac r)"
  unfolding serveMux_def ServeAdmitFunc_def
  by (auto intro!: keeps_bind DoServeAdmitFunc_keeps split: outcome.split prod.split option.split)

lemma serves_inv:
  assumes "serves env ac s0 s log" and "ac_projectResolver ac = pr" and "inv s0"
  shows "inv s"
  using assms(1)
proof (induction rule: serves.induct)
  case idle
  show ?case by (rule assms(3))
next
  case (request s log r res s')
  then show ?case
    using keepsD [OF serveMux_keeps [OF assms(2)] request.hyps(2)] by simp
qed

lemma placed_in_named_project:
  assumes ac: "ac_projectResolver ac = pr" and safe: "safe s"
    and annots: "decodesMaps env"
    and run: "run_state (admitNamespace env ac req) s = (Ret (Decided allowed reason ops), s')"
  shows "\<exists>info ns t. run_state (ResolveProjectsByUser pr (ar_Username req)) (as_resolver s) = (Ret ([info], None), t)
    \<and> \<not> up_IsOwner info \<and> namedInfo info \<and> ae_namespace env (ar_Raw req) = Inr (Some ns)
    \<and> placeNamespace ns info = Decided allowed reason ops"
proof -
  have ord: "is_order (pr_order (ac_projectResolver ac))" using order [OF safe] ac by simp
  note spec = run_admitNamespace [where ac = ac and env = env and req = req and s = s, OF ord annots]
  obtain a t where q: "run_state (ResolveProjectsByUser pr (ar_Username req)) (as_resolver s) = (a, t)"
    by (metis prod.collapse)
  from run [unfolded spec ac q] obtain info ns where
    a: "a = Ret ([info], None)" "\<not> up_IsOwner info" and ns: "ae_namespace env (ar_Raw req) = Inr (Some ns)"
    and placed: "placeNamespace ns info = Decided allowed reason ops"
    by (auto simp: soleProject_Some split: prod.splits outcome.splits option.splits sum.splits)
  have "namedInfo info" using named [of "ar_Username req" "as_resolver s"] q a(1) safe by simp
  with q a ns placed show ?thesis by blast
qed

end

text \<open>A user's projects in a well-formed cache are named, cached or just read.\<close>

lemma ResolveProjectsByUser_from_cache:
  "run_state (ResolveProjectsByUser pr u) s = (Ret (plist, e), t) \<Longrightarrow>
   plist = [] \<or> plist = gm_at [] (User2projects (st_cache t)) u"
  by (auto simp: ResolveProjectsByUser_def Let_def split: if_splits prod.splits outcome.splits option.splits)

interpretation ac: resolver_contract
  "fst (NewProjectResolver renv opa ord url cid tok)" "\<lambda>s. is_order ord \<and> stateOk url tok s"
proof unfold_locales
  fix u s ru t
  assume "run_state (ResolveProjectsByUser (fst (NewProjectResolver renv opa ord url cid tok)) u) s = (ru, t)"
    and "is_order ord \<and> stateOk url tok s"
  then show "is_order ord \<and> stateOk url tok t"
    using rc.queries_ok(1) [of "fst (NewProjectResolver renv opa ord url cid tok)" renv url tok s u] by simp
next
  fix n s rn t
  assume "run_state (ResolveProjectIdbyNamespace (fst (NewProjectResolver renv opa ord url cid tok)) n) s = (rn, t)"
    and "is_order ord \<and> stateOk url tok s"
  then show "is_order ord \<and> stateOk url tok t"
    using rc.queries_ok(2) [of "fst (NewProjectResolver renv opa ord url cid tok)" renv url tok s n] by simp
next
  fix p s rp t
  assume "run_state (FindUserByProject (fst (NewProjectResolver renv opa ord url cid tok)) p) s = (rp, t)"
    and "is_order ord \<and> stateOk url tok s"
  then show "is_order ord \<and> stateOk url tok t"
    using rc.queries_ok(3) [of "fst (NewProjectResolver renv opa ord url cid tok)" renv url tok s p] by simp
next
  fix s k
  assume "is_order ord \<and> stateOk url tok s"
  then show "is_order ord \<and> stateOk url tok (s\<lparr>st_loops := k\<rparr>)" by (simp add: stateOk_def)
next
  fix s
  assume "is_order ord \<and> stateOk url tok s"
  then show "is_order (pr_order (fst (NewProjectResolver renv opa ord url cid tok)))" by simp
next
  fix u s plist e t
  assume run: "run_state (ResolveProjectsByUser (fst (NewProjectResolver renv opa ord url cid tok)) u) s
      = (Ret (plist, e), t)"
    and ok: "is_order ord \<and> stateOk url tok s"
  then have "stateOk url tok t"
    using rc.queries_ok(1) [of "fst (NewProjectResolver renv opa ord url cid tok)" renv url tok s u] by simp
  with ResolveProjectsByUser_from_cache [OF run] show "list_all namedInfo plist"
    by (auto simp: stateOk_def dest: cacheOk_named)
qed

section \<open>Running the handler\<close>

definition decodes :: "'q admission_env \<Rightarrow> HttpRequest \<Rightarrow> AdmissionRequest \<Rightarrow> bool" where
  "decodes env r req \<longleftrightarrow> hr_Method r = ''POST'' \<and> hr_ContentType r = jsonContentType \<and>
     (case hr_Body r of Inl _ \<Rightarrow> False | Inr body \<Rightarrow> ae_review env body = Inr (Some req))"

text \<open>What is written once the verdict is known.\<close>

definition reply :: "'q admission_env \<Rightarrow> AdmissionRequest \<Rightarrow> verdict \<Rightarrow> ResponseWriter" where
  "reply env req v =
     (case v of
        Returned None \<Rightarrow> \<lparr>rw_status = Some 200, rw_body = ''''\<rparr>
      | Returned (Some err) \<Rightarrow> \<lparr>rw_status = Some 500, rw_body = err\<rparr>
      | Decided allowed deniedReason ops \<Rightarrow>
          (case ae_encode env (reviewResponse req allowed deniedReason (patchText ops)) of
             Inl err \<Rightarrow> \<lparr>rw_status = Some 500, rw_body = ''Marshaling response: '' @ err\<rparr>
           | Inr bytes \<Rightarrow> \<lparr>rw_status = Some 200, rw_body = bytes\<rparr>))"

lemma setStatus_simps [simp]:
  "setStatus code newWriter = \<lparr>rw_status = Some code, rw_body = ''''\<rparr>"
  "rw_status w = Some c \<Longrightarrow> setStatus code w = w"
  by (simp_all add: setStatus_def newWriter_def)

lemma run_Write [simp]:
  "run_state (Write bytes) s = ((), s\<lparr>as_writer := (let w = setStatus 200 (as_writer s)
     in w\<lparr>rw_body := rw_body w @ bytes\<rparr>)\<rparr>)"
  by (simp add: Write_def Let_def)

definition fresh :: "rstate \<Rightarrow> astate" where
  "fresh t = \<lparr>as_resolver = t, as_writer = newWriter\<rparr>"

lemma fresh_sel [simp]: "as_resolver (fresh t) = t" "as_writer (fresh t) = newWriter"
  by (simp_all add: fresh_def)

lemma run_ServeAdmitFunc:
  assumes "decodes env r req"
    and "run_state (if ar_Kind req = ''Namespace'' then admitNamespace env ac req
         else if ar_Kind req = ''Pod'' then admitPod env ac req
         else State_Monad.return (Ret (Decided True ''denied'' []))) (fresh t) = (Ret v, s')"
    and "as_writer s' = newWriter"
  shows "run_state (ServeAdmitFunc env ac r) (fresh t) = (Ret (), s'\<lparr>as_writer := reply env req v\<rparr>)"
proof -
  from assms(1) obtain body where dec: "hr_Method r = ''POST''" "hr_ContentType r = jsonContentType"
    "hr_Body r = Inr body" "ae_review env body = Inr (Some req)"
    by (auto simp: decodes_def split: sum.splits)
  show ?thesis
    using assms(2,3) dec
    by (cases v)
      (auto simp: ServeAdmitFunc_def DoServeAdmitFunc_def refuse_def encodePatch_def reply_def Let_def
        split: option.split sum.split)
qed

lemma admitNamespace_writer:
  assumes "is_order (pr_order (ac_projectResolver ac))" and "decodesMaps env"
    and "run_state (admitNamespace env ac req) s = (x, s')"
  shows "as_writer s' = as_writer s"
  using assms(3) unfolding run_admitNamespace [OF assms(1,2)]
  by (auto split: prod.splits outcome.splits option.splits sum.splits)

subsection \<open>A small cluster\<close>

text \<open>Quantities are natural numbers; a body names the object it decodes to.\<close>

definition demo_ns :: NamespaceObj where
  "demo_ns = \<lparr>ns_Name = ''team-b'',
     ns_Annotations = [(''field.cattle.io/projectId'', ''p1''), (''owner'', ''x'')]\<rparr>"

definition demo_pod :: "nat PodObj" where
  "demo_pod =
     [\<lparr>ct_Name = ''a'', ct_Requests = Some [(''cpu'', 2), (''memory'', 64)], ct_Limits = [(''cpu'', 2)]\<rparr>]"

definition demo_req1 :: AdmissionRequest where
  "demo_req1 = \<lparr>ar_UID = ''7'', ar_Kind = ''Namespace'', ar_Username = ''u1'', ar_Namespace = '''', ar_Raw = ''m''\<rparr>"

definition demo_req2 :: AdmissionRequest where
  "demo_req2 = \<lparr>ar_UID = ''8'', ar_Kind = ''Namespace'', ar_Username = ''u2'', ar_Namespace = '''', ar_Raw = ''n''\<rparr>"

definition demo_req3 :: AdmissionRequest where
  "demo_req3 = \<lparr>ar_UID = ''9'', ar_Kind = ''Pod'', ar_Username = ''u1'', ar_Namespace = ''alice-a'', ar_Raw = ''p''\<rparr>"

definition demo_admission :: "nat admission_env" where
  "demo_admission =
     \<lparr>ae_review = (\<lambda>b. if b = ''ns1'' then Inr (Some demo_req1) else if b = ''ns2'' then Inr (Some demo_req2)
        else if b = ''pod'' then Inr (Some demo_req3) else Inl ''unknown''),
      ae_namespace = (\<lambda>b. Inr (Some (if b = ''n'' then demo_ns else demo_ns\<lparr>ns_Name := ''alice-b''\<rparr>))),
      ae_pod = (\<lambda>b. Inr (Some (if b = ''p'' then demo_pod else
        [\<lparr>ct_Name = ''b'', ct_Requests = Some [], ct_Limits = []\<rparr>]))),
      ae_Cmp = (\<lambda>a b. if a < b then -1 else if a = b then 0 else 1),
      ae_String = (\<lambda>q. fmt_d (int q)),
      ae_encode = (\<lambda>resp. Inr (if rp_Allowed resp then ''+'' @ the (rp_Patch resp) else ''-'' @ the (rp_Message resp)))\<rparr>"

definition demo_post :: "string \<Rightarrow> HttpRequest" where
  "demo_post b = \<lparr>hr_Method = ''POST'', hr_Path = ''/mutate'', hr_ContentType = jsonContentType, hr_Body = Inr b\<rparr>"

lemma demo_maps [simp]: "decodesMaps demo_admission"
  by (simp add: decodesMaps_def demo_admission_def demo_ns_def gm_ok_def)

lemma demo_decodes [simp]:
  "decodes demo_admission (demo_post ''ns1'') demo_req1"
  "decodes demo_admission (demo_post ''ns2'') demo_req2"
  "decodes demo_admission (demo_post ''pod'') demo_req3"
  by (simp_all add: decodes_def demo_post_def demo_admission_def)

lemma demo_kinds [simp]:
  "ar_Kind demo_req1 = ''Namespace''" "ar_Kind demo_req2 = ''Namespace''" "ar_Kind demo_req3 = ''Pod''"
  "ar_Username demo_req1 = ''u1''" "ar_Username demo_req2 = ''u2''" "ar_UID demo_req2 = ''8''"
  by (simp_all add: demo_req1_def demo_req2_def demo_req3_def)

definition demo_sv :: Server where
  "demo_sv = ListenForever (demo_env demo_url) demo_opa stored_order 8443 ''crt'' ''key'' ''s'' ''t'' ''c''"

lemma demo_sv_sel:
  "ac_projectResolver (sv_controller demo_sv) = demo_pr demo_url stored_order" "sv_start demo_sv = demo_start"
  by (simp_all add: demo_sv_def ListenForever_def NewAdmissionController_def NewProjectResolver_def
      demo_pr_def demo_start_def)

lemma demo_u2:
  "run_state (ResolveProjectsByUser (demo_pr demo_url stored_order) ''u2'') demo_start
     = (Ret ([\<lparr>up_IsOwner = False, up_ProjectID = ''p2'', up_ProjectName = ''team''\<rparr>], None), demo_after)"
  by (simp add: ResolveProjectsByUser_def demo_refresh)
    (simp add: demo_after_def demo_cache_def gm_at_def)

definition demo_team :: UserProjectInfo where
  "demo_team = \<lparr>up_IsOwner = False, up_ProjectID = ''p2'', up_ProjectName = ''team''\<rparr>"

lemma demo_team_sel [simp]:
  "up_IsOwner demo_team = False" "up_ProjectID demo_team = ''p2''" "up_ProjectName demo_team = ''team''"
  "HasPrefix (ns_Name demo_ns) ''team''"
  by (simp_all add: demo_team_def demo_ns_def HasPrefix_def)

lemma demo_raw [simp]:
  "ae_namespace demo_admission (ar_Raw demo_req1) = Inr (Some (demo_ns\<lparr>ns_Name := ''alice-b''\<rparr>))"
  "ae_namespace demo_admission (ar_Raw demo_req2) = Inr (Some demo_ns)"
  "ae_pod demo_admission (ar_Raw demo_req3) = Inr (Some demo_pod)"
  by (simp_all add: demo_admission_def demo_req1_def demo_req2_def demo_req3_def)

lemma demo_order [simp]: "pr_order (demo_pr urls ord) = ord"
  by (simp add: demo_pr_def)

lemma demo_place:
  "run_state (admitNamespace demo_admission (sv_controller demo_sv) demo_req2) (fresh demo_start)
     = (Ret (placeNamespace demo_ns demo_team),
        (fresh demo_start)\<lparr>as_resolver := demo_after\<lparr>st_loops := Suc (st_loops demo_after)\<rparr>\<rparr>)"
proof -
  have ord: "is_order (pr_order (ac_projectResolver (sv_controller demo_sv)))"
    by (simp add: demo_sv_sel)
  have sole: "soleProject [demo_team] = Some demo_team" by (simp add: soleProject_Some)
  show ?thesis
    by (simp add: run_admitNamespace [OF ord demo_maps] demo_sv_sel demo_u2 [folded demo_team_def] sole)
qed

lemma demo_reply:
  "\<exists>b. reply demo_admission demo_req2 (placeNamespace demo_ns demo_team) = \<lparr>rw_status = Some 200, rw_body = CHR ''+'' # b\<rparr>"
  by (simp add: reply_def placeNamespace_def reviewResponse_def demo_admission_def)

text \<open>The listing of the first project, before the second one fails.\<close>

definition demo_listed :: "listing list" where
  "demo_listed = [(\<lparr>e_ID = ''p1'', e_Name = ''alice''\<rparr>,
     [\<lparr>m_ID = [], m_UserID = ''u1'', m_ProjectID = [], m_Type = ''User'', m_PrincipalID = ''u1'',
       m_RoleTemplateID = ''project-member''\<rparr>], [''alice-a''])]"

lemma demo_broken:
  "run_state (cl_GetProjects (pr_client (demo_pr demo_url_broken stored_order))
     (pr_clusterID (demo_pr demo_url_broken stored_order))) (st_http demo_start) =
     (Inr [\<lparr>e_ID = ''p1'', e_Name = ''alice''\<rparr>, \<lparr>e_ID = ''p2'', e_Name = ''team''\<rparr>],
      demo_gets [''/v3/cluster/c/projects''])"
  "fetchAll (demo_pr demo_url_broken stored_order)
     [\<lparr>e_ID = ''p1'', e_Name = ''alice''\<rparr>, \<lparr>e_ID = ''p2'', e_Name = ''team''\<rparr>] (demo_gets [''/v3/cluster/c/projects'']) =
     (demo_listed, None, Some ''connection refused'',
      demo_gets [''/v3/cluster/c/projects'', ''/v3/projects/p1/projectroletemplatebindings'',
        ''/v3/cluster/c/namespaces?projectId=p1'', ''/v3/projects/p2/projectroletemplatebindings''])"
  by (simp_all add: demo_eval demo_gets_def demo_listed_def)

text \<open>Every reply that is written has a status.\<close>

lemma serveMux_status:
  "run_state (serveMux env ac r) s = (Ret (), s') \<Longrightarrow> rw_status (as_writer s') \<noteq> None"
  by (auto simp: serveMux_def ServeAdmitFunc_def Let_def setStatus_def
      split: prod.splits outcome.splits option.splits if_splits)

lemma serves_statuses:
  "serves env ac s0 s log \<Longrightarrow> list_all (\<lambda>(r, res, w). res = Ret () \<longrightarrow> rw_status w \<noteq> None) log"
  by (induction rule: serves.induct) (auto dest!: serveMux_status)

section \<open>Properties of the webhook\<close>

text \<open>
  C1: In every state the server can reach, a review of a namespace is answered in one of five ways.
  A review that allows the namespace is sent only when the resolver's answer in that state, from its
  cache or a refresh, is exactly one project for the requester, who does not own it, and the
  namespace's name starts with that project's (non-empty) name; its patch then sets the project
  annotation to that project and keeps every other annotation. So a namespace named without the
  prefix is denied to a member of one project, although \<open>TestAdmissionController\<close> creates one, and an
  annotation with a foreign project is replaced, although \<open>docs/README.md\<close> promises an error. The
  answer of the resolver is what it has recorded: a refresh that failed half-way leaves a part of
  Rancher's memberships, and then one recorded project need not be the only one in Rancher.
\<close>

theorem namespace_confined:
  assumes "serves env (sv_controller sv) (sv_start sv) s log"
    and "sv = ListenForever renv opa ord port cert key url tok cid" and "is_order ord" and "decodesMaps env"
    and "decodes env r req" and "ar_Kind req = ''Namespace''"
    and "run_state (ServeAdmitFunc env (sv_controller sv) r) (fresh s) = (res, s')"
  shows "(\<exists>m. res = Panic m)
    \<or> (\<exists>err. as_writer s' = \<lparr>rw_status = Some 500, rw_body = err\<rparr>)
    \<or> as_writer s' = \<lparr>rw_status = Some 200, rw_body = ''''\<rparr>
    \<or> (\<exists>info ns bytes t.
         run_state (ResolveProjectsByUser (ac_projectResolver (sv_controller sv)) (ar_Username req)) s
           = (Ret ([info], None), t) \<and>
         \<not> up_IsOwner info \<and> up_ProjectID info \<noteq> '''' \<and> up_ProjectName info \<noteq> '''' \<and>
         ae_namespace env (ar_Raw req) = Inr (Some ns) \<and>
         as_writer s' = \<lparr>rw_status = Some 200, rw_body = bytes\<rparr> \<and>
         (if HasPrefix (ns_Name ns) (up_ProjectName info)
          then ae_encode env \<lparr>rp_UID = ar_UID req, rp_Allowed = True,
            rp_Patch = Some (Marshal (JArr [JObj [(''op'', JStr ''add''), (''path'', JStr ''/metadata/annotations''),
              (''value'', map_to_json JStr
                 (gm_set (ns_Annotations ns) ''field.cattle.io/projectId'' (up_ProjectID info)))]])),
            rp_Message = None\<rparr> = Inr bytes
          else ae_encode env \<lparr>rp_UID = ar_UID req, rp_Allowed = False, rp_Patch = None,
            rp_Message = Some (prefixDenial (up_ProjectName info))\<rparr> = Inr bytes))"
proof -
  let ?ac = "sv_controller sv" and ?pr = "fst (NewProjectResolver renv opa ord url cid tok)"
  from assms(2) have pr: "ac_projectResolver ?ac = ?pr"
    and start: "sv_start sv = \<lparr>st_http = [], st_cache = emptyCache, st_loops = 0\<rparr>"
    by (auto simp: ListenForever_def NewAdmissionController_def NewProjectResolver_def)
  have "is_order ord \<and> stateOk url tok s"
    using ac.serves_inv [OF assms(1) pr] assms(3) start by (simp add: stateOk_def)
  then have safe: "is_order ord \<and> stateOk url tok (as_resolver (fresh s))" by simp
  obtain x s1 where run: "run_state (admitNamespace env ?ac req) (fresh s) = (x, s1)"
    by (metis prod.collapse)
  have w: "as_writer s1 = newWriter"
    using admitNamespace_writer [OF _ assms(4) run] assms(3) pr by simp
  show ?thesis
  proof (cases x)
    case (Panic m)
    with run assms(5-7) have "res = Panic m"
      by (auto simp: ServeAdmitFunc_def DoServeAdmitFunc_def decodes_def split: sum.splits)
    then show ?thesis by blast
  next
    case (Ret v)
    have s': "as_writer s' = reply env req v"
      using run_ServeAdmitFunc [OF assms(5), of ?ac s v s1] run Ret w assms(6,7) by simp
    show ?thesis
    proof (cases v)
      case (Returned e)
      with s' show ?thesis by (cases e) (simp_all add: reply_def)
    next
      case (Decided allowed reason ops)
      from ac.placed_in_named_project [OF pr safe assms(4)] run Ret Decided
      obtain info ns t where q: "run_state (ResolveProjectsByUser ?pr (ar_Username req)) s = (Ret ([info], None), t)"
          "\<not> up_IsOwner info" "namedInfo info" "ae_namespace env (ar_Raw req) = Inr (Some ns)"
        and v: "placeNamespace ns info = Decided allowed reason ops" by fastforce
      show ?thesis
        using q v s' Decided pr
        by (auto simp: placeNamespace_def reply_def reviewResponse_def annotationPatch_def patchJson_def patchText_def
            namedInfo_def split: if_splits sum.splits)
    qed
  qed
qed

theorem namespace_confined_witness:
  "\<exists>info ns bytes t.
     run_state (ResolveProjectsByUser (demo_pr demo_url stored_order) ''u2'') demo_start = (Ret ([info], None), t) \<and>
     up_ProjectID info \<noteq> '''' \<and> ae_namespace demo_admission ''n'' = Inr (Some ns) \<and>
     HasPrefix (ns_Name ns) (up_ProjectName info) \<and>
     as_writer (snd (run_state (ServeAdmitFunc demo_admission (sv_controller demo_sv) (demo_post ''ns2'')) (fresh demo_start)))
       = \<lparr>rw_status = Some 200, rw_body = bytes\<rparr> \<and>
     ae_encode demo_admission \<lparr>rp_UID = ''8'', rp_Allowed = True,
       rp_Patch = Some (Marshal (JArr [JObj [(''op'', JStr ''add''), (''path'', JStr ''/metadata/annotations''),
         (''value'', map_to_json JStr
            (gm_set (ns_Annotations ns) ''field.cattle.io/projectId'' (up_ProjectID info)))]])),
       rp_Message = None\<rparr> = Inr bytes"
proof -
  obtain b where b: "reply demo_admission demo_req2 (placeNamespace demo_ns demo_team)
      = \<lparr>rw_status = Some 200, rw_body = CHR ''+'' # b\<rparr>"
    using demo_reply by blast
  let ?s' = "(fresh demo_start)\<lparr>as_resolver := demo_after\<lparr>st_loops := Suc (st_loops demo_after)\<rparr>,
    as_writer := \<lparr>rw_status = Some 200, rw_body = CHR ''+'' # b\<rparr>\<rparr>"
  have run: "run_state (ServeAdmitFunc demo_admission (sv_controller demo_sv) (demo_post ''ns2'')) (fresh demo_start)
      = (Ret (), ?s')"
    using run_ServeAdmitFunc [OF demo_decodes(2), of "sv_controller demo_sv" demo_start] demo_place b by simp
  have start: "serves demo_admission (sv_controller demo_sv) (sv_start demo_sv) demo_start []"
    unfolding demo_sv_sel by (rule serves.idle)
  have "is_order stored_order" and raw: "ar_Raw demo_req2 = ''n''" by (simp_all add: demo_req2_def)
  from namespace_confined [OF start demo_sv_def this(1) demo_maps demo_decodes(2) demo_kinds(2) run]
  show ?thesis
    by (simp add: run demo_sv_sel demo_u2 [folded demo_team_def] raw [symmetric] del: Marshal.simps)
qed

text \<open>What the handler answers on a pod of a normal user's project.\<close>

lemma run_admitPod:
  assumes "is_order (pr_order (ac_projectResolver ac))" and "ae_pod env (ar_Raw req) = Inr (Some cs)"
    and "run_state (ResolveProjectIdbyNamespace (ac_projectResolver ac) (ar_Namespace req)) (as_resolver s)
      = (Ret (pid, cached, e), t)" and "pid \<noteq> ''''"
    and "run_state (FindUserByProject (ac_projectResolver ac) pid) t = (Ret (u, False, None), t')"
  shows "\<exists>reason ops.
    run_state (admitPod env ac req) s = (Ret (Decided (list_all (containerOk env) cs) reason ops),
      s\<lparr>as_resolver := t'\<lparr>st_loops := st_loops t' + length cs\<rparr>\<rparr>) \<and>
    mset ops = mset (allMissingLimits env 0 cs) \<and>
    (\<not> list_all (containerOk env) cs \<longrightarrow> (\<exists>c \<in> set cs. reason \<in> offences env c))"
proof -
  obtain a d ops t2 where cc: "run_state (checkContainers env (pr_order (ac_projectResolver ac)) 0 cs
      (True, ''denied'', [])) t' = ((a, d, ops), t2)"
    by (metis prod.exhaust)
  with run_checkContainers [OF assms(1) cc] show ?thesis
    using assms(2-5) by (intro exI [of _ d] exI [of _ ops]) (auto simp: admitPod_def)
qed

text \<open>
  C2: The decision on a pod of a normal user's project does not depend on the order in which Go visits
  the maps: the pod is allowed exactly when every container states its requests and no limit is above
  the request of the same resource. An allowed pod is patched with one \<open>add\<close> of a limit equal to
  the request for each requested resource without a limit, a refused one with a reason that holds of
  one of its containers. This is the opposite of \<open>docs/README.md\<close>, by which a missing limit is an error
  and only a request above its limit is forbidden: here a limit above the request is refused, as that of
  \<open>test/pod.yaml\<close> is with 100Mi and 200Mi, and a request above its limit passes.
\<close>

theorem pod_decision:
  assumes "is_order (pr_order pr)" and "decodes env r req" and "ar_Kind req = ''Pod''"
    and "ae_pod env (ar_Raw req) = Inr (Some cs)"
    and "run_state (ResolveProjectIdbyNamespace pr (ar_Namespace req)) s = (Ret (pid, cached, e), t)" and "pid \<noteq> ''''"
    and "run_state (FindUserByProject pr pid) t = (Ret (u, False, None), t')"
  shows "\<exists>reason ops.
    run_state (ServeAdmitFunc env (NewAdmissionController pr) r) (fresh s) =
      (Ret (), \<lparr>as_resolver = t'\<lparr>st_loops := st_loops t' + length cs\<rparr>,
        as_writer = reply env req (Decided (list_all (containerOk env) cs) reason ops)\<rparr>) \<and>
    mset ops = mset (allMissingLimits env 0 cs) \<and>
    (\<not> list_all (containerOk env) cs \<longrightarrow> (\<exists>c \<in> set cs. reason \<in> offences env c))"
proof -
  let ?ac = "NewAdmissionController pr"
  have ord: "is_order (pr_order (ac_projectResolver ?ac))" using assms(1) by simp
  obtain reason ops where pod: "run_state (admitPod env ?ac req) (fresh s) =
      (Ret (Decided (list_all (containerOk env) cs) reason ops),
       (fresh s)\<lparr>as_resolver := t'\<lparr>st_loops := st_loops t' + length cs\<rparr>\<rparr>)"
    "mset ops = mset (allMissingLimits env 0 cs)"
    "\<not> list_all (containerOk env) cs \<longrightarrow> (\<exists>c \<in> set cs. reason \<in> offences env c)"
    using run_admitPod [OF ord assms(4), of "fresh s" pid cached e t u t'] assms(5-7) by auto
  from run_ServeAdmitFunc [OF assms(2), of ?ac s] pod(1) assms(3)
  have "run_state (ServeAdmitFunc env ?ac r) (fresh s) = (Ret (), (fresh s)\<lparr>
      as_resolver := t'\<lparr>st_loops := st_loops t' + length cs\<rparr>,
      as_writer := reply env req (Decided (list_all (containerOk env) cs) reason ops)\<rparr>)"
    by simp
  with pod(2,3) show ?thesis
    by (intro exI [of _ reason] exI [of _ ops]) (simp add: fresh_def)
qed

lemma demo_lookup:
  "run_state (ResolveProjectIdbyNamespace (demo_pr demo_url stored_order) (ar_Namespace demo_req3)) demo_after
      = (Ret (''p1'', True, None), demo_after)"
  "run_state (FindUserByProject (demo_pr demo_url stored_order) ''p1'') demo_after
      = (Ret (''u1'', False, None), demo_after\<lparr>st_loops := 3\<rparr>)"
  by (simp_all add: ResolveProjectIdbyNamespace_def demo_req3_def demo_after_def demo_cache_def gm_at_def
      FindUserByProject_def findUserByProject_def gm_keys_def stored_order_def)

theorem pod_decision_witness:
  "\<exists>reason ops.
    run_state (ServeAdmitFunc demo_admission (NewAdmissionController (demo_pr demo_url stored_order)) (demo_post ''pod''))
      (fresh demo_after) =
      (Ret (), \<lparr>as_resolver = demo_after\<lparr>st_loops := 4\<rparr>,
        as_writer = reply demo_admission demo_req3 (Decided True reason ops)\<rparr>) \<and>
    mset ops = {#limitPatch 0 ''memory'' ''64''#}"
proof -
  let ?pr = "demo_pr demo_url stored_order"
  have order: "is_order (pr_order ?pr)" by simp
  have ok: "list_all (containerOk demo_admission) demo_pod"
    by (simp add: demo_pod_def containerOk_def requestsOf_def exceeds_def gm_keys_def demo_admission_def)
  have mem: "fmt_d (int 64) = ''64''"
    by (simp add: fmt_d_def dec_digits.simps dec_char_def)
  have missing: "allMissingLimits demo_admission 0 demo_pod = [limitPatch 0 ''memory'' ''64'']"
    using mem by (simp add: demo_pod_def missingLimits_def requestsOf_def unlimited_def gm_keys_def demo_admission_def)
  have len: "length demo_pod = 1" by (simp add: demo_pod_def)
  from pod_decision [OF order demo_decodes(3) demo_kinds(3) demo_raw(3) demo_lookup(1) _ demo_lookup(2)]
  show ?thesis by (simp add: ok missing len)
qed

text \<open>
  C38: A request that is not a POST of a readable JSON admission review changes nothing: it gets the
  status of the first check that fails and the error as text, and the 500 that the caller tries to
  write afterwards has no effect. A request that passes the checks carries a review.
\<close>

theorem bad_request_refused:
  "(if hr_Method r \<noteq> ''POST'' then
        run_state (ServeAdmitFunc env ac r) (fresh s) = (Ret (), \<lparr>as_resolver = s, as_writer = \<lparr>rw_status = Some 405,
           rw_body = ''Invalid method '' @ hr_Method r @ '', only POST requests are allowed''\<rparr>\<rparr>)
      else if isl (hr_Body r) then
        run_state (ServeAdmitFunc env ac r) (fresh s) = (Ret (), \<lparr>as_resolver = s, as_writer = \<lparr>rw_status = Some 400,
           rw_body = ''Could not read request body: '' @ projl (hr_Body r)\<rparr>\<rparr>)
      else if hr_ContentType r \<noteq> ''application/json'' then
        run_state (ServeAdmitFunc env ac r) (fresh s) = (Ret (), \<lparr>as_resolver = s, as_writer = \<lparr>rw_status = Some 400,
           rw_body = ''Unsupported content type '' @ hr_ContentType r @ '', only application/json is supported''\<rparr>\<rparr>)
      else if isl (ae_review env (projr (hr_Body r))) then
        run_state (ServeAdmitFunc env ac r) (fresh s) = (Ret (), \<lparr>as_resolver = s, as_writer = \<lparr>rw_status = Some 400,
           rw_body = ''Could not deserialize request: '' @ projl (ae_review env (projr (hr_Body r)))\<rparr>\<rparr>)
      else if ae_review env (projr (hr_Body r)) = Inr None then
        run_state (ServeAdmitFunc env ac r) (fresh s) = (Ret (), \<lparr>as_resolver = s, as_writer = \<lparr>rw_status = Some 400,
           rw_body = ''Malformed admission review: request is nil''\<rparr>\<rparr>)
      else \<exists>req. decodes env r req)"
  by (cases "hr_Body r"; cases "ae_review env (projr (hr_Body r))")
    (auto simp: ServeAdmitFunc_def DoServeAdmitFunc_def refuse_def fresh_def jsonContentType_def
      setStatus_def newWriter_def decodes_def Let_def split: option.split)

text \<open>
  \<open>Ignoring\<close> a namespace request (requester with no project, with several, or owner of the only
  one) is not the same as allowing it: the reply is an empty body with status 200 and not an
  admission review.
\<close>

lemma ignored_namespace_gets_no_review:
  assumes "decodes env r req" and "ar_Kind req = ''Namespace''"
    and "run_state (ResolveProjectsByUser pr (ar_Username req)) s = (Ret (plist, None), t)"
    and "soleProject plist = None"
  shows "run_state (ServeAdmitFunc env (NewAdmissionController pr) r) (fresh s) =
     (Ret (), \<lparr>as_resolver = t, as_writer = \<lparr>rw_status = Some 200, rw_body = ''''\<rparr>\<rparr>)"
proof -
  have "run_state (admitNamespace env (NewAdmissionController pr) req) (fresh s)
      = (Ret (Returned None), (fresh s)\<lparr>as_resolver := t\<rparr>)"
    using assms(3,4) by (auto simp: admitNamespace_def NewAdmissionController_def soleProject_None)
  with run_ServeAdmitFunc [OF assms(1), of "NewAdmissionController pr" s "Returned None"] assms(2)
  show ?thesis by (simp add: reply_def fresh_def)
qed

lemma ignored_namespace_gets_no_review_witness:
  "run_state (ServeAdmitFunc demo_admission (NewAdmissionController (demo_pr demo_url stored_order)) (demo_post ''ns1''))
     (fresh demo_after) = (Ret (), \<lparr>as_resolver = demo_after, as_writer = \<lparr>rw_status = Some 200, rw_body = ''''\<rparr>\<rparr>)"
proof (rule ignored_namespace_gets_no_review [OF demo_decodes(1) demo_kinds(1)])
  show "run_state (ResolveProjectsByUser (demo_pr demo_url stored_order) (ar_Username demo_req1)) demo_after =
      (Ret (gm_at [] (User2projects demo_cache) ''u1'', None), demo_after)"
    by (simp add: ResolveProjectsByUser_def demo_after_def demo_cache_def gm_at_def)
  show "soleProject (gm_at [] (User2projects demo_cache) ''u1'') = None"
    by (simp add: demo_cache_def gm_at_def soleProject_def)
qed

text \<open>
  C24: A refresh that fails half way turns an ignored requester into a placed one. Here the listing of
  a later project fails: the first review ends with the error, but the retry of the same review
  finds in the partial cache only one of the requester's projects and puts the namespace there.
\<close>

theorem retry_uses_partial_cache:
  assumes "is_order (pr_order pr)" and "decodesMaps env"
    and "gm_at [] (User2projects (st_cache s)) (ar_Username req) = []"
    and "run_state (cl_GetProjects (pr_client pr) (pr_clusterID pr)) (st_http s) = (Inr es, h)"
    and "fetchAll pr es h = (ds, None, Some e, h')"
    and "soleProject (projectsOfUser ds (ar_Username req)) = Some info"
    and "ae_namespace env (ar_Raw req) = Inr (Some ns)"
  shows "\<exists>s1 s2 p unread.
     run_state (admitNamespace env (NewAdmissionController pr) req) (fresh s) = (Ret (Returned (Some e)), s1) \<and>
     run_state (admitNamespace env (NewAdmissionController pr) req) s1 = (Ret (placeNamespace ns info), s2) \<and>
     es = map fst ds @ p # unread"
proof -
  let ?ac = "NewAdmissionController pr"
  let ?t = "s\<lparr>st_http := h', st_cache := cacheOf ds None, st_loops := Suc (Suc (st_loops s))\<rparr>"
  have ord: "is_order (pr_order (ac_projectResolver ?ac))"
    using assms(1) by simp
  have sole: "projectsOfUser ds (ar_Username req) = [info]" using assms(6) by (simp add: soleProject_Some)
  have first: "run_state (ResolveProjectsByUser pr (ar_Username req)) s = (Ret ([], Some e), ?t)"
    using assms(1,3-5) by (simp add: ResolveProjectsByUser_def run_UpdateCache)
  have second: "run_state (ResolveProjectsByUser pr (ar_Username req)) ?t = (Ret ([info], None), ?t)"
    by (simp add: ResolveProjectsByUser_def cacheOf_users sole)
  note run = run_admitNamespace [OF ord assms(2), of req]
  have "run_state (admitNamespace env ?ac req) (fresh s) = (Ret (Returned (Some e)), (fresh s)\<lparr>as_resolver := ?t\<rparr>)"
    using first by (simp add: run)
  moreover have "fst (run_state (admitNamespace env ?ac req) ((fresh s)\<lparr>as_resolver := ?t\<rparr>)) = Ret (placeNamespace ns info)"
    using second assms(6,7) sole by (simp add: run)
  moreover obtain p unread where "es = map fst ds @ p # unread"
    using fetchAll_prefix [OF assms(5)] by blast
  ultimately show ?thesis
    by (metis prod.collapse)
qed

theorem retry_uses_partial_cache_witness:
  "\<exists>s1 s2 p unread.
     run_state (admitNamespace demo_admission (NewAdmissionController (demo_pr demo_url_broken stored_order)) demo_req1)
       (fresh demo_start) = (Ret (Returned (Some ''connection refused'')), s1) \<and>
     run_state (admitNamespace demo_admission (NewAdmissionController (demo_pr demo_url_broken stored_order)) demo_req1)
       s1 = (Ret (placeNamespace (demo_ns\<lparr>ns_Name := ''alice-b''\<rparr>)
         \<lparr>up_IsOwner = False, up_ProjectID = ''p1'', up_ProjectName = ''alice''\<rparr>), s2) \<and>
     [\<lparr>e_ID = ''p1'', e_Name = ''alice''\<rparr>, \<lparr>e_ID = ''p2'', e_Name = ''team''\<rparr>] =
       map fst demo_listed @ p # unread"
proof -
  have sole: "soleProject (projectsOfUser demo_listed (ar_Username demo_req1))
      = Some \<lparr>up_IsOwner = False, up_ProjectID = ''p1'', up_ProjectName = ''alice''\<rparr>"
    by (simp add: demo_listed_def projectsOfUser_def membershipsIn_def infoOf_def soleProject_def)
  have start: "gm_at [] (User2projects (st_cache demo_start)) (ar_Username demo_req1) = []" by simp
  have order: "is_order (pr_order (demo_pr demo_url_broken stored_order))" by simp
  show ?thesis
    by (rule retry_uses_partial_cache [OF order demo_maps start demo_broken sole demo_raw(1)])
qed

text \<open>
  The requirement to state requests is met by an empty list of requests: a pod whose containers
  all have one is allowed as it is, without any limit.
\<close>

lemma empty_requests_pass:
  assumes "is_order ord" and "list_all (\<lambda>c. ct_Requests c = Some []) cs"
  shows "run_state (checkContainers env ord i cs (a, d, ops)) s
    = ((a, d, ops), s\<lparr>st_loops := st_loops s + length cs\<rparr>)"
  using assms(2)
proof (induction cs arbitrary: i s)
  case Nil
  then show ?case by simp
next
  case (Cons c cs)
  have "ord (st_loops s) [] = []" using is_order_length [OF assms(1)] by (metis length_0_conv)
  with Cons show ?case by (simp add: checkContainer_def gm_keys_def)
qed

lemma empty_requests_pass_witness:
  "run_state (checkContainers demo_admission stored_order 0 [\<lparr>ct_Name = ''b'', ct_Requests = Some [], ct_Limits = []\<rparr>]
      (True, ''denied'', [])) demo_start = ((True, ''denied'', []), demo_start\<lparr>st_loops := 1\<rparr>)"
  using empty_requests_pass [OF is_order_examples(1), of "[\<lparr>ct_Name = ''b'', ct_Requests = Some [], ct_Limits = []\<rparr>]"
      demo_admission 0 True "''denied''" "[]" demo_start]
  by (simp add: demo_start_def)

text \<open>
  C21: The server as \<open>main\<close> starts it listens on port 8443 and, over any sequence of requests, keeps
  its cache well-formed and only ever reads Rancher at RANCHER_URL with RANCHER_TOKEN or publishes to
  the policy agent; every request whose handler does not panic gets a status.
\<close>

theorem server_invariant:
  assumes "serves env (sv_controller (admission_main renv opa ord Getenv))
      (sv_start (admission_main renv opa ord Getenv)) s log" and "is_order ord"
  shows "sv_Addr (admission_main renv opa ord Getenv) = '':8443'' \<and>
    cacheOk (st_cache s) \<and>
    list_all (allowedReq (Getenv ''RANCHER_URL'') (Getenv ''RANCHER_TOKEN'')) (st_http s) \<and>
    list_all (\<lambda>(r, res, w). res = Ret () \<longrightarrow> rw_status w \<noteq> None) log"
proof -
  let ?sv = "admission_main renv opa ord Getenv"
  have pr: "ac_projectResolver (sv_controller ?sv) =
      fst (NewProjectResolver renv opa ord (Getenv ''RANCHER_URL'') (Getenv ''RANCHER_CLUSTER_ID'') (Getenv ''RANCHER_TOKEN''))"
    and start: "sv_start ?sv = \<lparr>st_http = [], st_cache = emptyCache, st_loops = 0\<rparr>"
    and addr: "sv_Addr ?sv = '':'' @ fmt_d 8443"
    by (auto simp: admission_main_def ListenForever_def NewAdmissionController_def NewProjectResolver_def)
  have "fmt_d 8443 = ''8443''"
    by (simp add: fmt_d_def dec_digits.simps dec_char_def)
  moreover have "stateOk (Getenv ''RANCHER_URL'') (Getenv ''RANCHER_TOKEN'') s"
    using ac.serves_inv [OF assms(1) pr] assms(2) start by (simp add: stateOk_def)
  ultimately show ?thesis
    using addr serves_statuses [OF assms(1)] by (simp add: stateOk_def)
qed

theorem server_invariant_witness:
  "\<exists>s entry. serves demo_admission (sv_controller (admission_main (demo_env demo_url) demo_opa stored_order (\<lambda>x. x)))
      (sv_start (admission_main (demo_env demo_url) demo_opa stored_order (\<lambda>x. x))) s [entry] \<and>
    cacheOk (st_cache s) \<and> list_all (allowedReq ''RANCHER_URL'' ''RANCHER_TOKEN'') (st_http s)"
proof -
  let ?sv = "admission_main (demo_env demo_url) demo_opa stored_order (\<lambda>x. x)"
  let ?run = "run_state (serveMux demo_admission (sv_controller ?sv) (demo_post ''ns2''))
    \<lparr>as_resolver = sv_start ?sv, as_writer = newWriter\<rparr>"
  have run: "serves demo_admission (sv_controller ?sv) (sv_start ?sv) (as_resolver (snd ?run))
      ([] @ [(demo_post ''ns2'', fst ?run, as_writer (snd ?run))])"
    by (rule serves.request [OF serves.idle]) simp
  from run server_invariant [OF run is_order_examples(1)] show ?thesis
    unfolding append_Nil by blast
qed

end
