(* ===== verification/Json_Roundtrip.thy ===== *)
theory Json_Roundtrip
  imports Go_Json
begin

text \<open>
  The parser inverts the encoder: a JSON value whose strings are ASCII and whose numbers are integers
  is read back as it was written, escapes included, whatever follows it.
\<close>

section \<open>Strings\<close>

definition ascii :: "string \<Rightarrow> bool" where
  "ascii s \<longleftrightarrow> list_all (\<lambda>c. byte_of c < 128) s"

lemma char_of_byte_of [simp]: "char_of (byte_of c) = c"
  by (simp add: byte_of_def)

lemma hex_val_char: "d < 16 \<Longrightarrow> hex_val (hex_char d) = Some d"
proof -
  assume "d < 16"
  then have "d \<in> {0, 1, 2, 3, 4, 5, 6, 7, 8, 9, 10, 11, 12, 13, 14, 15}"
    unfolding insert_iff empty_iff by presburger
  then show ?thesis
    by (auto simp: hex_char_def hex_val_def in_range_def byte_of_def)
qed

lemma hex_val_zero: "hex_val (CHR ''0'') = Some 0"
  by (simp add: hex_val_def in_range_def byte_of_def)

lemma unescape_u_byte:
  assumes "byte_of c < 128"
  shows "unescape_u (CHR ''0'' # CHR ''0'' # hex_char (byte_of c div 16) # hex_char (byte_of c mod 16) # t)
    = Some ([c], t)"
proof -
  have "byte_of c div 16 * 16 + byte_of c mod 16 = byte_of c" by simp
  moreover have "hex_val (hex_char (byte_of c div 16)) = Some (byte_of c div 16)"
    using assms by (intro hex_val_char) linarith
  moreover have "hex_val (hex_char (byte_of c mod 16)) = Some (byte_of c mod 16)"
    by (intro hex_val_char) simp
  ultimately show ?thesis
    using assms by (simp add: unescape_u_def hex_val_zero utf8_encode_def)
qed

lemma control_bytes:
  "byte_of c = 10 \<longleftrightarrow> c = CHR 0x0A" "byte_of c = 13 \<longleftrightarrow> c = CHR 0x0D" "byte_of c = 9 \<longleftrightarrow> c = CHR 0x09"
proof -
  have "byte_of (CHR 0x0A) = 10" "byte_of (CHR 0x0D) = 13" "byte_of (CHR 0x09) = 9"
    by (simp_all add: byte_of_def)
  then show "byte_of c = 10 \<longleftrightarrow> c = CHR 0x0A" "byte_of c = 13 \<longleftrightarrow> c = CHR 0x0D" "byte_of c = 9 \<longleftrightarrow> c = CHR 0x09"
    by (metis byte_of_inj)+
qed

lemma parse_chars_ascii:
  assumes "byte_of c < 128"
  shows "parse_chars (Suc fuel) (escape_ascii c @ t) = map_option (\<lambda>(u, r). (c # u, r)) (parse_chars fuel t)"
proof -
  consider (quote) "c = CHR 0x22 \<or> c = CHR 0x5C" | (nl) "c = CHR 0x0A" | (cr) "c = CHR 0x0D" | (tab) "c = CHR 0x09"
    | (hex) "c \<noteq> CHR 0x22" "c \<noteq> CHR 0x5C" "c \<noteq> CHR 0x0A" "c \<noteq> CHR 0x0D" "c \<noteq> CHR 0x09"
        "byte_of c < 32 \<or> c = CHR ''<'' \<or> c = CHR ''>'' \<or> c = CHR ''&''"
    | (plain) "c \<noteq> CHR 0x22" "c \<noteq> CHR 0x5C" "\<not> byte_of c < 32" "c \<noteq> CHR ''<''" "c \<noteq> CHR ''>''" "c \<noteq> CHR ''&''"
    by blast
  then show ?thesis
  proof cases
    case quote
    then show ?thesis by (auto simp: escape_ascii_def unescape_simple_def)
  next
    case nl
    then show ?thesis by (simp add: escape_ascii_def unescape_simple_def byte_of_def)
  next
    case cr
    then show ?thesis by (simp add: escape_ascii_def unescape_simple_def byte_of_def)
  next
    case tab
    then show ?thesis by (simp add: escape_ascii_def unescape_simple_def byte_of_def)
  next
    case hex
    have "byte_of c \<noteq> 10" "byte_of c \<noteq> 13" "byte_of c \<noteq> 9"
      using hex(3-5) by (simp_all add: control_bytes)
    with hex have "escape_ascii c = [CHR 0x5C, CHR ''u'', CHR ''0'', CHR ''0'', hex_char (byte_of c div 16), hex_char (byte_of c mod 16)]"
      by (simp only: escape_ascii_def if_False if_True simp_thms)
    then show ?thesis
      by (simp only: append_Cons append_Nil parse_chars.simps list.case unescape_u_byte [OF assms]) simp
  next
    case plain
    then have "byte_of c \<noteq> 10" "byte_of c \<noteq> 13" "byte_of c \<noteq> 9" by auto
    with plain have "escape_ascii c = [c]" by (simp add: escape_ascii_def)
    with plain assms show ?thesis by simp
  qed
qed

lemma escape_ascii_string: "ascii s \<Longrightarrow> escape s = concat (map escape_ascii s)"
  by (induction s) (simp_all add: ascii_def)

lemma parse_chars_escape:
  assumes "ascii s" and "length s < fuel"
  shows "parse_chars fuel (escape s @ CHR 0x22 # r) = Some (s, r)"
  unfolding escape_ascii_string [OF assms(1)]
  using assms
proof (induction s arbitrary: fuel)
  case Nil
  then show ?case by (cases fuel) simp_all
next
  case (Cons c s)
  then obtain f where f: "fuel = Suc f" "length s < f" by (cases fuel) auto
  from Cons.prems have "byte_of c < 128" "ascii s" by (simp_all add: ascii_def)
  with Cons.IH [of f] f show ?case
    by (simp add: parse_chars_ascii del: parse_chars.simps)
qed

lemma escape_ascii_length: "1 \<le> length (escape_ascii c)"
  by (simp add: escape_ascii_def)

lemma escape_length: "ascii s \<Longrightarrow> length s \<le> length (escape s)"
proof (induction s)
  case Nil
  then show ?case by simp
next
  case (Cons c s)
  then have "escape (c # s) = escape_ascii c @ escape s" "length s \<le> length (escape s)"
    by (simp_all add: ascii_def)
  then show ?case
    using escape_ascii_length [of c] by (simp only: length_append list.size)
qed

lemma parse_key:
  "ascii s \<Longrightarrow> length (escape s) < fuel \<Longrightarrow> parse_chars fuel (escape s @ CHR 0x22 # r) = Some (s, r)"
  using escape_length [of s] by (intro parse_chars_escape) simp_all

section \<open>Numbers\<close>

definition unsigned_part :: "string \<Rightarrow> string" where
  "unsigned_part t = (case t of c # r \<Rightarrow> if c = CHR ''-'' then r else t | [] \<Rightarrow> t)"

definition intLiteral :: "string \<Rightarrow> bool" where
  "intLiteral t \<longleftrightarrow> unsigned_part t \<noteq> [] \<and> list_all is_digit (unsigned_part t)
     \<and> (hd (unsigned_part t) = CHR ''0'' \<longrightarrow> tl (unsigned_part t) = [])"

text \<open>What may follow a value in the output of the encoder.\<close>

definition closing :: "string \<Rightarrow> bool" where
  "closing r \<longleftrightarrow> (case r of [] \<Rightarrow> True | c # _ \<Rightarrow> c = CHR '','' \<or> c = CHR '']'' \<or> c = CHR ''}'')"

lemma closing_simps [simp]:
  "closing []" "closing (CHR '','' # r)" "closing (CHR '']'' # r)" "closing (CHR ''}'' # r)"
  by (simp_all add: closing_def)

lemma takeWhile_digits:
  "list_all is_digit ds \<Longrightarrow> closing r \<Longrightarrow> takeWhile is_digit (ds @ r) = ds \<and> dropWhile is_digit (ds @ r) = r"
  by (induction ds) (auto simp: closing_def is_digit_def split: list.splits)

lemma no_fraction: "closing r \<Longrightarrow> parse_frac r = Some ([], r) \<and> parse_exp r = Some ([], r)"
  by (auto simp: closing_def parse_frac_def parse_exp_def split: list.splits)

lemma parse_number_int:
  assumes "intLiteral t" and "closing r"
  shows "parse_number (t @ r) = Some (t, r)"
proof -
  have "t = (if t \<noteq> [] \<and> hd t = CHR ''-'' then ''-'' else []) @ unsigned_part t"
    by (cases t) (auto simp: unsigned_part_def)
  then obtain sg ds where t: "t = sg @ ds" and sg: "sg = [] \<or> sg = ''-''" and ds: "ds = unsigned_part t"
    by metis
  obtain d ds' where d: "ds = d # ds'" and dig: "is_digit d" "list_all is_digit ds'"
    and zero: "d = CHR ''0'' \<longrightarrow> ds' = []"
    using assms(1) unfolding ds intLiteral_def by (cases "unsigned_part t") auto
  have nm: "d \<noteq> CHR ''-''" using dig(1) minus_not_digit by auto
  have sgn: "(case sg @ d # ds' @ r of x # _ \<Rightarrow> if x = CHR ''-'' then [x] else [] | [] \<Rightarrow> []) = sg"
    using sg nm by auto
  have int_part: "(case d # ds' @ r of x # _ \<Rightarrow> if x = CHR ''0'' then [x] else takeWhile is_digit (d # ds' @ r) | [] \<Rightarrow> [])
      = d # ds'"
    using zero dig takeWhile_digits [of "d # ds'" r] assms(2) by auto
  have drops: "drop (length sg) (sg @ d # ds' @ r) = d # ds' @ r" "drop (length (d # ds')) (d # ds' @ r) = r"
    by simp_all
  show ?thesis
    unfolding t d parse_number_def Let_def append.assoc append_Cons sgn drops int_part
    using no_fraction [OF assms(2)] by simp
qed

lemma dec_digits_hd: "0 < n \<Longrightarrow> hd (dec_digits n) \<noteq> CHR ''0''"
proof (induction n rule: dec_digits.induct)
  case (1 n)
  show ?case
  proof (cases "n < 10")
    case True
    with 1 have "n \<in> {1, 2, 3, 4, 5, 6, 7, 8, 9}" by auto
    with True show ?thesis by (auto simp: dec_digits_small dec_char_def)
  next
    case False
    with "1.IH" show ?thesis by (simp add: dec_digits_step)
  qed
qed

lemma intLiteral_fmt_d [simp]: "intLiteral (fmt_d i)"
proof -
  have digits: "list_all is_digit (dec_digits n)" for n
    using dec_digits_digits by (auto simp: list_all_iff)
  have unsigned: "unsigned_part (dec_digits n) = dec_digits n" for n
    using dec_digits_digits [of "hd (dec_digits n)" n] minus_not_digit
    by (auto simp: unsigned_part_def split: list.splits)
  have "tl (dec_digits n) = []" if "hd (dec_digits n) = CHR ''0''" for n
    using that dec_digits_hd [of n] by (cases "n = 0") (simp_all add: dec_digits_small)
  with digits unsigned show ?thesis
    by (auto simp: intLiteral_def fmt_d_def unsigned_part_def)
qed

section \<open>Values\<close>

fun plainJson :: "jval \<Rightarrow> bool" where
  "plainJson JNull = True"
| "plainJson (JBool b) = True"
| "plainJson (JNum t) = intLiteral t"
| "plainJson (JStr s) = ascii s"
| "plainJson (JArr vs) = list_all plainJson vs"
| "plainJson (JObj kvs) = list_all (\<lambda>(k, v). ascii k \<and> plainJson v) kvs"

lemma intLiteral_head:
  assumes "intLiteral t"
  shows "\<exists>c r. t = c # r \<and> (c = CHR ''-'' \<or> is_digit c)"
  using assms by (cases t) (auto simp: intLiteral_def unsigned_part_def split: if_splits)

lemma number_start:
  assumes "c = CHR ''-'' \<or> is_digit c"
  shows "\<not> is_ws c" "c \<noteq> CHR ''{''" "c \<noteq> CHR ''[''" "c \<noteq> CHR 0x22" "c \<noteq> CHR ''n''" "c \<noteq> CHR ''t''" "c \<noteq> CHR ''f''"
    "c \<noteq> CHR '']''" "c \<noteq> CHR ''}''"
  using assms by (auto simp: is_digit_def is_ws_def byte_of_def)

lemma ws_simps [simp]:
  "\<not> is_ws (CHR ''{'')" "\<not> is_ws (CHR ''['')" "\<not> is_ws (CHR 0x22)" "\<not> is_ws (CHR ''n'')"
  "\<not> is_ws (CHR ''t'')" "\<not> is_ws (CHR ''f'')" "\<not> is_ws (CHR '','')" "\<not> is_ws (CHR '']'')"
  "\<not> is_ws (CHR ''}'')" "\<not> is_ws (CHR '':'')"
  by (simp_all add: is_ws_def byte_of_def)

lemma skip_ws_id [simp]: "\<not> is_ws c \<Longrightarrow> skip_ws (c # s) = c # s"
  by (simp add: skip_ws_def)

text \<open>An encoded value starts with a character that is neither white space nor a closing bracket.\<close>

lemma Marshal_head:
  assumes "plainJson v"
  shows "\<exists>c r. Marshal v = c # r \<and> \<not> is_ws c \<and> c \<noteq> CHR '']'' \<and> c \<noteq> CHR ''}''"
proof (cases v)
  case (JNum t)
  with assms intLiteral_head [of t] number_start show ?thesis by fastforce
qed (simp_all add: quoted_def)

definition parses :: "jval \<Rightarrow> bool" where
  "parses v \<longleftrightarrow> (\<forall>fuel r. length (Marshal v) \<le> fuel \<and> closing r \<longrightarrow> parse_value fuel (Marshal v @ r) = Some (v, r))"

lemma parse_items_Marshal:
  assumes "list_all plainJson vs" and "\<And>v. v \<in> set vs \<Longrightarrow> parses v" and "vs \<noteq> []"
    and "length (comma_sep (map Marshal vs)) + 1 \<le> fuel"
  shows "parse_items fuel (comma_sep (map Marshal vs) @ CHR '']'' # r) = Some (vs, r)"
  using assms
proof (induction vs arbitrary: fuel)
  case Nil
  then show ?case by simp
next
  case (Cons v vs)
  then obtain f where f: "fuel = Suc f" by (cases fuel) auto
  show ?case
  proof (cases "vs = []")
    case True
    with Cons.prems f have "parse_value f (Marshal v @ CHR '']'' # r) = Some (v, CHR '']'' # r)"
      by (simp add: parses_def comma_sep_def)
    with True f show ?thesis by (simp add: comma_sep_def)
  next
    case False
    let ?t = "comma_sep (map Marshal vs)"
    have split: "comma_sep (map Marshal (v # vs)) = Marshal v @ CHR '','' # ?t"
      using False by (simp add: comma_sep_def join_with_Cons)
    obtain c m where "Marshal v = c # m" using Marshal_head Cons.prems(1) by fastforce
    with Cons.prems(4) f split have len: "length (Marshal v) \<le> f" "length ?t + 1 \<le> f" by auto
    have "parse_value f (Marshal v @ CHR '','' # ?t @ CHR '']'' # r) = Some (v, CHR '','' # ?t @ CHR '']'' # r)"
      using Cons.prems(2) [of v] len(1) by (simp add: parses_def)
    moreover have "parse_items f (?t @ CHR '']'' # r) = Some (vs, r)"
      using Cons.prems(1,2) False len(2) by (intro Cons.IH) simp_all
    ultimately show ?thesis using f split by simp
  qed
qed

definition memberText :: "string \<times> jval \<Rightarrow> string" where
  "memberText kv = (case kv of (k, v) \<Rightarrow> quoted k @ '':'' @ Marshal v)"

lemma memberText_pair: "memberText (k, v) = CHR 0x22 # escape k @ CHR 0x22 # CHR '':'' # Marshal v"
  by (simp add: memberText_def quoted_def)

lemma parse_members_Marshal:
  assumes "list_all (\<lambda>(k, v). ascii k \<and> plainJson v) kvs" and "\<And>k v. (k, v) \<in> set kvs \<Longrightarrow> parses v" and "kvs \<noteq> []"
    and "length (comma_sep (map memberText kvs)) + 1 \<le> fuel"
  shows "parse_members fuel (comma_sep (map memberText kvs) @ CHR ''}'' # r) = Some (kvs, r)"
  using assms
proof (induction kvs arbitrary: fuel)
  case Nil
  then show ?case by simp
next
  case (Cons kv kvs)
  obtain k v where kv: "kv = (k, v)" by (cases kv)
  from Cons.prems(4) obtain f where f: "fuel = Suc f" by (cases fuel) auto
  from Cons.prems(1) kv have k: "ascii k" by simp
  note key = parse_key [OF k]
  show ?case
  proof (cases "kvs = []")
    case True
    with Cons.prems f kv have "parse_value f (Marshal v @ CHR ''}'' # r) = Some (v, CHR ''}'' # r)"
      by (auto simp: parses_def comma_sep_def memberText_def quoted_def)
    with True f kv key show ?thesis
      by (simp add: comma_sep_def memberText_def quoted_def del: parse_chars.simps)
  next
    case False
    let ?t = "comma_sep (map memberText kvs)"
    have split: "comma_sep (map memberText (kv # kvs)) = memberText kv @ CHR '','' # ?t"
      using False by (simp add: comma_sep_def join_with_Cons)
    have "length (memberText kv @ CHR '','' # ?t) \<le> f"
      using Cons.prems(4) f unfolding split by simp
    then have len: "length (Marshal v) \<le> f" "length ?t + 1 \<le> f"
      by (simp_all add: kv memberText_def quoted_def)
    have "parse_value f (Marshal v @ CHR '','' # ?t @ CHR ''}'' # r) = Some (v, CHR '','' # ?t @ CHR ''}'' # r)"
      using Cons.prems(2) [of k v] kv len(1) by (simp add: parses_def)
    moreover have "parse_members f (?t @ CHR ''}'' # r) = Some (kvs, r)"
      using Cons.prems(1,2) False len(2) by (intro Cons.IH) auto
    ultimately show ?thesis unfolding split unfolding kv memberText_pair f
      using key by (simp del: parse_chars.simps)
  qed
qed

lemma plain_parses: "plainJson v \<Longrightarrow> parses v"
proof (induction v)
  case JNull
  show ?case
  proof (unfold parses_def, intro allI impI)
    fix fuel r
    assume "length (Marshal JNull) \<le> fuel \<and> closing r"
    then show "parse_value fuel (Marshal JNull @ r) = Some (JNull, r)"
      by (cases fuel) (simp_all add: expect_def)
  qed
next
  case (JBool b)
  show ?case
  proof (unfold parses_def, intro allI impI)
    fix fuel r
    assume "length (Marshal (JBool b)) \<le> fuel \<and> closing r"
    then show "parse_value fuel (Marshal (JBool b) @ r) = Some (JBool b, r)"
      by (cases fuel; cases b) (simp_all add: expect_def)
  qed
next
  case (JNum t)
  obtain c s where t: "t = c # s" and c: "c = CHR ''-'' \<or> is_digit c"
    using intLiteral_head [of t] JNum by auto
  show ?case
  proof (unfold parses_def, intro allI impI)
    fix fuel r
    assume "length (Marshal (JNum t)) \<le> fuel \<and> closing r"
    with JNum t number_start [OF c] parse_number_int [of t r]
    show "parse_value fuel (Marshal (JNum t) @ r) = Some (JNum t, r)"
      by (cases fuel) simp_all
  qed
next
  case (JStr s)
  then have s: "ascii s" by simp
  show ?case
  proof (unfold parses_def, intro allI impI)
    fix fuel r
    assume "length (Marshal (JStr s)) \<le> fuel \<and> closing r"
    then show "parse_value fuel (Marshal (JStr s) @ r) = Some (JStr s, r)"
      by (cases fuel) (simp_all add: quoted_def parse_key [OF s] del: parse_chars.simps)
  qed
next
  case (JArr vs)
  have all: "\<And>v. v \<in> set vs \<Longrightarrow> parses v" and plain: "list_all plainJson vs"
    using JArr by (auto simp: list_all_iff)
  show ?case
  proof (unfold parses_def, intro allI impI)
    fix fuel r
    assume a: "length (Marshal (JArr vs)) \<le> fuel \<and> closing r"
    then obtain f where f: "fuel = Suc f" by (cases fuel) auto
    show "parse_value fuel (Marshal (JArr vs) @ r) = Some (JArr vs, r)"
    proof (cases vs)
      case Nil
      with f show ?thesis by (simp add: comma_sep_def)
    next
      case (Cons v ws)
      let ?t = "comma_sep (map Marshal vs)"
      obtain c m where m: "Marshal v = c # m" "\<not> is_ws c" "c \<noteq> CHR '']''"
        using Marshal_head [of v] plain Cons by auto
      then obtain u where head: "?t = c # u"
        using Cons by (cases ws) (auto simp: comma_sep_def)
      have "parse_items f (?t @ CHR '']'' # r) = Some (vs, r)"
        using a f plain all Cons by (intro parse_items_Marshal) auto
      with f head m show ?thesis by simp
    qed
  qed
next
  case (JObj kvs)
  have all: "\<And>k v. (k, v) \<in> set kvs \<Longrightarrow> parses v" and plain: "list_all (\<lambda>(k, v). ascii k \<and> plainJson v) kvs"
    using JObj by (fastforce simp: list_all_iff)+
  have enc: "Marshal (JObj kvs) = ''{'' @ comma_sep (map memberText kvs) @ ''}''"
    by (simp add: memberText_def [abs_def])
  show ?case
  proof (unfold parses_def, intro allI impI)
    fix fuel r
    assume a: "length (Marshal (JObj kvs)) \<le> fuel \<and> closing r"
    then obtain f where f: "fuel = Suc f" by (cases fuel) auto
    show "parse_value fuel (Marshal (JObj kvs) @ r) = Some (JObj kvs, r)"
    proof (cases kvs)
      case Nil
      with f show ?thesis by (simp add: comma_sep_def)
    next
      case (Cons kv ws)
      let ?t = "comma_sep (map memberText kvs)"
      have "\<exists>u. ?t = CHR 0x22 # u"
        using Cons by (cases ws; cases kv) (simp_all add: comma_sep_def memberText_def quoted_def)
      then obtain u where head: "?t = CHR 0x22 # u" by blast
      have "parse_members f (?t @ CHR ''}'' # r) = Some (kvs, r)"
        using a f enc plain all Cons by (intro parse_members_Marshal) auto
      with f head enc show ?thesis by simp
    qed
  qed
qed

lemma json_parse_Marshal:
  assumes "plainJson v"
  shows "json_parse (Marshal v) = Some v"
proof -
  have "parse_value (Suc (2 * length (Marshal v))) (Marshal v @ []) = Some (v, [])"
    by (rule plain_parses [OF assms, unfolded parses_def, rule_format]) simp
  then show ?thesis by (simp add: json_parse_def skip_ws_def del: parse_value.simps)
qed

end
