(* ===== verification/Admission_Patch.thy ===== *)
theory Admission_Patch
  imports Admission_Controller Json_Roundtrip
begin

text \<open>
  The patch of the admission webhook as the API server reads it: the text that \<open>DoServeAdmitFunc\<close> encodes
  is parsed back, and its operations are those the handler decided on.
\<close>

section \<open>Reading a patch\<close>

definition fieldText :: "jval \<Rightarrow> string \<Rightarrow> string" where
  "fieldText v k = (case jfield v k of Some (JStr s) \<Rightarrow> s | _ \<Rightarrow> [])"

definition fieldValue :: "jval \<Rightarrow> string \<Rightarrow> jval" where
  "fieldValue v k = (case jfield v k of Some x \<Rightarrow> x | None \<Rightarrow> JNull)"

text \<open>The operations of a patch; \<open>null\<close> is the empty one.\<close>

fun readPatch :: "jval \<Rightarrow> PatchOperation list option" where
  "readPatch JNull = Some []"
| "readPatch (JArr vs) = Some (map (\<lambda>v.
     \<lparr>po_Op = fieldText v ''op'', po_Path = fieldText v ''path'', po_Value = fieldValue v ''value''\<rparr>) vs)"
| "readPatch _ = None"

definition plainPatch :: "PatchOperation \<Rightarrow> bool" where
  "plainPatch p \<longleftrightarrow> ascii (po_Op p) \<and> ascii (po_Path p) \<and> plainJson (po_Value p)"

lemma read_patchJson:
  "\<lparr>po_Op = fieldText (patchJson p) ''op'', po_Path = fieldText (patchJson p) ''path'',
    po_Value = fieldValue (patchJson p) ''value''\<rparr> = p"
  by (simp add: fieldText_def fieldValue_def patchJson_def)

lemma ascii_literals [simp]: "ascii ''op''" "ascii ''path''" "ascii ''value''" "ascii ''add''"
  "ascii ''/metadata/annotations''"
  by (simp_all add: ascii_def byte_of_def)

lemma patch_parses:
  assumes "list_all plainPatch ops"
  shows "\<exists>v. json_parse (patchText ops) = Some v \<and> readPatch v = Some ops"
proof -
  let ?v = "if ops = [] then JNull else JArr (map patchJson ops)"
  have "plainJson ?v"
    using assms by (auto simp: list_all_iff plainPatch_def patchJson_def)
  from json_parse_Marshal [OF this] have "json_parse (patchText ops) = Some ?v" by (simp only: patchText_def)
  moreover have "readPatch ?v = Some ops"
    by (simp add: o_def read_patchJson)
  ultimately show ?thesis by blast
qed

section \<open>Annotations\<close>

definition objectOf :: "jval \<Rightarrow> string \<Rightarrow> string option" where
  "objectOf v k = (case jfield v k of Some (JStr s) \<Rightarrow> Some s | _ \<Rightarrow> None)"

lemma map_of_sort_key:
  assumes "gm_ok m"
  shows "map_of (sort_key f m) = map_of m"
proof -
  have "distinct (map fst m)" using assms by (simp add: gm_ok_def)
  moreover have "mset (map fst (sort_key f m)) = mset (map fst m)" by (simp del: map_map)
  then have "distinct (map fst (sort_key f m))"
    using calculation by (metis mset_eq_imp_distinct_iff)
  ultimately show ?thesis by (subst map_of_inject_set) simp_all
qed

lemma objectOf_map_to_json: "gm_ok m \<Longrightarrow> objectOf (map_to_json JStr m) = map_of m"
  by (auto simp: objectOf_def map_to_json_def map_of_map map_of_sort_key fun_eq_iff split: option.splits)

lemma plain_map_to_json: "list_all (\<lambda>(k, v). ascii k \<and> ascii v) m \<Longrightarrow> plainJson (map_to_json JStr m)"
  by (auto simp: map_to_json_def list_all_iff)

lemma plain_gm_set:
  "list_all (\<lambda>(k, v). ascii k \<and> ascii v) m \<Longrightarrow> ascii k \<Longrightarrow> ascii v \<Longrightarrow>
     list_all (\<lambda>(k, v). ascii k \<and> ascii v) (gm_set m k v)"
  by (induction m) (auto simp: gm_set_def)

text \<open>
  C18: What the API server reads from an allowed namespace review is what the handler decided: the text of
  the patch is well-formed JSON, it parses back to the one operation on the annotations, and the object it
  sets holds every annotation the namespace had, with the project of the requester, and nothing else.
\<close>

theorem annotations_read_back:
  assumes "is_order (pr_order pr)" and "decodesMaps env" and "decodes env r req" and "ar_Kind req = ''Namespace''"
    and "ae_namespace env (ar_Raw req) = Inr (Some ns)"
    and "run_state (ResolveProjectsByUser pr (ar_Username req)) s = (Ret ([info], None), t)"
    and "\<not> up_IsOwner info" and "HasPrefix (ns_Name ns) (up_ProjectName info)"
    and "list_all (\<lambda>(k, v). ascii k \<and> ascii v) (ns_Annotations ns)" and "ascii (up_ProjectID info)"
  shows "\<exists>ops text v value.
    as_writer (snd (run_state (ServeAdmitFunc env (NewAdmissionController pr) r) (fresh s))) =
      reply env req (Decided True ''denied'' ops) \<and>
    encodePatch ops = Inr text \<and> json_parse text = Some v \<and>
    readPatch v = Some [\<lparr>po_Op = ''add'', po_Path = ''/metadata/annotations'', po_Value = value\<rparr>] \<and>
    objectOf value = (map_of (ns_Annotations ns))(''field.cattle.io/projectId'' \<mapsto> up_ProjectID info)"
proof -
  let ?ac = "NewAdmissionController pr"
  let ?annots = "gm_set (ns_Annotations ns) ''field.cattle.io/projectId'' (up_ProjectID info)"
  let ?ops = "[annotationPatch ?annots]"
  have ord: "is_order (pr_order (ac_projectResolver ?ac))" using assms(1) by simp
  have "run_state (admitNamespace env ?ac req) (fresh s) =
      (Ret (Decided True ''denied'' ?ops), (fresh s)\<lparr>as_resolver := t\<lparr>st_loops := Suc (st_loops t)\<rparr>\<rparr>)"
    using assms(5-8) by (simp add: run_admitNamespace [OF ord assms(2)] soleProject_def placeNamespace_def)
  with run_ServeAdmitFunc [OF assms(3), of ?ac s] assms(4)
  have "as_writer (snd (run_state (ServeAdmitFunc env ?ac r) (fresh s))) = reply env req (Decided True ''denied'' ?ops)"
    by simp
  moreover have "ascii ''field.cattle.io/projectId''" by (simp add: ascii_def byte_of_def)
  then have "list_all plainPatch ?ops"
    using plain_gm_set [OF assms(9) _ assms(10)]
    by (simp add: plainPatch_def annotationPatch_def plain_map_to_json)
  moreover have "objectOf (map_to_json JStr ?annots) = (map_of (ns_Annotations ns))(''field.cattle.io/projectId'' \<mapsto> up_ProjectID info)"
    using assms(2,5) by (subst objectOf_map_to_json) (auto simp: decodesMaps_def)
  ultimately show ?thesis
    using patch_parses [of ?ops] by (auto simp: encodePatch_def annotationPatch_def)
qed

theorem annotations_read_back_witness:
  "\<exists>ops text v value.
    as_writer (snd (run_state (ServeAdmitFunc demo_admission (sv_controller demo_sv) (demo_post ''ns2'')) (fresh demo_start))) =
      reply demo_admission demo_req2 (Decided True ''denied'' ops) \<and>
    encodePatch ops = Inr text \<and> json_parse text = Some v \<and>
    readPatch v = Some [\<lparr>po_Op = ''add'', po_Path = ''/metadata/annotations'', po_Value = value\<rparr>] \<and>
    objectOf value = [''field.cattle.io/projectId'' \<mapsto> ''p2'', ''owner'' \<mapsto> ''x'']"
proof -
  let ?pr = "demo_pr demo_url stored_order"
  have ord: "is_order (pr_order ?pr)" by simp
  have user: "run_state (ResolveProjectsByUser ?pr (ar_Username demo_req2)) demo_start = (Ret ([demo_team], None), demo_after)"
    using demo_u2 [folded demo_team_def] by simp
  have plain: "list_all (\<lambda>(k, v). ascii k \<and> ascii v) (ns_Annotations demo_ns)" "ascii (up_ProjectID demo_team)"
    by (simp_all add: demo_ns_def ascii_def byte_of_def)
  have sv: "sv_controller demo_sv = NewAdmissionController ?pr"
    by (simp add: demo_sv_def ListenForever_def NewProjectResolver_def demo_pr_def)
  have prefix: "HasPrefix (ns_Name demo_ns) (up_ProjectName demo_team)" by simp
  from annotations_read_back [OF ord demo_maps demo_decodes(2) demo_kinds(2) demo_raw(2) user _ prefix plain]
  show ?thesis unfolding sv by (simp add: demo_ns_def fun_upd_twist)
qed

section \<open>Limits\<close>

lemma limit_path_inj:
  assumes "''/spec/containers/'' @ fmt_d (int i) @ ''/resources/limits/'' @ k =
    ''/spec/containers/'' @ fmt_d (int j) @ ''/resources/limits/'' @ l"
  shows "i = j \<and> k = l"
proof -
  have clean: "CHR ''/'' \<notin> set (fmt_d (int n))" for n
    using dec_digits_digits [of "CHR ''/''" n] by (auto simp: fmt_d_def is_digit_def)
  have "Split (fmt_d (int i) @ CHR ''/'' # ''resources/limits/'' @ k) (CHR ''/'') =
      Split (fmt_d (int j) @ CHR ''/'' # ''resources/limits/'' @ l) (CHR ''/'')"
    using assms by simp
  then have "fmt_d (int i) = fmt_d (int j)"
    unfolding Split_append_sep [OF clean] by simp
  then show ?thesis using assms fmt_d_inj [of "int i" "int j"] by simp
qed

lemma limitPatch_path_inj: "po_Path (limitPatch i k a) = po_Path (limitPatch j l b) \<Longrightarrow> i = j \<and> k = l"
  using limit_path_inj [of i k j l] by (simp add: limitPatch_def)

end
