(* ===== verification/Patch_Effect.thy ===== *)
theory Patch_Effect
  imports Admission_Patch
begin

text \<open>
  The effect of the webhook's patches on the object under review, by the rules of JSON Patch (RFC 6902)
  and JSON Pointer (RFC 6901), which the API server follows: a patch that it cannot apply makes it refuse
  the object, although the webhook allowed it.
\<close>

section \<open>JSON Pointer and the add operation\<close>

fun unescapeToken :: "string \<Rightarrow> string" where
  "unescapeToken (c # d # s) =
     (if c = CHR ''~'' \<and> d = CHR ''1'' then CHR ''/'' # unescapeToken s
      else if c = CHR ''~'' \<and> d = CHR ''0'' then CHR ''~'' # unescapeToken s
      else c # unescapeToken (d # s))"
| "unescapeToken s = s"

definition pointer :: "string \<Rightarrow> string list option" where
  "pointer p =
     (case p of
        [] \<Rightarrow> Some []
      | c # s \<Rightarrow> if c = CHR ''/'' then Some (map unescapeToken (Split s (CHR ''/''))) else None)"

text \<open>An array index is a decimal number without leading zeros.\<close>

definition arrayIndex :: "nat \<Rightarrow> string \<Rightarrow> nat option" where
  "arrayIndex n t = List.find (\<lambda>i. fmt_d (int i) = t) [0 ..< n]"

fun addAt :: "string list \<Rightarrow> jval \<Rightarrow> jval \<Rightarrow> jval option" where
  "addAt [] v doc = Some v"
| "addAt [t] v (JObj kvs) = Some (JObj (gm_set kvs t v))"
| "addAt [t] v (JArr vs) =
     (if t = ''-'' then Some (JArr (vs @ [v]))
      else (case arrayIndex (Suc (length vs)) t of
          None \<Rightarrow> None | Some i \<Rightarrow> Some (JArr (take i vs @ v # drop i vs))))"
| "addAt (t # u # ts) v (JObj kvs) =
     (case map_of kvs t of
        None \<Rightarrow> None
      | Some d \<Rightarrow> map_option (\<lambda>d'. JObj (gm_set kvs t d')) (addAt (u # ts) v d))"
| "addAt (t # u # ts) v (JArr vs) =
     (case arrayIndex (length vs) t of
        None \<Rightarrow> None
      | Some i \<Rightarrow> map_option (\<lambda>d'. JArr (vs[i := d'])) (addAt (u # ts) v (vs ! i)))"
| "addAt (t # ts) v doc = None"

text \<open>The webhook makes no other operations than \<open>add\<close>.\<close>

definition applyOp :: "PatchOperation \<Rightarrow> jval \<Rightarrow> jval option" where
  "applyOp p doc =
     (if po_Op p = ''add'' then Option.bind (pointer (po_Path p)) (\<lambda>ts. addAt ts (po_Value p) doc) else None)"

fun applyPatch :: "PatchOperation list \<Rightarrow> jval \<Rightarrow> jval option" where
  "applyPatch [] doc = Some doc"
| "applyPatch (p # ps) doc = Option.bind (applyOp p doc) (applyPatch ps)"

lemma arrayIndex_fmt: "arrayIndex n (fmt_d (int i)) = (if i < n then Some i else None)"
proof (cases "i < n")
  case True
  then have "arrayIndex n (fmt_d (int i)) = Some i"
    unfolding arrayIndex_def find_Some_iff by (auto intro!: exI [of _ i] dest: fmt_d_inj)
  with True show ?thesis by simp
next
  case False
  then show ?thesis by (auto simp: arrayIndex_def find_None_iff dest: fmt_d_inj)
qed

lemma unescape_plain: "CHR ''~'' \<notin> set s \<Longrightarrow> unescapeToken s = s"
  by (induction s rule: unescapeToken.induct) auto

lemma digit_plain: "CHR ''~'' \<notin> set (fmt_d (int i))" "CHR ''/'' \<notin> set (fmt_d (int i))"
  using dec_digits_digits [of "CHR ''~''" i] dec_digits_digits [of "CHR ''/''" i]
  by (auto simp: fmt_d_def is_digit_def)

lemma limit_pointer:
  "pointer (po_Path (limitPatch i k a)) =
     Some (''spec'' # ''containers'' # fmt_d (int i) # ''resources'' # ''limits'' # map unescapeToken (Split k (CHR ''/'')))"
proof -
  have "Split (''spec/containers/'' @ fmt_d (int i) @ ''/resources/limits/'' @ k) (CHR ''/'') =
      ''spec'' # ''containers'' # Split (fmt_d (int i) @ CHR ''/'' # ''resources/limits/'' @ k) (CHR ''/'')"
    using Split_append_sep [of "CHR ''/''" "''spec''"] Split_append_sep [of "CHR ''/''" "''containers''"] by simp
  also have "\<dots> = ''spec'' # ''containers'' # fmt_d (int i) # ''resources'' # ''limits'' # Split k (CHR ''/'')"
    unfolding Split_append_sep [OF digit_plain(2)]
    using Split_append_sep [of "CHR ''/''" "''resources''"] Split_append_sep [of "CHR ''/''" "''limits''"] by simp
  finally show ?thesis
    by (simp add: pointer_def limitPatch_def unescape_plain digit_plain)
qed

section \<open>The limits of a pod's document\<close>

definition docContainers :: "jval \<Rightarrow> jval list" where
  "docContainers doc =
     (case Option.bind (jfield doc ''spec'') (\<lambda>s. jfield s ''containers'') of Some (JArr vs) \<Rightarrow> vs | _ \<Rightarrow> [])"

definition docLimits :: "jval \<Rightarrow> jval option" where
  "docLimits c = Option.bind (jfield c ''resources'') (\<lambda>r. jfield r ''limits'')"

definition hasLimits :: "jval \<Rightarrow> nat \<Rightarrow> bool" where
  "hasLimits doc i \<longleftrightarrow> i < length (docContainers doc) \<and>
     (case docLimits (docContainers doc ! i) of Some (JObj kvs) \<Rightarrow> True | _ \<Rightarrow> False)"

definition limitAt :: "jval \<Rightarrow> nat \<Rightarrow> string \<Rightarrow> jval option" where
  "limitAt doc i k =
     (if i < length (docContainers doc)
      then Option.bind (docLimits (docContainers doc ! i)) (\<lambda>l. jfield l k) else None)"

fun scalar :: "jval \<Rightarrow> bool" where
  "scalar (JArr _) = False"
| "scalar (JObj _) = False"
| "scalar _ = True"

text \<open>Limits are absent, \<open>null\<close> or an object of quantities.\<close>

fun limitsShape :: "jval option \<Rightarrow> bool" where
  "limitsShape (Some (JObj kvs)) = list_all (scalar \<circ> snd) kvs"
| "limitsShape l \<longleftrightarrow> l = None \<or> l = Some JNull"

definition limitsDoc :: "nat \<Rightarrow> jval \<Rightarrow> bool" where
  "limitsDoc n doc \<longleftrightarrow> length (docContainers doc) = n \<and> list_all (limitsShape \<circ> docLimits) (docContainers doc)"

text \<open>A document and the pod that the webhook decodes from it have the same containers and limits.\<close>

definition podDocument :: "jval \<Rightarrow> 'q PodObj \<Rightarrow> bool" where
  "podDocument doc cs \<longleftrightarrow> limitsDoc (length cs) doc \<and>
     (\<forall>i < length cs. \<forall>k. (limitAt doc i k = None) = (map_of (ct_Limits (cs ! i)) k = None))"

text \<open>Adding below the limits of a container, one object after the other.\<close>

lemma addAt_field:
  assumes "jfield doc t = Some d" and "addAt (u # ts) v d = Some d'"
  shows "\<exists>doc'. addAt (t # u # ts) v doc = Some doc' \<and> (\<forall>s. jfield doc' s = (if s = t then Some d' else jfield doc s))"
  using assms by (cases doc) auto

lemma addAt_below: "jfield doc t = Some d \<Longrightarrow> addAt (u # ts) v d = None \<Longrightarrow> addAt (t # u # ts) v doc = None"
  by (cases doc) auto

lemma digits_only: "c \<in> set (fmt_d (int i)) \<Longrightarrow> is_digit c"
  using dec_digits_digits [of c i] by (auto simp: fmt_d_def)

lemma addAt_absent:
  assumes "jfield doc t = None" and "c \<in> set t" and "\<not> is_digit c"
  shows "addAt (t # u # ts) v doc = None"
proof -
  have "arrayIndex n t = None" for n
    using assms(2,3) digits_only by (auto simp: arrayIndex_def find_None_iff)
  then show ?thesis using assms(1) by (cases doc) auto
qed

lemma gm_set_scalar: "list_all (scalar \<circ> snd) kvs \<Longrightarrow> list_all (scalar \<circ> snd) (gm_set kvs k (JStr a))"
  by (induction kvs) (auto simp: gm_set_def)

lemma in_containers:
  assumes "i < length (docContainers doc)"
  shows "\<exists>s vs. jfield doc ''spec'' = Some s \<and> jfield s ''containers'' = Some (JArr vs) \<and> docContainers doc = vs"
  using assms by (auto simp: docContainers_def bind_eq_Some_conv split: option.splits jval.splits)

text \<open>Below the container of a patch, the patch adds to this container.\<close>

lemma Split_subset: "p \<in> set (Split s c) \<Longrightarrow> set p \<subseteq> set s"
  by (induction s c arbitrary: p rule: Split.induct) (force split: if_splits list.splits)+

lemma Split_single: "Split s c = [u] \<Longrightarrow> c \<notin> set s"
  by (induction s c arbitrary: u rule: Split.induct) (auto split: if_splits list.splits)

lemma limit_token: "CHR ''~'' \<notin> set k \<Longrightarrow> map unescapeToken (Split k (CHR ''/'')) = Split k (CHR ''/'')"
  using Split_subset [of _ k "CHR ''/''"] by (fastforce intro!: map_idI unescape_plain)

lemma addAt_container:
  assumes "i < length (docContainers doc)"
  shows "addAt (''spec'' # ''containers'' # fmt_d (int i) # u # ts) v doc = None \<longleftrightarrow> addAt (u # ts) v (docContainers doc ! i) = None"
    and "addAt (u # ts) v (docContainers doc ! i) = Some c \<Longrightarrow>
      \<exists>doc'. addAt (''spec'' # ''containers'' # fmt_d (int i) # u # ts) v doc = Some doc' \<and>
        docContainers doc' = (docContainers doc)[i := c]"
proof -
  from in_containers [OF assms] obtain s vs where
    path: "jfield doc ''spec'' = Some s" "jfield s ''containers'' = Some (JArr vs)" and vs: "docContainers doc = vs" by blast
  have arr: "addAt (fmt_d (int i) # u # ts) v (JArr vs) = map_option (\<lambda>d'. JArr (vs[i := d'])) (addAt (u # ts) v (vs ! i))"
    using assms by (simp add: vs arrayIndex_fmt)
  show reaches: "\<exists>doc'. addAt (''spec'' # ''containers'' # fmt_d (int i) # u # ts) v doc = Some doc' \<and>
      docContainers doc' = (docContainers doc)[i := c]" if "addAt (u # ts) v (docContainers doc ! i) = Some c" for c
  proof -
    have "addAt (fmt_d (int i) # u # ts) v (JArr vs) = Some (JArr (vs[i := c]))" using arr that vs by simp
    from addAt_field [OF path(2) this] obtain s' where
      s': "addAt (''containers'' # fmt_d (int i) # u # ts) v s = Some s'" "jfield s' ''containers'' = Some (JArr (vs[i := c]))"
      by auto
    from addAt_field [OF path(1) s'(1)] s'(2) vs show ?thesis by (auto simp: docContainers_def)
  qed
  show "addAt (''spec'' # ''containers'' # fmt_d (int i) # u # ts) v doc = None \<longleftrightarrow> addAt (u # ts) v (docContainers doc ! i) = None"
  proof (cases "addAt (u # ts) v (docContainers doc ! i)")
    case None
    with arr vs have "addAt (fmt_d (int i) # u # ts) v (JArr vs) = None" by simp
    with None addAt_below [OF path(1) addAt_below [OF path(2)]] show ?thesis by simp
  next
    case (Some c)
    with reaches [OF this] show ?thesis by auto
  qed
qed

lemma Split_head: "\<exists>u us. Split k (CHR ''/'') = u # us"
  by (cases "Split k (CHR ''/'')") (use Split_nonempty in auto)

text \<open>One operation: it adds the limit, or there is nothing to add it to.\<close>

lemma add_limit:
  assumes "hasLimits doc i" and "CHR ''/'' \<notin> set k" and "CHR ''~'' \<notin> set k" and "limitsDoc n doc"
  shows "\<exists>doc'. applyOp (limitPatch i k a) doc = Some doc' \<and> limitsDoc n doc' \<and> (\<forall>j. hasLimits doc' j = hasLimits doc j) \<and>
     (\<forall>j l. limitAt doc' j l = (if j = i \<and> l = k then Some (JStr a) else limitAt doc j l))"
proof -
  let ?c = "docContainers doc ! i"
  from assms(1) obtain kvs where i: "i < length (docContainers doc)" and kvs: "docLimits ?c = Some (JObj kvs)"
    by (auto simp: hasLimits_def split: option.splits jval.splits)
  then obtain r where r: "jfield ?c ''resources'' = Some r" "jfield r ''limits'' = Some (JObj kvs)"
    by (auto simp: docLimits_def bind_eq_Some_conv)
  have "addAt [k] (JStr a) (JObj kvs) = Some (JObj (gm_set kvs k (JStr a)))" by simp
  from addAt_field [OF r(2) this] obtain r' where
    r': "addAt [''limits'', k] (JStr a) r = Some r'" "jfield r' ''limits'' = Some (JObj (gm_set kvs k (JStr a)))" by auto
  from addAt_field [OF r(1) r'(1)] r'(2) obtain c where
    c: "addAt [''resources'', ''limits'', k] (JStr a) ?c = Some c" and lim: "docLimits c = Some (JObj (gm_set kvs k (JStr a)))"
    by (auto simp: docLimits_def)
  from addAt_container(2) [OF i c] obtain doc' where
    add: "addAt [''spec'', ''containers'', fmt_d (int i), ''resources'', ''limits'', k] (JStr a) doc = Some doc'" and
    doc': "docContainers doc' = (docContainers doc)[i := c]" by blast
  have "applyOp (limitPatch i k a) doc = Some doc'"
    unfolding applyOp_def limit_pointer limit_token [OF assms(3)] using add Split_no_sep [OF assms(2)] by (simp add: limitPatch_def)
  moreover have "list_all (limitsShape \<circ> docLimits) (docContainers doc')"
  proof -
    have all: "list_all (limitsShape \<circ> docLimits) (docContainers doc)" using assms(4) by (simp add: limitsDoc_def)
    then have "limitsShape (docLimits ?c)" using i by (simp add: list_all_length)
    then have "limitsShape (docLimits c)" using gm_set_scalar by (simp add: kvs lim)
    with all i show ?thesis by (auto simp: doc' list_all_length nth_list_update)
  qed
  then have "limitsDoc n doc'" using assms(4) by (simp add: limitsDoc_def doc')
  moreover have "hasLimits doc' j = hasLimits doc j" for j
    by (cases "j = i") (simp_all add: hasLimits_def doc' i lim kvs)
  moreover have "limitAt doc' j l = (if j = i \<and> l = k then Some (JStr a) else limitAt doc j l)" for j l
    by (cases "j = i") (simp_all add: limitAt_def doc' i lim kvs)
  ultimately show ?thesis by blast
qed

lemma add_limit_fails:
  assumes "limitsDoc n doc" and "i < n" and "\<not> hasLimits doc i \<or> CHR ''/'' \<in> set k" and "CHR ''~'' \<notin> set k"
  shows "applyOp (limitPatch i k a) doc = None"
proof -
  let ?c = "docContainers doc ! i"
  have i: "i < length (docContainers doc)" using assms(1,2) by (simp add: limitsDoc_def)
  from Split_head obtain u us where split: "Split k (CHR ''/'') = u # us" by blast
  have shape: "limitsShape (docLimits ?c)" using assms(1) i by (simp add: limitsDoc_def list_all_length)
  have lim: "addAt (''limits'' # u # us) (JStr a) r = None" if r: "jfield ?c ''resources'' = Some r" for r
  proof (cases "jfield r ''limits''")
    case None
    then show ?thesis by (rule addAt_absent [of _ _ "CHR ''l''"]) (simp_all add: is_digit_def)
  next
    case (Some l)
    then have l: "docLimits ?c = Some l" using r by (simp add: docLimits_def)
    have "addAt (u # us) (JStr a) l = None"
    proof (cases l)
      case (JObj kvs)
      then have "CHR ''/'' \<in> set k" using assms(3) i l by (simp add: hasLimits_def)
      then obtain t ts where us: "us = t # ts" using split Split_single [of k "CHR ''/''" u] by (cases us) auto
      show ?thesis
      proof (cases "map_of kvs u")
        case (Some d)
        then have "scalar d" using shape l JObj by (auto simp: list_all_iff dest!: map_of_SomeD)
        then have "addAt (t # ts) (JStr a) d = None" by (cases d; cases ts) auto
        with Some us JObj show ?thesis by simp
      qed (simp add: us JObj)
    qed (use shape l in \<open>cases us; auto\<close>)+
    with addAt_below [OF Some] show ?thesis by simp
  qed
  have "addAt (''resources'' # ''limits'' # u # us) (JStr a) ?c = None"
  proof (cases "jfield ?c ''resources''")
    case None
    then show ?thesis by (rule addAt_absent [of _ _ "CHR ''r''"]) (simp_all add: is_digit_def)
  qed (rule addAt_below [OF _ lim])
  with addAt_container(1) [OF i]
  have "addAt (''spec'' # ''containers'' # fmt_d (int i) # ''resources'' # ''limits'' # Split k (CHR ''/'')) (JStr a) doc = None"
    by (simp add: split)
  then show ?thesis
    unfolding applyOp_def limit_pointer limit_token [OF assms(4)] by (simp add: limitPatch_def)
qed

section \<open>The whole patch\<close>

lemma apply_limits:
  assumes "limitsDoc n doc" and "list_all (\<lambda>(i, k). i < n \<and> CHR ''~'' \<notin> set k) ts"
  shows "case applyPatch (map (\<lambda>(i, k). limitPatch i k (f i k)) ts) doc of
      None \<Rightarrow> list_ex (\<lambda>(i, k). \<not> hasLimits doc i \<or> CHR ''/'' \<in> set k) ts
    | Some doc' \<Rightarrow> list_all (\<lambda>(i, k). hasLimits doc i \<and> CHR ''/'' \<notin> set k) ts \<and>
        (\<forall>i k. limitAt doc' i k = (if (i, k) \<in> set ts then Some (JStr (f i k)) else limitAt doc i k))"
  using assms
proof (induction ts arbitrary: doc)
  case (Cons p ts)
  obtain i k where p: "p = (i, k)" by (cases p)
  have i: "i < n" and k: "CHR ''~'' \<notin> set k" using Cons.prems(2) by (simp_all add: p)
  show ?case
  proof (cases "hasLimits doc i \<and> CHR ''/'' \<notin> set k")
    case True
    then obtain doc' where op: "applyOp (limitPatch i k (f i k)) doc = Some doc'" and shape: "limitsDoc n doc'"
      and same: "\<And>j. hasLimits doc' j = hasLimits doc j"
      and lims: "\<And>j l. limitAt doc' j l = (if j = i \<and> l = k then Some (JStr (f i k)) else limitAt doc j l)"
      using add_limit [OF _ _ k Cons.prems(1), of i "f i k"] by blast
    from Cons.IH [OF shape] Cons.prems(2) True show ?thesis
      by (auto simp: p op same lims split: option.splits)
  next
    case False
    with add_limit_fails [OF Cons.prems(1) i _ k] show ?thesis by (auto simp: p)
  qed
qed simp

text \<open>The missing limits of a pod, as pairs of a container and a resource.\<close>

definition needsLimit :: "'q PodObj \<Rightarrow> nat \<Rightarrow> string \<Rightarrow> bool" where
  "needsLimit cs i k \<longleftrightarrow> i < length cs \<and> unlimited (requestsOf (cs ! i)) (ct_Limits (cs ! i)) k"

definition requestText :: "'q admission_env \<Rightarrow> 'q PodObj \<Rightarrow> nat \<Rightarrow> string \<Rightarrow> string" where
  "requestText env cs i k = ae_String env (the (map_of (requestsOf (cs ! i)) k))"

lemma ex_nat_split: "(\<exists>n. P n) \<longleftrightarrow> P 0 \<or> (\<exists>n. P (Suc n))"
  by (metis not0_implies_Suc)

lemma missing_members:
  "p \<in> set (allMissingLimits env i cs) \<longleftrightarrow>
     (\<exists>j k. needsLimit cs j k \<and> p = limitPatch (i + j) k (requestText env cs j k))"
proof (induction cs arbitrary: i)
  case (Cons c cs)
  have "p \<in> set (missingLimits env i c (gm_keys (requestsOf c))) \<longleftrightarrow>
      (\<exists>k. unlimited (requestsOf c) (ct_Limits c) k \<and> p = limitPatch i k (ae_String env (the (map_of (requestsOf c) k))))"
    by (auto simp: missingLimits_def unlimited_def gm_keys_map_of)
  moreover have "(\<exists>j l. needsLimit (c # cs) j l \<and> p = limitPatch (i + j) l (requestText env (c # cs) j l)) \<longleftrightarrow>
      (\<exists>l. needsLimit (c # cs) 0 l \<and> p = limitPatch i l (requestText env (c # cs) 0 l)) \<or>
      (\<exists>j l. needsLimit (c # cs) (Suc j) l \<and> p = limitPatch (i + Suc j) l (requestText env (c # cs) (Suc j) l))"
    (is "(\<exists>j. ?P j) \<longleftrightarrow> _")
    using ex_nat_split [of ?P] by simp
  ultimately show ?case using Cons.IH [of "Suc i"]
    by (simp add: needsLimit_def requestText_def)
qed (simp add: needsLimit_def)

lemma subset_image_list:
  assumes "set xs \<subseteq> f ` A"
  obtains ys where "xs = map f ys" and "set ys \<subseteq> A"
proof -
  have "\<exists>ys. xs = map f ys \<and> set ys \<subseteq> A" using assms
  proof (induction xs)
    case (Cons x xs)
    then obtain ys y where "xs = map f ys" "set ys \<subseteq> A" "y \<in> A" "x = f y" by auto
    then show ?case by (intro exI [of _ "y # ys"]) simp
  qed simp
  with that show thesis by blast
qed

lemma missing_pairs:
  assumes "mset ops = mset (allMissingLimits env 0 cs)"
  shows "\<exists>ts. ops = map (\<lambda>(i, k). limitPatch i k (requestText env cs i k)) ts \<and> (\<forall>i k. (i, k) \<in> set ts \<longleftrightarrow> needsLimit cs i k)"
proof -
  let ?f = "\<lambda>(i, k). limitPatch i k (requestText env cs i k)"
  have mem: "p \<in> set ops \<longleftrightarrow> (\<exists>i k. needsLimit cs i k \<and> p = ?f (i, k))" for p
    using missing_members [of p env 0 cs] mset_eq_setD [OF assms] by simp
  then have "set ops \<subseteq> ?f ` {(i, k). needsLimit cs i k}" by auto
  then obtain ts where ts: "ops = map ?f ts" "set ts \<subseteq> {(i, k). needsLimit cs i k}"
    by (rule subset_image_list)
  have "(i, k) \<in> set ts" if "needsLimit cs i k" for i k
  proof -
    from that mem have "?f (i, k) \<in> set (map ?f ts)" using ts(1) by blast
    then obtain j l where jl: "(j, l) \<in> set ts" and same: "?f (i, k) = ?f (j, l)" by auto
    then have "po_Path (limitPatch i k (requestText env cs i k)) = po_Path (limitPatch j l (requestText env cs j l))"
      by simp
    with jl limitPatch_path_inj show ?thesis by blast
  qed
  with ts show ?thesis by blast
qed

text \<open>No requested resource has a tilde in its name, which Kubernetes does not allow.\<close>

definition plainNames :: "'q PodObj \<Rightarrow> bool" where
  "plainNames cs \<longleftrightarrow> list_all (\<lambda>c. list_all (\<lambda>k. CHR ''~'' \<notin> set k) (gm_keys (requestsOf c))) cs"

lemma plainNamesD: "plainNames cs \<Longrightarrow> needsLimit cs i k \<Longrightarrow> CHR ''~'' \<notin> set k"
  using gm_keys_map_of [of k "requestsOf (cs ! i)"] nth_mem [of i cs]
  by (auto simp: plainNames_def needsLimit_def unlimited_def list_all_iff)

lemma patch_effect:
  assumes "podDocument doc cs" and "mset ops = mset (allMissingLimits env 0 cs)"
    and "plainNames cs"
  shows "case applyPatch ops doc of
      None \<Rightarrow> (\<exists>i k. needsLimit cs i k \<and> (\<not> hasLimits doc i \<or> CHR ''/'' \<in> set k))
    | Some doc' \<Rightarrow> (\<forall>i k. needsLimit cs i k \<longrightarrow> hasLimits doc i \<and> CHR ''/'' \<notin> set k) \<and>
        (\<forall>i k. limitAt doc' i k = (if needsLimit cs i k then Some (JStr (requestText env cs i k)) else limitAt doc i k))"
proof -
  from missing_pairs [OF assms(2)] obtain ts where
    ops: "ops = map (\<lambda>(i, k). limitPatch i k (requestText env cs i k)) ts"
    and ts: "\<And>i k. (i, k) \<in> set ts \<longleftrightarrow> needsLimit cs i k" by blast
  have "list_all (\<lambda>(i, k). i < length cs \<and> CHR ''~'' \<notin> set k) ts"
    using ts plainNamesD [OF assms(3)] by (auto simp: list_all_iff needsLimit_def)
  moreover have "limitsDoc (length cs) doc" using assms(1) by (simp add: podDocument_def)
  ultimately have eff: "case applyPatch ops doc of
      None \<Rightarrow> list_ex (\<lambda>(i, k). \<not> hasLimits doc i \<or> CHR ''/'' \<in> set k) ts
    | Some doc' \<Rightarrow> list_all (\<lambda>(i, k). hasLimits doc i \<and> CHR ''/'' \<notin> set k) ts \<and>
        (\<forall>i k. limitAt doc' i k = (if (i, k) \<in> set ts then Some (JStr (requestText env cs i k)) else limitAt doc i k))"
    unfolding ops by (rule apply_limits [rotated])
  show ?thesis
  proof (cases "applyPatch ops doc")
    case None
    with eff obtain i k where "(i, k) \<in> set ts" "\<not> hasLimits doc i \<or> CHR ''/'' \<in> set k"
      by (auto simp: list_ex_iff)
    with None show ?thesis using ts by auto
  next
    case (Some doc')
    with eff show ?thesis by (auto simp: list_all_iff ts)
  qed
qed

section \<open>The pod under review\<close>

text \<open>The reply to a pod whose namespace has a project with a user.\<close>

lemma pod_reply:
  assumes "is_order (pr_order pr)" and "decodes env r req" and "ar_Kind req = ''Pod''"
    and "ae_pod env (ar_Raw req) = Inr (Some cs)"
    and "run_state (ResolveProjectIdbyNamespace pr (ar_Namespace req)) s = (Ret (pid, cached, e), t)" and "pid \<noteq> ''''"
    and "run_state (FindUserByProject pr pid) t = (Ret (u, False, None), t')"
  shows "\<exists>reason ops.
    as_writer (snd (run_state (ServeAdmitFunc env (NewAdmissionController pr) r) (fresh s))) =
      reply env req (Decided (list_all (containerOk env) cs) reason ops) \<and>
    mset ops = mset (allMissingLimits env 0 cs)"
proof -
  let ?ac = "NewAdmissionController pr"
  have ord: "is_order (pr_order (ac_projectResolver ?ac))" using assms(1) by simp
  obtain reason ops where pod: "run_state (admitPod env ?ac req) (fresh s) =
      (Ret (Decided (list_all (containerOk env) cs) reason ops),
       (fresh s)\<lparr>as_resolver := t'\<lparr>st_loops := st_loops t' + length cs\<rparr>\<rparr>)"
    and ops: "mset ops = mset (allMissingLimits env 0 cs)"
    using run_admitPod [OF ord assms(4), of "fresh s" pid cached e t u t'] assms(5-7) by auto
  have "as_writer (snd (run_state (ServeAdmitFunc env ?ac r) (fresh s))) =
      reply env req (Decided (list_all (containerOk env) cs) reason ops)"
    using run_ServeAdmitFunc [OF assms(2), of ?ac s] pod assms(3) by simp
  with ops show ?thesis by blast
qed

text \<open>
  C3: What the patch of a pod does to the pod, whatever the order of Go's loops over the maps. It can be
  applied exactly when every container with a requested resource that has no limit has an object of limits
  to add it to and the name of the resource has no slash, which the path does not escape; then every such
  resource gets the text of its request as its limit, and all other limits stay as they were.
\<close>

theorem limits_patch_applied:
  assumes "is_order (pr_order pr)" and "decodes env r req" and "ar_Kind req = ''Pod''"
    and "ae_pod env (ar_Raw req) = Inr (Some cs)"
    and "run_state (ResolveProjectIdbyNamespace pr (ar_Namespace req)) s = (Ret (pid, cached, e), t)" and "pid \<noteq> ''''"
    and "run_state (FindUserByProject pr pid) t = (Ret (u, False, None), t')"
    and "podDocument doc cs" and "plainNames cs"
  shows "\<exists>reason ops.
    as_writer (snd (run_state (ServeAdmitFunc env (NewAdmissionController pr) r) (fresh s))) =
      reply env req (Decided (list_all (containerOk env) cs) reason ops) \<and>
    (case applyPatch ops doc of
       None \<Rightarrow> (\<exists>i k. needsLimit cs i k \<and> (\<not> hasLimits doc i \<or> CHR ''/'' \<in> set k))
     | Some doc' \<Rightarrow> (\<forall>i k. needsLimit cs i k \<longrightarrow> hasLimits doc i \<and> CHR ''/'' \<notin> set k) \<and>
         (\<forall>i k. limitAt doc' i k = (if needsLimit cs i k then Some (JStr (requestText env cs i k)) else limitAt doc i k)))"
  using pod_reply [OF assms(1-7)] patch_effect [OF assms(8) _ assms(9)] by blast

text \<open>
  C25: A pod without limits is lost: when a container requests a resource and its document has no object of
  limits, the webhook allows the pod, and its reply carries a patch that cannot be applied, so the API
  server refuses the pod that the webhook allowed.
\<close>

theorem missing_limits_unpatchable:
  assumes "is_order (pr_order pr)" and "decodes env r req" and "ar_Kind req = ''Pod''"
    and "ae_pod env (ar_Raw req) = Inr (Some cs)"
    and "run_state (ResolveProjectIdbyNamespace pr (ar_Namespace req)) s = (Ret (pid, cached, e), t)" and "pid \<noteq> ''''"
    and "run_state (FindUserByProject pr pid) t = (Ret (u, False, None), t')"
    and "podDocument doc cs" and "plainNames cs"
    and "list_all (\<lambda>c. ct_Requests c \<noteq> None \<and> ct_Limits c = []) cs" and "needsLimit cs i k" and "\<not> hasLimits doc i"
  shows "\<exists>reason ops.
    as_writer (snd (run_state (ServeAdmitFunc env (NewAdmissionController pr) r) (fresh s))) =
      reply env req (Decided True reason ops) \<and> applyPatch ops doc = None"
proof -
  have "list_all (containerOk env) cs"
    using assms(10) by (auto simp: list_all_iff containerOk_def exceeds_def split: option.splits)
  with pod_reply [OF assms(1-7)] obtain reason ops where
    reply: "as_writer (snd (run_state (ServeAdmitFunc env (NewAdmissionController pr) r) (fresh s))) =
      reply env req (Decided True reason ops)" and ops: "mset ops = mset (allMissingLimits env 0 cs)" by auto
  from patch_effect [OF assms(8) ops assms(9)] assms(11,12) have "applyPatch ops doc = None"
    by (cases "applyPatch ops doc") auto
  with reply show ?thesis by blast
qed

subsection \<open>On the small installation\<close>

definition demo_pod_doc :: jval where
  "demo_pod_doc = JObj [(''spec'', JObj [(''containers'', JArr [JObj [(''name'', JStr ''a''), (''resources'',
     JObj [(''requests'', JObj [(''cpu'', JStr ''2''), (''memory'', JStr ''64'')]), (''limits'', JObj [(''cpu'', JStr ''2'')])])]])])]"

definition bare_pod :: "nat PodObj" where
  "bare_pod = [\<lparr>ct_Name = ''a'', ct_Requests = Some [(''memory'', 64)], ct_Limits = []\<rparr>]"

definition bare_doc :: jval where
  "bare_doc = JObj [(''spec'', JObj [(''containers'', JArr [JObj [(''name'', JStr ''a''), (''resources'',
     JObj [(''requests'', JObj [(''memory'', JStr ''64'')])])]])])]"

definition bare_admission :: "nat admission_env" where
  "bare_admission = demo_admission\<lparr>ae_pod := \<lambda>b. Inr (Some bare_pod)\<rparr>"

lemma needs_demo: "needsLimit demo_pod i k \<longleftrightarrow> i = 0 \<and> k = ''memory''"
  by (cases i) (auto simp: needsLimit_def demo_pod_def unlimited_def requestsOf_def split: if_splits)

lemma needs_bare: "needsLimit bare_pod i k \<longleftrightarrow> i = 0 \<and> k = ''memory''"
  by (cases i) (auto simp: needsLimit_def bare_pod_def unlimited_def requestsOf_def split: if_splits)

theorem limits_patch_applied_witness:
  "\<exists>reason ops doc'.
    as_writer (snd (run_state (ServeAdmitFunc demo_admission (NewAdmissionController (demo_pr demo_url stored_order)) (demo_post ''pod''))
      (fresh demo_after))) = reply demo_admission demo_req3 (Decided (list_all (containerOk demo_admission) demo_pod) reason ops) \<and>
    applyPatch ops demo_pod_doc = Some doc' \<and>
    limitAt doc' 0 ''memory'' = Some (JStr ''64'') \<and> limitAt doc' 0 ''cpu'' = Some (JStr ''2'')"
proof -
  have ord: "is_order (pr_order (demo_pr demo_url stored_order))" by simp
  have doc: "podDocument demo_pod_doc demo_pod"
    by (auto simp: podDocument_def limitsDoc_def demo_pod_doc_def demo_pod_def docContainers_def docLimits_def limitAt_def)
  have has: "hasLimits demo_pod_doc 0" and cpu: "limitAt demo_pod_doc 0 ''cpu'' = Some (JStr ''2'')"
    by (simp_all add: hasLimits_def limitAt_def demo_pod_doc_def docContainers_def docLimits_def)
  have mem: "requestText demo_admission demo_pod 0 ''memory'' = ''64''"
    by (simp add: requestText_def demo_pod_def requestsOf_def demo_admission_def fmt_d_def dec_digits.simps dec_char_def)
  have plain: "plainNames demo_pod" by (simp add: plainNames_def demo_pod_def requestsOf_def gm_keys_def)
  from limits_patch_applied [OF ord demo_decodes(3) demo_kinds(3) demo_raw(3) demo_lookup(1) _ demo_lookup(2) doc plain]
  show ?thesis by (fastforce simp: needs_demo has mem cpu split: option.splits)
qed

theorem missing_limits_unpatchable_witness:
  "\<exists>reason ops.
    as_writer (snd (run_state (ServeAdmitFunc bare_admission (NewAdmissionController (demo_pr demo_url stored_order)) (demo_post ''pod''))
      (fresh demo_after))) = reply bare_admission demo_req3 (Decided True reason ops) \<and>
    applyPatch ops bare_doc = None"
proof -
  have ord: "is_order (pr_order (demo_pr demo_url stored_order))" by simp
  have decoded: "decodes bare_admission (demo_post ''pod'') demo_req3"
    by (simp add: decodes_def bare_admission_def demo_post_def demo_admission_def)
  have pod: "ae_pod bare_admission (ar_Raw demo_req3) = Inr (Some bare_pod)" by (simp add: bare_admission_def)
  have doc: "podDocument bare_doc bare_pod"
    by (auto simp: podDocument_def limitsDoc_def bare_doc_def bare_pod_def docContainers_def docLimits_def limitAt_def)
  have bare: "\<not> hasLimits bare_doc 0" by (simp add: hasLimits_def bare_doc_def docContainers_def docLimits_def)
  have plain: "plainNames bare_pod" by (simp add: plainNames_def bare_pod_def requestsOf_def gm_keys_def)
  have none: "list_all (\<lambda>c. ct_Requests c \<noteq> None \<and> ct_Limits c = []) bare_pod" by (simp add: bare_pod_def)
  from missing_limits_unpatchable [OF ord decoded demo_kinds(3) pod demo_lookup(1) _ demo_lookup(2) doc plain none _ bare]
  show ?thesis by (simp add: needs_bare)
qed

end
