(* ===== verification/Go_Tasks.thy ===== *)
theory Go_Tasks
  imports Go_Prelude
begin

text \<open>
  Goroutines that share memory: a task is a sequence of blocks, each a change of the shared state that is
  carried out at once, and between two blocks of one task any block of another may run. The theory proves
  that a task that is not interrupted is the program it was cut from, that a task can always be run to
  its end, that an invariant that every block keeps holds in every state of every interleaving, and that
  what a task ends with is justified by states that the run went through.
\<close>

section \<open>Tasks\<close>

text \<open>A block changes the state; what comes next is chosen from the state it found.\<close>

datatype ('s, 'a) task = Ended 'a | Block "'s \<Rightarrow> 's" "'s \<Rightarrow> ('s, 'a) task"

primrec together :: "('s, 'a) task \<Rightarrow> ('s, 'a) state" where
  "together (Ended a) = State_Monad.return a"
| "together (Block f k) = State (\<lambda>s. run_state (together (k s)) (f s))"

text \<open>An operation carried out at once, and what is done with its result.\<close>

definition atomic :: "('s, 'b) state \<Rightarrow> ('b \<Rightarrow> ('s, 'a) task) \<Rightarrow> ('s, 'a) task" where
  "atomic m c = Block (\<lambda>s. snd (run_state m s)) (\<lambda>s. c (fst (run_state m s)))"

lemma run_together [simp]:
  "run_state (together (Ended a)) s = (a, s)"
  "run_state (together (atomic m c)) s = (case run_state m s of (x, t) \<Rightarrow> run_state (together (c x)) t)"
  by (simp_all add: atomic_def split: prod.split)

section \<open>Interleavings\<close>

inductive advances :: "('c \<times> ('s, 'a) task) list \<times> 's \<Rightarrow> ('c \<times> ('s, 'a) task) list \<times> 's \<Rightarrow> bool" where
  advance: "advances (xs @ (c, Block f k) # ys, s) (xs @ (c, k s) # ys, f s)"

inductive running :: "('c \<Rightarrow> ('s, 'a) task) \<Rightarrow> 's \<Rightarrow> ('c \<times> ('s, 'a) task) list \<Rightarrow> 's \<Rightarrow> bool" for T s0 where
  start: "running T s0 [] s0"
| spawn: "running T s0 pool s \<Longrightarrow> running T s0 (pool @ [(c, T c)]) s"
| step: "running T s0 pool s \<Longrightarrow> advances (pool, s) (pool', s') \<Longrightarrow> running T s0 pool' s'"

inductive_cases advancesE: "advances (pool, s) (pool', s')"

lemma running_block:
  assumes "running T s0 (xs @ (c, atomic m k) # ys) s" and "run_state m s = (x, t)"
  shows "running T s0 (xs @ (c, k x) # ys) t"
  using running.step [OF assms(1)] advance [of xs c _ _ ys s] assms(2) unfolding atomic_def by fastforce

text \<open>A task can be run to its end, whatever the others have done.\<close>

lemma running_finish:
  "running T s0 (xs @ (c, p) # ys) s \<Longrightarrow> run_state (together p) s = (a, t) \<Longrightarrow>
     running T s0 (xs @ (c, Ended a) # ys) t"
proof (induction p arbitrary: s)
  case (Ended b)
  then show ?case by simp
next
  case (Block f k)
  from running.step [OF Block.prems(1) advance] Block.prems(2) show ?case
    by (intro Block.IH) simp_all
qed

lemma running_spawned: "running T s0 (map (\<lambda>c. (c, T c)) cs) s0"
  by (induction cs rule: rev_induct) (auto intro: running.start running.spawn)

section \<open>Invariants\<close>

primrec blocksKeep :: "('s \<Rightarrow> bool) \<Rightarrow> ('a \<Rightarrow> bool) \<Rightarrow> ('s, 'a) task \<Rightarrow> bool" where
  "blocksKeep J Q (Ended a) \<longleftrightarrow> Q a"
| "blocksKeep J Q (Block f k) \<longleftrightarrow> (\<forall>s. J s \<longrightarrow> J (f s) \<and> blocksKeep J Q (k s))"

lemma blocksKeep_atomic [intro]:
  assumes "\<And>s x t. J s \<Longrightarrow> run_state m s = (x, t) \<Longrightarrow> J t \<and> blocksKeep J Q (k x)"
  shows "blocksKeep J Q (atomic m k)"
  using assms by (simp add: atomic_def) (metis prod.collapse)

text \<open>A condition on the installation as part of the invariant.\<close>

lemma blocksKeep_given:
  assumes "P \<Longrightarrow> blocksKeep J Q p"
  shows "blocksKeep (\<lambda>s. P \<and> J s) (\<lambda>a. P \<longrightarrow> Q a) p"
proof (cases P)
  case True
  from assms [OF this] show ?thesis by (induction p) auto
next
  case False
  then show ?thesis by (cases p) simp_all
qed

text \<open>
  The contract of programs that share a state: the blocks of every call keep its invariant, and what a
  call ends with is right for it when it was computed from states with the invariant.
\<close>

locale shared_state =
  fixes T :: "'c \<Rightarrow> ('s, 'a) task" and J :: "'s \<Rightarrow> bool" and Q :: "'c \<Rightarrow> 'a \<Rightarrow> bool"
  assumes calls_keep: "blocksKeep J (Q c) (T c)"
begin

lemma running_keeps:
  assumes "running T s0 pool s" and "J s0"
  shows "J s \<and> list_all (\<lambda>(c, p). blocksKeep J (Q c) p) pool"
  using assms(1)
proof (induction rule: running.induct)
  case start
  then show ?case using assms(2) by simp
next
  case (spawn pool s c)
  then show ?case by (simp add: calls_keep)
next
  case (step pool s pool' s')
  from step.hyps(2) step.IH show ?case by (auto elim!: advancesE)
qed

lemma running_inv: "running T s0 pool s \<Longrightarrow> J s0 \<Longrightarrow> J s"
  using running_keeps by blast

lemma running_answers: "running T s0 pool s \<Longrightarrow> J s0 \<Longrightarrow> (c, Ended a) \<in> set pool \<Longrightarrow> Q c a"
  using running_keeps by (fastforce simp: list_all_iff)

end

section \<open>What a task has read\<close>

text \<open>
  A run with the states it went through, the last one first; and what a task ends with when each of its
  blocks found one of these states.
\<close>

inductive visits :: "('c \<Rightarrow> ('s, 'a) task) \<Rightarrow> 's \<Rightarrow> ('c \<times> ('s, 'a) task) list \<Rightarrow> 's list \<Rightarrow> bool" for T s0 where
  visits_start: "visits T s0 [] [s0]"
| visits_spawn: "visits T s0 pool vs \<Longrightarrow> visits T s0 (pool @ [(c, T c)]) vs"
| visits_step: "visits T s0 pool (s # vs) \<Longrightarrow> advances (pool, s) (pool', s') \<Longrightarrow> visits T s0 pool' (s' # s # vs)"

primrec readsKeep :: "'s set \<Rightarrow> ('a \<Rightarrow> bool) \<Rightarrow> ('s, 'a) task \<Rightarrow> bool" where
  "readsKeep S Q (Ended a) \<longleftrightarrow> Q a"
| "readsKeep S Q (Block f k) \<longleftrightarrow> (\<forall>s \<in> S. readsKeep S Q (k s))"

lemma readsKeep_atomic [intro]:
  assumes "\<And>s x t. s \<in> S \<Longrightarrow> run_state m s = (x, t) \<Longrightarrow> readsKeep S Q (k x)"
  shows "readsKeep S Q (atomic m k)"
  using assms by (simp add: atomic_def) (metis prod.collapse)

lemma readsKeep_given:
  assumes "P \<Longrightarrow> readsKeep S Q p"
  shows "readsKeep S (\<lambda>a. P \<longrightarrow> Q a) p"
proof (cases P)
  case True
  with assms show ?thesis by simp
next
  case False
  then show ?thesis by (induction p) auto
qed

lemma visits_running: "visits T s0 pool vs \<Longrightarrow> \<forall>s \<in> set vs. \<exists>pool. running T s0 pool s"
  and visits_now: "visits T s0 pool vs \<Longrightarrow> vs \<noteq> [] \<and> running T s0 pool (hd vs)"
proof (induction rule: visits.induct)
  case visits_start
  case 1
  then show ?case by (auto intro: running.start)
next
  case visits_start
  case 2
  then show ?case by (auto intro: running.start)
next
  case (visits_spawn pool vs c)
  case 1
  then show ?case using visits_spawn.IH by blast
next
  case (visits_spawn pool vs c)
  case 2
  then show ?case using visits_spawn.IH by (auto intro: running.spawn)
next
  case (visits_step pool s vs pool' s')
  case 1
  then show ?case using visits_step by (auto intro: running.step)
next
  case (visits_step pool s vs pool' s')
  case 2
  then show ?case using visits_step by (auto intro: running.step)
qed

lemma running_visits: "running T s0 pool s \<Longrightarrow> \<exists>vs. visits T s0 pool (s # vs)"
proof (induction rule: running.induct)
  case start
  then show ?case by (auto intro: visits_start)
next
  case (spawn pool s c)
  then show ?case by (auto intro: visits_spawn)
next
  case (step pool s pool' s')
  then show ?case by (auto intro: visits_step)
qed

lemma visits_reads:
  "visits T s0 pool vs \<Longrightarrow> set vs \<subseteq> S \<Longrightarrow> (\<And>c. readsKeep S (Q c) (T c)) \<Longrightarrow>
     list_all (\<lambda>(c, p). readsKeep S (Q c) p) pool"
proof (induction rule: visits.induct)
  case visits_start
  then show ?case by simp
next
  case (visits_spawn pool vs c)
  then show ?case by simp
next
  case (visits_step pool s vs pool' s')
  then show ?case by (auto elim!: advancesE)
qed

text \<open>An invariant that a block keeps when it finds one of these states, and may depend on all of them.\<close>

primrec blocksSeen :: "'s set \<Rightarrow> ('s \<Rightarrow> bool) \<Rightarrow> ('s, 'a) task \<Rightarrow> bool" where
  "blocksSeen S K (Ended a) \<longleftrightarrow> True"
| "blocksSeen S K (Block f k) \<longleftrightarrow> (\<forall>s \<in> S. K s \<longrightarrow> K (f s) \<and> blocksSeen S K (k s))"

lemma blocksSeen_atomic [intro]:
  assumes "\<And>s x t. s \<in> S \<Longrightarrow> K s \<Longrightarrow> run_state m s = (x, t) \<Longrightarrow> K t \<and> blocksSeen S K (k x)"
  shows "blocksSeen S K (atomic m k)"
  using assms by (simp add: atomic_def) (metis prod.collapse)

lemma blocksSeen_given:
  assumes "P \<Longrightarrow> blocksSeen S K p"
  shows "blocksSeen S (\<lambda>s. P \<and> K s) p"
proof (cases P)
  case True
  with assms show ?thesis by simp
next
  case False
  then show ?thesis by (cases p) simp_all
qed

lemma visits_seen:
  "visits T s0 pool vs \<Longrightarrow> set vs \<subseteq> S \<Longrightarrow> (\<And>c. blocksSeen S K (T c)) \<Longrightarrow> K s0 \<Longrightarrow>
     (\<forall>s \<in> set vs. K s) \<and> list_all (\<lambda>(c, p). blocksSeen S K p) pool"
proof (induction rule: visits.induct)
  case visits_start
  then show ?case by simp
next
  case (visits_spawn pool vs c)
  then show ?case by simp
next
  case (visits_step pool s vs pool' s')
  then show ?case by (auto elim!: advancesE)
qed

text \<open>
  The contract of programs whose answers rest on what they have read: the blocks also keep what the
  states of the run say of the state, and when the states read are such, each call ends with something
  that these states justify.
\<close>

locale justified = shared_state T J Q
  for T :: "'c \<Rightarrow> ('s, 'a) task" and J :: "'s \<Rightarrow> bool" and Q :: "'c \<Rightarrow> 'a \<Rightarrow> bool" +
  fixes K :: "'s set \<Rightarrow> 's \<Rightarrow> bool" and R :: "'s set \<Rightarrow> 'c \<Rightarrow> 'a \<Rightarrow> bool"
  assumes calls_keep_seen: "blocksSeen S (K S) (T c)"
    and calls_read: "(\<And>s. s \<in> S \<Longrightarrow> J s \<and> K S s) \<Longrightarrow> readsKeep S (R S c) (T c)"
begin

lemma visits_inv: "visits T s0 pool vs \<Longrightarrow> J s0 \<Longrightarrow> s \<in> set vs \<Longrightarrow> J s"
  using visits_running running_inv by metis

lemma visits_seen_inv: "visits T s0 pool vs \<Longrightarrow> K (set vs) s0 \<Longrightarrow> s \<in> set vs \<Longrightarrow> K (set vs) s"
  using visits_seen [of T s0 pool vs "set vs" "K (set vs)"] calls_keep_seen by blast

lemma visits_answers:
  assumes "visits T s0 pool vs" and "J s0" and "K (set vs) s0" and "(c, Ended a) \<in> set pool"
  shows "R (set vs) c a"
proof -
  have "readsKeep (set vs) (R (set vs) c) (T c)" for c
    using visits_inv [OF assms(1,2)] visits_seen_inv [OF assms(1,3)] by (intro calls_read) blast
  from visits_reads [OF assms(1) subset_refl, of "R (set vs)"] this assms(4) show ?thesis
    by (fastforce simp: list_all_iff)
qed

end

end
