(* ===== verification/Resolver_Concurrent.thy ===== *)
theory Resolver_Concurrent
  imports Project_Resolver Go_Tasks
begin

text \<open>
  The webhook's HTTP server runs every review in a goroutine of its own, and all of them use one
  \<open>ProjectResolver\<close> without a lock (\<open>Admission_Concurrent\<close> has the reviews). The queries of
  \<open>project_resolver.go\<close> are cut here at their requests to Rancher and to the policy agent and at their uses
  of the cache. In Go even these pieces are data races; the interleavings of the model are those of a run
  in which each piece is carried out at once, so what goes wrong here goes wrong there. The theory then
  says what the cache holds in every interleaving, and from which states a query takes its answer.
\<close>

section \<open>The queries as tasks\<close>

fun cacheProjectsTask :: "ProjectResolver \<Rightarrow> Entity list \<Rightarrow> (go_error option \<Rightarrow> (rstate, 'a) task) \<Rightarrow> (rstate, 'a) task" where
  "cacheProjectsTask pr [] k = k None"
| "cacheProjectsTask pr (project # projects) k =
     atomic (onHttp (cl_GetProjectMembers (pr_client pr) (e_ID project))) (\<lambda>ms. case ms of
         Inl err \<Rightarrow> k (Some err)
       | Inr members \<Rightarrow> atomic (onCache (fold (addMember project) members)) (\<lambda>_.
           atomic (onHttp (cl_GetProjectNamespaces (pr_client pr) (pr_clusterID pr) (e_ID project))) (\<lambda>nss. case nss of
               Inl err \<Rightarrow> k (Some err)
             | Inr namespaces \<Rightarrow> atomic (onCache (fold (addNamespace project) namespaces)) (\<lambda>_.
                 cacheProjectsTask pr projects k))))"

text \<open>\<open>UpdateCache\<close>: once Rancher has listed its projects the cache is cleared and refilled.\<close>

definition fillTask :: "ProjectResolver \<Rightarrow> Entity list \<Rightarrow> ((go_error option) outcome \<Rightarrow> (rstate, 'a) task) \<Rightarrow> (rstate, 'a) task" where
  "fillTask pr entities k = cacheProjectsTask pr entities (\<lambda>failed. case failed of
       Some err \<Rightarrow> k (Ret (Some err))
     | None \<Rightarrow> atomic theCache (\<lambda>cache.
         atomic (onHttp (call (pr_opa pr) (opaRequest cache))) (\<lambda>resp.
           k (case resp of Inl err \<Rightarrow> Panic err | Inr r \<Rightarrow> Ret None))))"

definition refillTask :: "ProjectResolver \<Rightarrow> Entity list \<Rightarrow> ((go_error option) outcome \<Rightarrow> (rstate, 'a) task) \<Rightarrow> (rstate, 'a) task" where
  "refillTask pr entities k = atomic (ClearCache (pr_order pr)) (\<lambda>_. fillTask pr entities k)"

definition updateTask :: "ProjectResolver \<Rightarrow> ((go_error option) outcome \<Rightarrow> (rstate, 'a) task) \<Rightarrow> (rstate, 'a) task" where
  "updateTask pr k =
     atomic (onHttp (cl_GetProjects (pr_client pr) (pr_clusterID pr))) (\<lambda>es. case es of
         Inl err \<Rightarrow> k (Ret (Some err))
       | Inr entities \<Rightarrow> refillTask pr entities k)"

definition userAfter :: "string \<Rightarrow> ((UserProjectInfo list \<times> go_error option) outcome \<Rightarrow> (rstate, 'a) task)
    \<Rightarrow> (go_error option) outcome \<Rightarrow> (rstate, 'a) task" where
  "userAfter userID k res = (case res of
       Panic m \<Rightarrow> k (Panic m)
     | Ret (Some err) \<Rightarrow> k (Ret ([], Some err))
     | Ret None \<Rightarrow> atomic theCache (\<lambda>cache.
         let plist = gm_at [] (User2projects cache) userID
         in k (Ret (if length plist > 0 then (plist, None) else ([], None)))))"

definition userTask :: "ProjectResolver \<Rightarrow> string
    \<Rightarrow> ((UserProjectInfo list \<times> go_error option) outcome \<Rightarrow> (rstate, 'a) task) \<Rightarrow> (rstate, 'a) task" where
  "userTask pr userID k = atomic theCache (\<lambda>cache.
     let plist = gm_at [] (User2projects cache) userID
     in if length plist > 0 then k (Ret (plist, None)) else updateTask pr (userAfter userID k))"

definition namespaceTask :: "ProjectResolver \<Rightarrow> string
    \<Rightarrow> ((string \<times> bool \<times> go_error option) outcome \<Rightarrow> (rstate, 'a) task) \<Rightarrow> (rstate, 'a) task" where
  "namespaceTask pr namespace k = atomic theCache (\<lambda>cache.
     let projectID = gm_at '''' (Namespace2ProjectID cache) namespace
     in if projectID = '''' then
          updateTask pr (\<lambda>res. case res of
              Panic m \<Rightarrow> k (Panic m)
            | Ret (Some err) \<Rightarrow> k (Ret ('''', False, Some err))
            | Ret None \<Rightarrow> atomic theCache (\<lambda>cache'.
                k (Ret (gm_at '''' (Namespace2ProjectID cache') namespace, False, None))))
        else k (Ret (projectID, True, None)))"

definition projectTask :: "ProjectResolver \<Rightarrow> string
    \<Rightarrow> ((string \<times> bool \<times> go_error option) outcome \<Rightarrow> (rstate, 'a) task) \<Rightarrow> (rstate, 'a) task" where
  "projectTask pr projectID k = atomic (findUserByProject pr projectID) (\<lambda>found. case found of
       (userId, isOwner, None) \<Rightarrow> k (Ret (userId, isOwner, None))
     | (_, _, Some _) \<Rightarrow> updateTask pr (\<lambda>res. case res of
           Panic m \<Rightarrow> k (Panic m)
         | Ret (Some err) \<Rightarrow> k (Ret ('''', False, Some err))
         | Ret None \<Rightarrow> atomic (findUserByProject pr projectID) (\<lambda>again.
             atomic theCache (\<lambda>cache.
               let userId = fst again; plist = gm_at [] (User2projects cache) userId
               in k (Ret
                 (if length plist > 1 then (userId, False, None)
                  else if length plist = 1 then (userId, up_IsOwner (plist ! 0), None)
                  else ('''', False, Some notFound)))))))"

section \<open>The tasks are the queries\<close>

lemma together_cacheProjects:
  "run_state (together (cacheProjectsTask pr ps k)) s =
     (case run_state (cacheProjects pr ps) s of (r, t) \<Rightarrow> run_state (together (k r)) t)"
  by (induction ps arbitrary: s) (auto split: prod.split sum.split)

lemma together_update:
  "run_state (together (updateTask pr k)) s =
     (case run_state (UpdateCache pr) s of (r, t) \<Rightarrow> run_state (together (k r)) t)"
  by (simp add: updateTask_def refillTask_def fillTask_def UpdateCache_def together_cacheProjects split: prod.split sum.split option.split)

text \<open>
  A query that is not interrupted is its method: the answer, the requests, the cache and the order of the
  map loops.
\<close>

lemma together_queries:
  "run_state (together (userTask pr u ku)) s =
     (case run_state (ResolveProjectsByUser pr u) s of (r, t) \<Rightarrow> run_state (together (ku r)) t)"
  "run_state (together (namespaceTask pr n kn)) s =
     (case run_state (ResolveProjectIdbyNamespace pr n) s of (r, t) \<Rightarrow> run_state (together (kn r)) t)"
  "run_state (together (projectTask pr p kn)) s =
     (case run_state (FindUserByProject pr p) s of (r, t) \<Rightarrow> run_state (together (kn r)) t)"
  by (simp_all add: userTask_def userAfter_def ResolveProjectsByUser_def namespaceTask_def ResolveProjectIdbyNamespace_def
      projectTask_def FindUserByProject_def together_update Let_def split: prod.split outcome.split option.split)

section \<open>Every interleaving keeps the invariant\<close>

text \<open>The blocks of the tasks, one rule for each kind.\<close>

lemma listing_keeps:
  assumes "one_request (reading server tok) m" and "\<And>x h. fst (run_state m h) = x \<Longrightarrow> blocksKeep (stateOk server tok) Q (k x)"
  shows "blocksKeep (stateOk server tok) Q (atomic (onHttp m) k)"
proof
  fix s x t
  assume ok: "stateOk server tok s" and run: "run_state (onHttp m) s = (x, t)"
  obtain q where "reading server tok q" "snd (run_state m (st_http s)) = st_http s @ [q]"
    using assms(1) by (rule one_requestE)
  with ok run have "stateOk server tok t"
    by (auto simp: stateOk_def allowedReq_def split: prod.splits)
  moreover have "blocksKeep (stateOk server tok) Q (k x)"
    by (rule assms(2) [of "st_http s"]) (use run in \<open>auto split: prod.splits\<close>)
  ultimately show "stateOk server tok t \<and> blocksKeep (stateOk server tok) Q (k x)" by blast
qed

lemma cache_keeps:
  assumes "\<And>c. cacheOk c \<Longrightarrow> cacheOk (f c)" and "blocksKeep (stateOk server tok) Q (k ())"
  shows "blocksKeep (stateOk server tok) Q (atomic (onCache f) k)"
  by (rule blocksKeep_atomic) (use assms in \<open>auto simp: stateOk_def\<close>)

lemma read_keeps:
  "(\<And>c. cacheOk c \<Longrightarrow> blocksKeep (stateOk server tok) Q (k c)) \<Longrightarrow> blocksKeep (stateOk server tok) Q (atomic theCache k)"
  by (auto simp: stateOk_def)

lemma find_keeps:
  "(\<And>f. blocksKeep (stateOk server tok) Q (k f)) \<Longrightarrow> blocksKeep (stateOk server tok) Q (atomic (findUserByProject pr p) k)"
  by (auto simp: findUserByProject_def stateOk_def)

lemma publish_keeps:
  "(\<And>r. blocksKeep (stateOk server tok) Q (k r)) \<Longrightarrow>
     blocksKeep (stateOk server tok) Q (atomic (onHttp (call opa (opaRequest c))) k)"
  by (auto simp: stateOk_def)

lemma clear_keeps:
  "is_order ord \<Longrightarrow> blocksKeep (stateOk server tok) Q (k ()) \<Longrightarrow> blocksKeep (stateOk server tok) Q (atomic (ClearCache ord) k)"
  by (rule blocksKeep_atomic) (auto simp: run_ClearCache stateOk_def)

context project_source
begin

lemma cacheProjectsTask_keeps:
  assumes "pr_client pr = cl" and "\<And>r. blocksKeep (stateOk server tok) Q (k r)"
  shows "list_all namedEntity ps \<Longrightarrow> blocksKeep (stateOk server tok) Q (cacheProjectsTask pr ps k)"
proof (induction ps)
  case Nil
  then show ?case by (simp add: assms(2))
next
  case (Cons p ps)
  then show ?case
    using assms(2)
    by (auto simp: assms(1) intro!: listing_keeps cache_keeps members_one namespaces_one cacheOk_addMembers cacheOk_addNamespaces split: sum.split)
qed

lemma updateTask_keeps:
  assumes "pr_client pr = cl" and "is_order (pr_order pr)" and "\<And>r. blocksKeep (stateOk server tok) Q (k r)"
  shows "blocksKeep (stateOk server tok) Q (updateTask pr k)"
  unfolding updateTask_def assms(1)
proof (rule listing_keeps [OF projects_one])
  fix es h
  assume es: "fst (run_state (cl_GetProjects cl (pr_clusterID pr)) h) = es"
  have "list_all namedEntity ps" if "es = Inr ps" for ps
    using projects_named [of "pr_clusterID pr" h ps] es that by (auto simp: list_all_iff namedEntity_def)
  then show "blocksKeep (stateOk server tok) Q (case es of Inl err \<Rightarrow> k (Ret (Some err)) | Inr entities \<Rightarrow> refillTask pr entities k)"
    using assms(2,3)
    by (auto simp: assms(1) refillTask_def fillTask_def intro!: clear_keeps cacheProjectsTask_keeps read_keeps publish_keeps split: sum.split option.split)
qed

text \<open>What a query by user gives is named; of the other queries any result is possible.\<close>

lemma userTask_keeps:
  assumes "pr_client pr = cl" and "is_order (pr_order pr)"
    and "\<And>m. blocksKeep (stateOk server tok) Q (k (Panic m))"
    and "\<And>plist e. list_all namedInfo plist \<Longrightarrow> blocksKeep (stateOk server tok) Q (k (Ret (plist, e)))"
  shows "blocksKeep (stateOk server tok) Q (userTask pr u k)"
  using assms(3,4)
  by (auto simp: userTask_def userAfter_def Let_def cacheOk_named intro!: read_keeps updateTask_keeps assms(1,2)
      split: outcome.split option.split)

lemma namespaceTask_keeps:
  assumes "pr_client pr = cl" and "is_order (pr_order pr)" and "\<And>r. blocksKeep (stateOk server tok) Q (k r)"
  shows "blocksKeep (stateOk server tok) Q (namespaceTask pr n k)"
  using assms(3)
  by (auto simp: namespaceTask_def Let_def intro!: read_keeps updateTask_keeps assms(1,2) split: outcome.split option.split)

lemma projectTask_keeps:
  assumes "pr_client pr = cl" and "is_order (pr_order pr)" and "\<And>r. blocksKeep (stateOk server tok) Q (k r)"
  shows "blocksKeep (stateOk server tok) Q (projectTask pr p k)"
  using assms(3)
  by (auto simp: projectTask_def Let_def intro!: find_keeps read_keeps updateTask_keeps assms(1,2)
      split: outcome.split option.split prod.split)

end

section \<open>What the cache holds and what the queries read\<close>

definition knownProjects :: "rstate \<Rightarrow> string \<Rightarrow> UserProjectInfo list" where
  "knownProjects s u = gm_at [] (User2projects (st_cache s)) u"

definition knownProject :: "rstate \<Rightarrow> string \<Rightarrow> string" where
  "knownProject s n = gm_at '''' (Namespace2ProjectID (st_cache s)) n"

text \<open>
  A user has a project by right when in one of these states Rancher lists the project and in one of them
  it lists the user as its member, with that role. The cache only holds memberships that Rancher gave in
  states of the run.
\<close>

definition granted :: "rstate set \<Rightarrow> ProjectResolver \<Rightarrow> string \<Rightarrow> UserProjectInfo \<Rightarrow> bool" where
  "granted S pr u info \<longleftrightarrow> (\<exists>s \<in> S. \<exists>s' \<in> S. \<exists>es p ms m.
     fst (run_state (cl_GetProjects (pr_client pr) (pr_clusterID pr)) (st_http s)) = Inr es \<and> p \<in> set es \<and>
     fst (run_state (cl_GetProjectMembers (pr_client pr) (e_ID p)) (st_http s')) = Inr ms \<and> m \<in> set ms \<and>
     m_UserID m = u \<and> infoOf p m = info)"

definition grantedOk :: "rstate set \<Rightarrow> ProjectResolver \<Rightarrow> rstate \<Rightarrow> bool" where
  "grantedOk S pr s \<longleftrightarrow> (\<forall>u. \<forall>info \<in> set (knownProjects s u). granted S pr u info)"

lemma same_cache_granted:
  assumes "\<And>s. st_cache (snd (run_state m s)) = st_cache s" and "\<And>x. blocksSeen S (grantedOk S pr) (k x)"
  shows "blocksSeen S (grantedOk S pr) (atomic m k)"
proof
  fix s x t
  assume "s \<in> S" and "grantedOk S pr s" and "run_state m s = (x, t)"
  with assms(1) [of s] assms(2) show "grantedOk S pr t \<and> blocksSeen S (grantedOk S pr) (k x)"
    by (simp add: grantedOk_def knownProjects_def)
qed

lemma listing_granted:
  assumes "\<And>s. s \<in> S \<Longrightarrow> blocksSeen S (grantedOk S pr) (k (fst (run_state m (st_http s))))"
  shows "blocksSeen S (grantedOk S pr) (atomic (onHttp m) k)"
proof
  fix s x t
  assume "s \<in> S" and "grantedOk S pr s" and "run_state (onHttp m) s = (x, t)"
  with assms [of s] show "grantedOk S pr t \<and> blocksSeen S (grantedOk S pr) (k x)"
    by (auto simp: grantedOk_def knownProjects_def split: prod.splits)
qed

lemma clear_granted:
  assumes "is_order ord" and "blocksSeen S (grantedOk S pr) (k ())"
  shows "blocksSeen S (grantedOk S pr) (atomic (ClearCache ord) k)"
  by (rule blocksSeen_atomic)
    (use assms in \<open>auto simp: run_ClearCache grantedOk_def knownProjects_def emptyCache_def\<close>)

lemma read_granted:
  "(\<And>c. blocksSeen S (grantedOk S pr) (k c)) \<Longrightarrow> blocksSeen S (grantedOk S pr) (atomic theCache k)"
  by (rule same_cache_granted) simp_all

lemma find_granted:
  "(\<And>x. blocksSeen S (grantedOk S pr) (k x)) \<Longrightarrow> blocksSeen S (grantedOk S pr) (atomic (findUserByProject pr' pid) k)"
  by (rule same_cache_granted) (simp_all add: findUserByProject_def)

lemma change_granted:
  assumes "\<And>s. grantedOk S pr s \<Longrightarrow> grantedOk S pr (s\<lparr>st_cache := f (st_cache s)\<rparr>)" and "blocksSeen S (grantedOk S pr) (k ())"
  shows "blocksSeen S (grantedOk S pr) (atomic (onCache f) k)"
  by (rule blocksSeen_atomic) (use assms in auto)

lemma members_known:
  "set (gm_at [] (User2projects (fold (addMember p) ms c)) u) =
     set (gm_at [] (User2projects c) u) \<union> {infoOf p m | m. m \<in> set ms \<and> m_UserID m = u}"
  by (induction ms arbitrary: c) (auto simp: addMember_def Let_def)

lemma namespaces_known: "User2projects (fold (addNamespace p) nss c) = User2projects c"
  by (induction nss arbitrary: c) (simp_all add: addNamespace_def)

lemma cacheProjectsTask_granted:
  assumes "\<And>r. blocksSeen S (grantedOk S pr) (k r)"
    and "s0 \<in> S" and "fst (run_state (cl_GetProjects (pr_client pr) (pr_clusterID pr)) (st_http s0)) = Inr es"
  shows "set ps \<subseteq> set es \<Longrightarrow> blocksSeen S (grantedOk S pr) (cacheProjectsTask pr ps k)"
proof (induction ps)
  case Nil
  then show ?case by (simp add: assms(1))
next
  case (Cons p ps)
  then have rest: "blocksSeen S (grantedOk S pr) (cacheProjectsTask pr ps k)" by simp
  have "grantedOk S pr (s\<lparr>st_cache := fold (addMember p) ms (st_cache s)\<rparr>)"
    if "grantedOk S pr s" "s' \<in> S" "fst (run_state (cl_GetProjectMembers (pr_client pr) (e_ID p)) (st_http s')) = Inr ms" for s ms s'
    using that assms(2,3) Cons.prems by (fastforce simp: grantedOk_def granted_def knownProjects_def members_known)
  moreover have "grantedOk S pr (s\<lparr>st_cache := fold (addNamespace p) nss (st_cache s)\<rparr>)" if "grantedOk S pr s" for s nss
    using that by (simp add: grantedOk_def knownProjects_def namespaces_known)
  ultimately show ?case
    by (auto intro!: listing_granted change_granted rest assms(1) split: sum.split)
qed

lemma updateTask_granted:
  assumes "is_order (pr_order pr)" and "\<And>r. blocksSeen S (grantedOk S pr) (k r)"
  shows "blocksSeen S (grantedOk S pr) (updateTask pr k)"
  unfolding updateTask_def refillTask_def fillTask_def using assms
  by (auto intro!: listing_granted clear_granted cacheProjectsTask_granted read_granted split: sum.split option.split)

lemma queries_granted:
  assumes "is_order (pr_order pr)"
  shows "(\<And>r. blocksSeen S (grantedOk S pr) (ku r)) \<Longrightarrow> blocksSeen S (grantedOk S pr) (userTask pr u ku)"
    and "(\<And>r. blocksSeen S (grantedOk S pr) (kn r)) \<Longrightarrow> blocksSeen S (grantedOk S pr) (namespaceTask pr n kn)"
    and "(\<And>r. blocksSeen S (grantedOk S pr) (kn r)) \<Longrightarrow> blocksSeen S (grantedOk S pr) (projectTask pr pid kn)"
  by (auto simp: userTask_def userAfter_def namespaceTask_def projectTask_def Let_def
      intro!: read_granted find_granted updateTask_granted assms split: outcome.split option.split prod.split)

text \<open>What the queries answer, in terms of the states they have read.\<close>

lemma updateTask_reads:
  assumes "\<And>r. readsKeep S Q (k r)"
  shows "readsKeep S Q (updateTask pr k)"
proof -
  have fill: "readsKeep S Q (cacheProjectsTask pr ps k')" if "\<And>r. readsKeep S Q (k' r)"
    for ps and k' :: "go_error option \<Rightarrow> (rstate, 'a) task"
    using that by (induction ps) (auto intro!: readsKeep_atomic split: sum.split)
  show ?thesis
    unfolding updateTask_def refillTask_def fillTask_def
    by (auto intro!: readsKeep_atomic fill assms split: sum.split option.split)
qed

lemma userTask_reads:
  assumes "\<And>m. readsKeep S Q (k (Panic m))" and "\<And>e. readsKeep S Q (k (Ret ([], Some e)))"
    and "\<And>s. s \<in> S \<Longrightarrow> readsKeep S Q (k (Ret (knownProjects s u, None)))"
  shows "readsKeep S Q (userTask pr u k)"
proof -
  have known: "readsKeep S Q (k (Ret (gm_at [] (User2projects (st_cache s)) u, None)))" if "s \<in> S" for s
    using assms(3) [OF that] by (simp add: knownProjects_def)
  then have none: "readsKeep S Q (k (Ret ([], None)))" if "s \<in> S" "gm_at [] (User2projects (st_cache s)) u = []" for s
    using that by metis
  have "readsKeep S Q (userAfter u k r)" for r
    by (auto simp: userAfter_def Let_def intro!: readsKeep_atomic assms(1,2) known none split: outcome.split option.split)
  then show ?thesis
    by (auto simp: userTask_def Let_def intro!: readsKeep_atomic updateTask_reads known)
qed

text \<open>The project of a namespace was read in some state; no project is what the first look at the cache found.\<close>

lemma namespaceTask_reads:
  assumes "\<And>m. readsKeep S Q (k (Panic m))"
    and "\<And>s c e. s \<in> S \<Longrightarrow> readsKeep S Q (k (Ret (knownProject s n, c, e)))"
  shows "readsKeep S Q (namespaceTask pr n k)"
proof -
  have known: "readsKeep S Q (k (Ret (gm_at '''' (Namespace2ProjectID (st_cache s)) n, c, e)))" if "s \<in> S" for s c e
    using assms(2) [OF that] by (simp add: knownProject_def)
  then have none: "readsKeep S Q (k (Ret ('''', c, e)))"
    if "s \<in> S" "gm_at '''' (Namespace2ProjectID (st_cache s)) n = ''''" for s c e
    using that by metis
  show ?thesis
    by (auto simp: namespaceTask_def Let_def intro!: readsKeep_atomic updateTask_reads known none assms(1)
        split: outcome.split option.split)
qed

text \<open>
  The user of a project comes from a state in which a user had it, with the role given there, or the
  first search found no user.
\<close>

definition heldBy :: "rstate \<Rightarrow> string \<Rightarrow> bool \<Rightarrow> bool" where
  "heldBy s pid owner \<longleftrightarrow> (\<exists>u. \<exists>info \<in> set (knownProjects s u). up_ProjectID info = pid \<and> up_IsOwner info = owner)"

lemma findOwner_held: "findOwner plist pid = Some a \<Longrightarrow> \<exists>info \<in> set plist. up_ProjectID info = pid \<and> up_IsOwner info = a"
  by (induction plist) (auto split: if_splits)

lemma findOwner_none: "findOwner plist pid = None \<longleftrightarrow> (\<forall>info \<in> set plist. up_ProjectID info \<noteq> pid)"
  by (induction plist) auto

lemma search_answers:
  assumes "is_order ord" and "run_state (findUserByProject pr pid) s = ((u, a, e), t)" and "pr_order pr = ord"
  shows "e = None \<Longrightarrow> heldBy s pid a" and "e \<noteq> None \<Longrightarrow> \<not> heldBy s pid b"
proof -
  let ?m = "User2projects (st_cache s)" and ?us = "ord (st_loops s) (gm_keys (User2projects (st_cache s)))"
  have ans: "searchUsers ?m ?us pid = (u, a, e)" using assms(2,3) by (simp add: findUserByProject_def)
  show "heldBy s pid a" if "e = None"
    using ans that by (fastforce simp: heldBy_def knownProjects_def dest!: searchUsers_hit findOwner_held)
  show "\<not> heldBy s pid b" if "e \<noteq> None"
  proof
    assume "heldBy s pid b"
    then obtain v where v: "findOwner (gm_at [] ?m v) pid \<noteq> None"
      unfolding heldBy_def knownProjects_def findOwner_none by blast
    then have "v \<in> set (gm_keys ?m)" by (auto simp: gm_at_def gm_keys_map_of split: option.splits)
    then have "v \<in> set ?us" using assms(1) by simp
    with v ans that searchUsers_found [of v ?us ?m pid] show False by fastforce
  qed
qed

lemma projectTask_reads:
  assumes "is_order (pr_order pr)" and "\<And>m. readsKeep S Q (k (Panic m))"
    and "\<And>s u a. s \<in> S \<Longrightarrow> heldBy s pid a \<Longrightarrow> readsKeep S Q (k (Ret (u, a, None)))"
    and "\<And>s u a e. s \<in> S \<Longrightarrow> (\<And>b. \<not> heldBy s pid b) \<Longrightarrow> readsKeep S Q (k (Ret (u, a, e)))"
  shows "readsKeep S Q (projectTask pr pid k)"
  unfolding projectTask_def
proof (rule readsKeep_atomic)
  fix s x t
  assume s: "s \<in> S" and run: "run_state (findUserByProject pr pid) s = (x, t)"
  obtain u a e where x: "x = (u, a, e)" by (metis prod_cases3)
  note ans = search_answers [OF assms(1) run [unfolded x] refl]
  show "readsKeep S Q (case x of
       (userId, isOwner, None) \<Rightarrow> k (Ret (userId, isOwner, None))
     | (_, _, Some _) \<Rightarrow> updateTask pr (\<lambda>res. case res of
           Panic m \<Rightarrow> k (Panic m)
         | Ret (Some err) \<Rightarrow> k (Ret ('''', False, Some err))
         | Ret None \<Rightarrow> atomic (findUserByProject pr pid) (\<lambda>again.
             atomic theCache (\<lambda>cache.
               let userId = fst again; plist = gm_at [] (User2projects cache) userId
               in k (Ret
                 (if length plist > 1 then (userId, False, None)
                  else if length plist = 1 then (userId, up_IsOwner (plist ! 0), None)
                  else ('''', False, Some notFound)))))))"
  proof (cases e)
    case None
    with assms(3) [OF s] ans(1) show ?thesis by (simp add: x)
  next
    case (Some err)
    with ans(2) have "readsKeep S Q (k (Ret (v, b, e')))" for v b e'
      using assms(4) [OF s] by simp
    with Some show ?thesis
      by (auto simp: x Let_def intro!: updateTask_reads readsKeep_atomic assms(2) split: outcome.split option.split)
  qed
qed

section \<open>How far a refresh gets\<close>

text \<open>A query that misses the cache gets as far as having listed the projects.\<close>

lemma running_listed:
  assumes "running T s0 (xs @ (c, userTask pr v k) # ys) s"
    and "gm_at [] (User2projects (st_cache s)) v = []"
    and "run_state (cl_GetProjects (pr_client pr) (pr_clusterID pr)) (st_http s) = (Inr es, h)"
  shows "running T s0 (xs @ (c, refillTask pr es (userAfter v k)) # ys) (s\<lparr>st_http := h\<rparr>)"
proof -
  have "running T s0 (xs @ (c, updateTask pr (userAfter v k)) # ys) s"
    using running_block [OF assms(1) [unfolded userTask_def], of "st_cache s" s] assms(2) by simp
  from running_block [OF this [unfolded updateTask_def], of "Inr es" "s\<lparr>st_http := h\<rparr>"] show ?thesis
    using assms(3) by simp
qed

lemma running_cleared:
  assumes "running T s0 (xs @ (c, refillTask pr es k) # ys) s" and "is_order (pr_order pr)"
  shows "running T s0 (xs @ (c, fillTask pr es k) # ys) (s\<lparr>st_cache := emptyCache, st_loops := Suc (Suc (st_loops s))\<rparr>)"
  using running_block [OF assms(1) [unfolded refillTask_def]] run_ClearCache [OF assms(2)] by fastforce

text \<open>A refresh gets as far as having recorded the first projects.\<close>

lemma running_recorded:
  "running T s0 (xs @ (c, cacheProjectsTask pr (ps @ qs) k) # ys) s \<Longrightarrow> fetchAll pr ps (st_http s) = (ds, None, None, h) \<Longrightarrow>
     running T s0 (xs @ (c, cacheProjectsTask pr qs k) # ys) (s\<lparr>st_http := h, st_cache := fold recordListing ds (st_cache s)\<rparr>)"
proof (induction ps arbitrary: s ds)
  case Nil
  then show ?case by auto
next
  case (Cons p ps)
  from Cons.prems(2) obtain ms h1 ns h2 ds' where
    ms: "run_state (cl_GetProjectMembers (pr_client pr) (e_ID p)) (st_http s) = (Inr ms, h1)"
    and ns: "run_state (cl_GetProjectNamespaces (pr_client pr) (pr_clusterID pr) (e_ID p)) h1 = (Inr ns, h2)"
    and rest: "fetchAll pr ps h2 = (ds', None, None, h)" and ds: "ds = (p, ms, ns) # ds'"
    by (auto split: prod.splits sum.splits)
  let ?t = "s\<lparr>st_http := h2, st_cache := fold (addNamespace p) ns (fold (addMember p) ms (st_cache s))\<rparr>"
  have "running T s0 (xs @ (c, atomic (onCache (fold (addMember p) ms)) (\<lambda>_.
      atomic (onHttp (cl_GetProjectNamespaces (pr_client pr) (pr_clusterID pr) (e_ID p))) (\<lambda>nss. case nss of
          Inl err \<Rightarrow> k (Some err)
        | Inr namespaces \<Rightarrow> atomic (onCache (fold (addNamespace p) namespaces)) (\<lambda>_. cacheProjectsTask pr (ps @ qs) k)))) # ys)
      (s\<lparr>st_http := h1\<rparr>)"
    using running_block [OF Cons.prems(1) [simplified], of "Inr ms" "s\<lparr>st_http := h1\<rparr>"] ms by simp
  from running_block [OF running_block [OF this], of "()" _ "Inr ns"]
  have "running T s0 (xs @ (c, atomic (onCache (fold (addNamespace p) ns)) (\<lambda>_. cacheProjectsTask pr (ps @ qs) k)) # ys)
      (s\<lparr>st_http := h2, st_cache := fold (addMember p) ms (st_cache s)\<rparr>)"
    using ns by simp
  from running_block [OF this, of "()" ?t] have "running T s0 (xs @ (c, cacheProjectsTask pr (ps @ qs) k) # ys) ?t"
    by simp
  from Cons.IH [OF this, of ds'] rest show ?case
    by (simp add: ds recordListing_eq)
qed

lemma fetchAll_append:
  "fetchAll pr ps h = (ds, None, None, h1) \<Longrightarrow> fetchAll pr qs h1 = (ds', part, err, h2) \<Longrightarrow>
     fetchAll pr (ps @ qs) h = (ds @ ds', part, err, h2)"
  by (induction pr ps h arbitrary: ds rule: fetchAll.induct) (auto split: prod.splits sum.splits)

lemma projectsOfUser_append: "projectsOfUser (ds @ ds') u = projectsOfUser ds u @ projectsOfUser ds' u"
  by (simp add: projectsOfUser_def)

text \<open>From the moment the projects are listed, a refresh that meets no failure runs to its end.\<close>

text \<open>What is done with the answer leaves the cache and the requests alone.\<close>

definition quiet :: "('b \<Rightarrow> (rstate, 'a) task) \<Rightarrow> bool" where
  "quiet k \<longleftrightarrow> (\<forall>r s a t. run_state (together (k r)) s = (a, t) \<longrightarrow> st_http t = st_http s \<and> st_cache t = st_cache s)"

lemma running_filled:
  assumes "running T s0 (xs @ (c, fillTask pr es (userAfter v k)) # ys) s" and "quiet k"
    and "\<And>h q. \<exists>r. pr_opa pr h q = Inr r" and "fetchAll pr es (st_http s) = (ds, None, None, h)"
  shows "\<exists>a t. running T s0 (xs @ (c, Ended a) # ys) t \<and>
    st_http t = h @ [opaRequest (fold recordListing ds (st_cache s))] \<and> st_cache t = fold recordListing ds (st_cache s)"
proof -
  let ?c = "fold recordListing ds (st_cache s)"
  obtain r where "pr_opa pr h (opaRequest ?c) = Inr r" using assms(3) by blast
  then obtain x where run: "run_state (together (fillTask pr es (userAfter v k))) s =
      run_state (together (k x)) (s\<lparr>st_cache := ?c, st_http := h @ [opaRequest ?c]\<rparr>)"
    using assms(4) by (auto simp: fillTask_def together_cacheProjects run_cacheProjects userAfter_def Let_def)
  obtain a t where end_state: "run_state (together (k x)) (s\<lparr>st_cache := ?c, st_http := h @ [opaRequest ?c]\<rparr>) = (a, t)"
    by (metis prod.exhaust)
  with assms(2) have "st_http t = h @ [opaRequest ?c] \<and> st_cache t = ?c"
    by (fastforce simp: quiet_def)
  with running_finish [OF assms(1)] run end_state show ?thesis by metis
qed

lemma cached_user:
  "gm_at [] (User2projects (st_cache s)) u \<noteq> [] \<Longrightarrow>
     run_state (ResolveProjectsByUser pr u) s = (Ret (gm_at [] (User2projects (st_cache s)) u, None), s)"
  by (simp add: ResolveProjectsByUser_def)

text \<open>The small installation: its listings do not depend on what was asked before.\<close>

definition demo_entities :: "Entity list" where
  "demo_entities = [\<lparr>e_ID = ''p1'', e_Name = ''alice''\<rparr>, \<lparr>e_ID = ''p2'', e_Name = ''team''\<rparr>]"

definition demo_binding :: "string \<Rightarrow> string \<Rightarrow> Member" where
  "demo_binding u r = \<lparr>m_ID = [], m_UserID = u, m_ProjectID = [], m_Type = ''User'', m_PrincipalID = u, m_RoleTemplateID = r\<rparr>"

definition demo_first :: "listing list" where
  "demo_first = [(\<lparr>e_ID = ''p1'', e_Name = ''alice''\<rparr>, [demo_binding ''u1'' ''project-member''], [''alice-a''])]"

definition demo_second :: "listing list" where
  "demo_second = [(\<lparr>e_ID = ''p2'', e_Name = ''team''\<rparr>,
     [demo_binding ''u1'' ''project-owner'', demo_binding ''u2'' ''project-member''], [''team-a''])]"

lemma demo_fetch:
  "run_state (cl_GetProjects (pr_client (demo_pr demo_url stored_order)) (pr_clusterID (demo_pr demo_url stored_order))) h =
     (Inr demo_entities, h @ demo_gets [''/v3/cluster/c/projects''])"
  "fetchAll (demo_pr demo_url stored_order) (take 1 demo_entities) h =
     (demo_first, None, None, h @ demo_gets [''/v3/projects/p1/projectroletemplatebindings'', ''/v3/cluster/c/namespaces?projectId=p1''])"
  "fetchAll (demo_pr demo_url stored_order) (drop 1 demo_entities) h =
     (demo_second, None, None, h @ demo_gets [''/v3/projects/p2/projectroletemplatebindings'', ''/v3/cluster/c/namespaces?projectId=p2''])"
  by (simp_all add: demo_eval demo_gets_def demo_entities_def demo_first_def demo_second_def demo_binding_def)

lemma demo_user_projects:
  "projectsOfUser demo_first ''u1'' = [\<lparr>up_IsOwner = False, up_ProjectID = ''p1'', up_ProjectName = ''alice''\<rparr>]"
  "projectsOfUser demo_second ''u1'' = [\<lparr>up_IsOwner = True, up_ProjectID = ''p2'', up_ProjectName = ''team''\<rparr>]"
  "projectsOfUser (demo_first @ demo_second) ''u2'' = [\<lparr>up_IsOwner = False, up_ProjectID = ''p2'', up_ProjectName = ''team''\<rparr>]"
  by (simp_all add: projectsOfUser_def membershipsIn_def infoOf_def demo_first_def demo_second_def demo_binding_def)

lemma demo_opa_answers: "\<exists>r. pr_opa (demo_pr urls ord) h q = Inr r"
  by (simp add: demo_pr_def demo_opa_def)

end
