(* ===== verification/Admission_Concurrent.thy ===== *)
theory Admission_Concurrent
  imports Admission_Controller Resolver_Concurrent
begin

text \<open>
  The webhook as \<open>net/http\<close> runs it: every review in a goroutine of its own, with its own response writer
  and the resolver they share. The handler of \<open>admission_controller.go\<close> is written here as a task over the
  resolver's state and proved equal to the handler; then what holds of a reply in every interleaving, and
  what goes wrong in some.
\<close>

section \<open>The reviews as tasks\<close>

text \<open>The checks before the switch: a reply, or the request under review.\<close>

definition reviewed :: "'q admission_env \<Rightarrow> HttpRequest \<Rightarrow> ResponseWriter + AdmissionRequest" where
  "reviewed env r =
     (if hr_Path r \<noteq> ''/mutate'' then
        Inl \<lparr>rw_status = Some 404, rw_body = ''404 page not found'' @ [CHR 0x0A]\<rparr>
      else if hr_Method r \<noteq> ''POST'' then
        Inl \<lparr>rw_status = Some 405, rw_body = ''Invalid method '' @ hr_Method r @ '', only POST requests are allowed''\<rparr>
      else (case hr_Body r of
          Inl err \<Rightarrow> Inl \<lparr>rw_status = Some 400, rw_body = ''Could not read request body: '' @ err\<rparr>
        | Inr body \<Rightarrow>
            if hr_ContentType r \<noteq> jsonContentType then
              Inl \<lparr>rw_status = Some 400, rw_body = ''Unsupported content type '' @ hr_ContentType r @ '', only ''
                @ jsonContentType @ '' is supported''\<rparr>
            else (case ae_review env body of
                Inl err \<Rightarrow> Inl \<lparr>rw_status = Some 400, rw_body = ''Could not deserialize request: '' @ err\<rparr>
              | Inr None \<Rightarrow> Inl \<lparr>rw_status = Some 400, rw_body = ''Malformed admission review: request is nil''\<rparr>
              | Inr (Some req) \<Rightarrow> Inr req)))"

text \<open>A namespace: from the answer of the resolver to the verdict.\<close>

definition namespaceVerdict :: "'q admission_env \<Rightarrow> ProjectResolver \<Rightarrow> AdmissionRequest
    \<Rightarrow> (verdict outcome \<Rightarrow> (rstate, 'a) task) \<Rightarrow> (UserProjectInfo list \<times> go_error option) outcome \<Rightarrow> (rstate, 'a) task" where
  "namespaceVerdict env pr req k res = (case res of
       Panic m \<Rightarrow> k (Panic m)
     | Ret (plist, Some err) \<Rightarrow> k (Ret (Returned (Some err)))
     | Ret (plist, None) \<Rightarrow>
         if length plist > 1 then k (Ret (Returned None))
         else if length plist = 0 then k (Ret (Returned None))
         else if up_IsOwner (plist ! 0) then k (Ret (Returned None))
         else (case ae_namespace env (ar_Raw req) of
             Inl err \<Rightarrow> k (Ret (Returned (Some err)))
           | Inr p \<Rightarrow>
               (case deref p of
                  Panic m \<Rightarrow> k (Panic m)
                | Ret ns \<Rightarrow>
                    if \<not> HasPrefix (ns_Name ns) (up_ProjectName (plist ! 0)) then
                      k (Ret (Decided False
                        (''Namespace must start with '' @ [CHR 0x27] @ up_ProjectName (plist ! 0) @ [CHR 0x27]) []))
                    else atomic (nextRange (pr_order pr) (gm_keys (ns_Annotations ns))) (\<lambda>ks.
                      let kvp = fold (\<lambda>k m. gm_set m k (gm_at '''' (ns_Annotations ns) k)) ks [];
                          kvp' = gm_set kvp ''field.cattle.io/projectId'' (up_ProjectID (plist ! 0))
                      in k (Ret (Decided True ''denied'' [annotationPatch kvp']))))))"

definition namespaceReview :: "'q admission_env \<Rightarrow> ProjectResolver \<Rightarrow> AdmissionRequest
    \<Rightarrow> (verdict outcome \<Rightarrow> (rstate, 'a) task) \<Rightarrow> (rstate, 'a) task" where
  "namespaceReview env pr req k = userTask pr (ar_Username req) (namespaceVerdict env pr req k)"

definition podReview :: "'q admission_env \<Rightarrow> ProjectResolver \<Rightarrow> AdmissionRequest
    \<Rightarrow> (verdict outcome \<Rightarrow> (rstate, 'a) task) \<Rightarrow> (rstate, 'a) task" where
  "podReview env pr req k = (case ae_pod env (ar_Raw req) of
       Inl err \<Rightarrow> k (Ret (Returned (Some err)))
     | Inr p \<Rightarrow> namespaceTask pr (ar_Namespace req) (\<lambda>res. case res of
           Panic m \<Rightarrow> k (Panic m)
         | Ret (projectID, _, _) \<Rightarrow>
             if projectID = '''' then k (Ret (Decided True ''denied'' []))
             else projectTask pr projectID (\<lambda>found. case found of
                 Panic m \<Rightarrow> k (Panic m)
               | Ret (_, isOwner, err) \<Rightarrow>
                   if err \<noteq> None \<or> isOwner then k (Ret (Decided True ''denied'' []))
                   else (case deref p of
                       Panic m \<Rightarrow> k (Panic m)
                     | Ret pod \<Rightarrow> atomic (checkContainers env (pr_order pr) 0 pod (True, ''denied'', [])) (\<lambda>vars.
                         k (Ret (case vars of (allowed, deniedReason, patchOps) \<Rightarrow>
                           Decided allowed deniedReason patchOps)))))))"

text \<open>The reply once the verdict is known; a handler that panics has written nothing.\<close>

definition written :: "'q admission_env \<Rightarrow> AdmissionRequest \<Rightarrow> verdict outcome \<Rightarrow> unit outcome \<times> ResponseWriter" where
  "written env req res = (case res of Panic m \<Rightarrow> (Panic m, newWriter) | Ret v \<Rightarrow> (Ret (), reply env req v))"

definition reviewTask :: "'q admission_env \<Rightarrow> ProjectResolver \<Rightarrow> HttpRequest \<Rightarrow> (rstate, unit outcome \<times> ResponseWriter) task" where
  "reviewTask env pr r = (case reviewed env r of
       Inl w \<Rightarrow> Ended (Ret (), w)
     | Inr req \<Rightarrow>
         if ar_Kind req = ''Namespace'' then namespaceReview env pr req (\<lambda>v. Ended (written env req v))
         else if ar_Kind req = ''Pod'' then podReview env pr req (\<lambda>v. Ended (written env req v))
         else Ended (written env req (Ret (Decided True ''denied'' []))))"

section \<open>The tasks are the handler\<close>

lemma together_namespaceReview:
  "run_state (together (namespaceReview env pr req k)) s =
     (case run_state (admitNamespace env (NewAdmissionController pr) req) (fresh s) of
        (x, s') \<Rightarrow> run_state (together (k x)) (as_resolver s'))"
  by (simp add: namespaceReview_def namespaceVerdict_def together_queries admitNamespace_def Let_def
      split: prod.split outcome.split option.split sum.split)

lemma together_podReview:
  "run_state (together (podReview env pr req k)) s =
     (case run_state (admitPod env (NewAdmissionController pr) req) (fresh s) of
        (x, s') \<Rightarrow> run_state (together (k x)) (as_resolver s'))"
  by (simp add: podReview_def together_queries admitPod_def Let_def
      split: prod.split outcome.split option.split sum.split)

lemma verdicts_write_nothing:
  "as_writer (snd (run_state (admitNamespace env ac req) s)) = as_writer s"
  "as_writer (snd (run_state (admitPod env ac req) s)) = as_writer s"
  by (simp_all add: admitNamespace_def admitPod_def Let_def
      split: prod.split outcome.split option.split sum.split)

text \<open>The checks, and what the handler does with a request that passes them.\<close>

lemma reviewed_refused:
  assumes "reviewed env r = Inl w"
  shows "run_state (serveMux env ac r) (fresh s) = (Ret (), \<lparr>as_resolver = s, as_writer = w\<rparr>)"
  using assms
  by (auto simp: reviewed_def serveMux_def ServeAdmitFunc_def DoServeAdmitFunc_def refuse_def fresh_def
      setStatus_def newWriter_def Let_def split: if_splits sum.splits option.splits)

lemma reviewed_accepted: "reviewed env r = Inr req \<longleftrightarrow> hr_Path r = ''/mutate'' \<and> decodes env r req"
  by (auto simp: reviewed_def decodes_def split: sum.splits option.splits)

lemma ServeAdmitFunc_panics:
  assumes "decodes env r req"
    and "run_state (if ar_Kind req = ''Namespace'' then admitNamespace env ac req
         else if ar_Kind req = ''Pod'' then admitPod env ac req
         else State_Monad.return (Ret (Decided True ''denied'' []))) s = (Panic m, s')"
  shows "run_state (ServeAdmitFunc env ac r) s = (Panic m, s')"
  using assms
  by (auto simp: decodes_def ServeAdmitFunc_def DoServeAdmitFunc_def split: sum.splits)

text \<open>The verdict on a request, as the handler computes it.\<close>

definition verdictOf :: "'q admission_env \<Rightarrow> AdmissionController \<Rightarrow> AdmissionRequest \<Rightarrow> verdict outcome admitting" where
  "verdictOf env ac req =
     (if ar_Kind req = ''Namespace'' then admitNamespace env ac req
      else if ar_Kind req = ''Pod'' then admitPod env ac req
      else State_Monad.return (Ret (Decided True ''denied'' [])))"

lemma serve_verdict:
  assumes "reviewed env r = Inr req" and "run_state (verdictOf env ac req) (fresh s) = (v, s')"
  shows "\<exists>t. run_state (serveMux env ac r) (fresh s) = (fst (written env req v), t) \<and>
    as_writer t = snd (written env req v) \<and> as_resolver t = as_resolver s'"
proof -
  from assms(1) have ok: "hr_Path r = ''/mutate''" "decodes env r req" by (simp_all add: reviewed_accepted)
  have w: "as_writer s' = newWriter"
    using assms(2) verdicts_write_nothing [of env ac req "fresh s"] by (auto simp: verdictOf_def split: if_splits)
  show ?thesis
  proof (cases v)
    case (Ret x)
    with run_ServeAdmitFunc [OF ok(2) _ w, of ac s x] assms(2) ok(1) show ?thesis
      by (simp add: serveMux_def written_def verdictOf_def)
  next
    case (Panic m)
    with ServeAdmitFunc_panics [OF ok(2), of ac "fresh s" m s'] assms(2) ok(1) w show ?thesis
      by (simp add: serveMux_def written_def verdictOf_def)
  qed
qed

lemma together_review:
  "run_state (together (reviewTask env pr r)) s =
     (case run_state (serveMux env (NewAdmissionController pr) r) \<lparr>as_resolver = s, as_writer = newWriter\<rparr> of
        (res, t) \<Rightarrow> ((res, as_writer t), as_resolver t))"
proof (cases "reviewed env r")
  case (Inl w)
  with reviewed_refused [OF Inl, of "NewAdmissionController pr" s] show ?thesis
    by (simp add: reviewTask_def fresh_def)
next
  case (Inr req)
  obtain v s' where v: "run_state (verdictOf env (NewAdmissionController pr) req) (fresh s) = (v, s')"
    by (metis prod.exhaust)
  from serve_verdict [OF Inr v] obtain t where
    t: "run_state (serveMux env (NewAdmissionController pr) r) \<lparr>as_resolver = s, as_writer = newWriter\<rparr> = (fst (written env req v), t)"
      "as_writer t = snd (written env req v)" "as_resolver t = as_resolver s'"
    by (auto simp: fresh_def)
  have "run_state (together (reviewTask env pr r)) s = (written env req v, as_resolver s')"
    using v Inr by (auto simp: reviewTask_def verdictOf_def together_namespaceReview together_podReview fresh_def
        split: if_splits)
  with t show ?thesis by simp
qed

text \<open>
  A review whose goroutine is not interrupted is the handler: the task ends with what the handler
  returns and has written, and leaves the resolver as the handler leaves it.
\<close>

lemma reviews_as_tasks:
  "together (reviewTask env pr r) = State (\<lambda>s.
     case run_state (serveMux env (NewAdmissionController pr) r) \<lparr>as_resolver = s, as_writer = newWriter\<rparr> of
       (res, t) \<Rightarrow> ((res, as_writer t), as_resolver t))"
  by (intro state_ext) (simp add: together_review)

section \<open>What every interleaving keeps\<close>

text \<open>
  A verdict that the states \<open>S\<close> justify, those the server has gone through when the verdict is known. A
  namespace review that does not fail is ignored only when, in one of them, the requester did not have a
  sole project not owned; otherwise it is decided by the rule of the sequential specification for the sole
  project that the requester had in one of them, not owned, named and granted by Rancher. A pod passes
  unchecked only when its namespace had no project, or its project was held by an owner or by nobody, and
  otherwise it is checked by the specification of pods.
\<close>

definition checkedPod :: "'q admission_env \<Rightarrow> 'q Container list \<Rightarrow> bool \<Rightarrow> string \<Rightarrow> PatchOperation list \<Rightarrow> bool" where
  "checkedPod env cs allowed reason ops \<longleftrightarrow>
     (allowed \<longleftrightarrow> list_all (containerOk env) cs) \<and> mset ops = mset (allMissingLimits env 0 cs) \<and>
     (\<not> allowed \<longrightarrow> (\<exists>c \<in> set cs. reason \<in> offences env c))"

definition projectRead :: "rstate set \<Rightarrow> string \<Rightarrow> bool \<Rightarrow> bool" where
  "projectRead S n owner \<longleftrightarrow> (\<exists>s \<in> S. \<exists>t \<in> S. knownProject s n \<noteq> '''' \<and>
     (heldBy t (knownProject s n) owner \<or> (\<forall>b. \<not> heldBy t (knownProject s n) b)))"

definition justifiedVerdict :: "'q admission_env \<Rightarrow> ProjectResolver \<Rightarrow> rstate set \<Rightarrow> AdmissionRequest \<Rightarrow> verdict \<Rightarrow> bool" where
  "justifiedVerdict env pr S req v =
     (if ar_Kind req = ''Namespace'' then
        (\<exists>e. v = Returned (Some e)) \<or>
        v = Returned None \<and> (\<exists>s \<in> S. soleProject (knownProjects s (ar_Username req)) = None) \<or>
        (\<exists>s \<in> S. \<exists>info ns. knownProjects s (ar_Username req) = [info] \<and> \<not> up_IsOwner info \<and> namedInfo info \<and>
           granted S pr (ar_Username req) info \<and> ae_namespace env (ar_Raw req) = Inr (Some ns) \<and> v = placeNamespace ns info)
      else if ar_Kind req = ''Pod'' then
        (\<exists>e. v = Returned (Some e)) \<or>
        v = Decided True ''denied'' [] \<and> ((\<exists>s \<in> S. knownProject s (ar_Namespace req) = '''') \<or> projectRead S (ar_Namespace req) True) \<or>
        (\<exists>cs allowed reason ops. ae_pod env (ar_Raw req) = Inr (Some cs) \<and> checkedPod env cs allowed reason ops \<and>
           v = Decided allowed reason ops \<and> projectRead S (ar_Namespace req) False)
      else v = Decided True ''denied'' [])"

definition justifiedReply :: "'q admission_env \<Rightarrow> ProjectResolver \<Rightarrow> rstate set \<Rightarrow> HttpRequest \<Rightarrow> unit outcome \<times> ResponseWriter \<Rightarrow> bool" where
  "justifiedReply env pr S r rw = (\<forall>req. reviewed env r = Inr req \<longrightarrow>
     (case rw of (res, w) \<Rightarrow> (\<exists>m. res = Panic m) \<or> (\<exists>v. w = reply env req v \<and> justifiedVerdict env pr S req v)))"

lemma justified_written:
  "reviewed env r = Inr req \<Longrightarrow> (\<And>v. res = Ret v \<Longrightarrow> justifiedVerdict env pr S req v) \<Longrightarrow>
     justifiedReply env pr S r (written env req res)"
  by (cases res) (auto simp: justifiedReply_def written_def)

text \<open>The blocks of the reviews keep the invariant and the memberships.\<close>

lemma containers_state: "\<exists>n. snd (run_state (checkContainers env ord i cs vars) s) = s\<lparr>st_loops := n\<rparr>"
proof (induction cs arbitrary: i vars s)
  case Nil
  then show ?case by (intro exI [of _ "st_loops s"]) simp
next
  case (Cons c cs)
  obtain vars' s' where c: "run_state (checkContainer env ord i c vars) s = (vars', s')" by (metis prod.exhaust)
  then have "s' = s\<lparr>st_loops := Suc (st_loops s)\<rparr>" by (cases vars) (auto simp: checkContainer_def Let_def split: prod.splits)
  with c Cons.IH [of "Suc i" vars' s'] show ?case by auto
qed

lemma loop_keeps:
  assumes "\<And>s. \<exists>n. snd (run_state m s) = s\<lparr>st_loops := n\<rparr>" and "\<And>x. blocksKeep (stateOk server tok) Q (k x)"
  shows "blocksKeep (stateOk server tok) Q (atomic m k)"
proof
  fix s x t
  assume "stateOk server tok s" and "run_state m s = (x, t)"
  with assms(1) [of s] assms(2) show "stateOk server tok t \<and> blocksKeep (stateOk server tok) Q (k x)"
    by (auto simp: stateOk_def)
qed

lemma loop_granted:
  assumes "\<And>s. \<exists>n. snd (run_state m s) = s\<lparr>st_loops := n\<rparr>" and "\<And>x. blocksSeen S (grantedOk S pr) (k x)"
  shows "blocksSeen S (grantedOk S pr) (atomic m k)"
proof (rule same_cache_granted [OF _ assms(2)])
  fix s
  from assms(1) [of s] show "st_cache (snd (run_state m s)) = st_cache s" by auto
qed

lemma range_state: "\<exists>n. snd (run_state (nextRange ord ks) s) = s\<lparr>st_loops := n\<rparr>"
  by auto

lemmas loops = loop_keeps [OF range_state] loop_keeps [OF containers_state]
  loop_granted [OF range_state] loop_granted [OF containers_state]

lemma reviewTask_granted:
  assumes "is_order (pr_order pr)"
  shows "blocksSeen S (grantedOk S pr) (reviewTask env pr r)"
proof -
  have "blocksSeen S (grantedOk S pr) (namespaceVerdict env pr req (\<lambda>v. Ended (written env req v)) res)" for req res
    by (auto simp: namespaceVerdict_def Let_def intro!: loops split: outcome.split option.split sum.split)
  then show ?thesis
    by (auto simp: reviewTask_def namespaceReview_def podReview_def Let_def intro!: queries_granted assms loops
        split: outcome.split option.split sum.split)
qed

context project_source
begin

lemma reviewTask_keeps:
  assumes "pr_client pr = cl" and "is_order (pr_order pr)"
  shows "blocksKeep (stateOk server tok) (\<lambda>rw. True) (reviewTask env pr r)"
proof -
  have "blocksKeep (stateOk server tok) (\<lambda>rw. True) (namespaceVerdict env pr req (\<lambda>v. Ended (written env req v)) res)" for req res
    by (auto simp: namespaceVerdict_def Let_def intro!: loops split: outcome.split option.split sum.split)
  then show ?thesis
    by (auto simp: reviewTask_def namespaceReview_def podReview_def Let_def
        intro!: userTask_keeps namespaceTask_keeps projectTask_keeps assms loops split: outcome.split option.split sum.split)
qed

end

text \<open>Each way to a verdict is justified by what was read on it.\<close>

lemma namespaceVerdict_reads:
  assumes "is_order (pr_order pr)" and "decodesMaps env" and "ar_Kind req = ''Namespace''"
    and s: "s \<in> S" "cacheOk (st_cache s)" "grantedOk S pr s"
    and panics: "\<And>m. Q (k (Panic m))" and ruled: "\<And>v. justifiedVerdict env pr S req v \<Longrightarrow> Q (k (Ret v))"
  shows "readsKeep S Q (namespaceVerdict env pr req (\<lambda>v. Ended (k v)) (Ret (knownProjects s (ar_Username req), None)))"
proof -
  let ?plist = "knownProjects s (ar_Username req)"
  have failed: "Q (k (Ret (Returned (Some e))))" for e
    by (rule ruled) (simp add: justifiedVerdict_def assms(3))
  have ignored: "Q (k (Ret (Returned None)))" if "soleProject ?plist = None"
    by (rule ruled) (use that s(1) in \<open>auto simp: justifiedVerdict_def assms(3)\<close>)
  have placed: "Q (k (Ret (placeNamespace ns info)))"
    if "?plist = [info]" "\<not> up_IsOwner info" "ae_namespace env (ar_Raw req) = Inr (Some ns)" for ns info
  proof (rule ruled)
    have "namedInfo info" using cacheOk_named [OF s(2), of "ar_Username req"] that(1) by (simp add: knownProjects_def)
    moreover have "granted S pr (ar_Username req) info" using s(3) that(1) by (simp add: grantedOk_def)
    ultimately show "justifiedVerdict env pr S req (placeNamespace ns info)"
      using that s(1) by (auto simp: justifiedVerdict_def assms(3))
  qed
  have patch: "annotationPatch (gm_set (fold (\<lambda>k m. gm_set m k (gm_at '''' (ns_Annotations ns) k))
        (pr_order pr n (gm_keys (ns_Annotations ns))) []) a v) = annotationPatch (gm_set (ns_Annotations ns) a v)"
    if "ae_namespace env (ar_Raw req) = Inr (Some ns)" for ns n a v
    using that assms(2) by (intro copied_patch [OF assms(1)]) (auto simp: decodesMaps_def)
  consider info where "?plist = [info]" "\<not> up_IsOwner info" | "soleProject ?plist = None"
    by (cases "soleProject ?plist") (auto simp: soleProject_Some)
  then show ?thesis
  proof cases
    case 1
    have allow: "Q (k (Ret (Decided True ''denied''
        [annotationPatch (gm_set (ns_Annotations ns) ''field.cattle.io/projectId'' (up_ProjectID info))])))"
      if "ae_namespace env (ar_Raw req) = Inr (Some ns)" "HasPrefix (ns_Name ns) (up_ProjectName info)" for ns
      using placed [OF 1 that(1)] that(2) by (simp add: placeNamespace_def)
    have deny: "Q (k (Ret (Decided False (''Namespace must start with '' @ [CHR 0x27] @ up_ProjectName info @ [CHR 0x27]) [])))"
      if "ae_namespace env (ar_Raw req) = Inr (Some ns)" "\<not> HasPrefix (ns_Name ns) (up_ProjectName info)" for ns
      using placed [OF 1 that(1)] that(2) by (simp add: placeNamespace_def prefixDenial_def)
    show ?thesis
      using 1 allow deny failed panics
      by (auto simp: namespaceVerdict_def Let_def patch deref_def intro!: readsKeep_atomic split: sum.split option.split)
  next
    case 2
    then have "length ?plist \<noteq> 1 \<or> up_IsOwner (?plist ! 0)"
      by (auto simp: soleProject_def split: list.splits if_splits)
    with ignored [OF 2] show ?thesis
      by (cases "length ?plist" rule: nat.exhaust) (auto simp: namespaceVerdict_def)
  qed
qed

lemma podReview_reads:
  assumes "is_order (pr_order pr)" and "ar_Kind req = ''Pod''"
    and panics: "\<And>m. Q (k (Panic m))" and ruled: "\<And>v. justifiedVerdict env pr S req v \<Longrightarrow> Q (k (Ret v))"
  shows "readsKeep S Q (podReview env pr req (\<lambda>v. Ended (k v)))"
proof -
  let ?n = "ar_Namespace req"
  have failed: "Q (k (Ret (Returned (Some e))))" for e
    by (rule ruled) (simp add: justifiedVerdict_def assms(2))
  have free: "Q (k (Ret (Decided True ''denied'' [])))" if "s \<in> S" "knownProject s ?n = ''''" for s
    by (rule ruled) (use that in \<open>auto simp: justifiedVerdict_def assms(2)\<close>)
  have owned: "Q (k (Ret (Decided True ''denied'' [])))" if "projectRead S ?n True"
    by (rule ruled) (use that in \<open>simp add: justifiedVerdict_def assms(2)\<close>)
  have checked: "Q (k (Ret (Decided allowed reason ops)))"
    if "projectRead S ?n False" "ae_pod env (ar_Raw req) = Inr (Some cs)"
      and "run_state (checkContainers env (pr_order pr) 0 cs (True, ''denied'', [])) t = ((allowed, reason, ops), t')"
    for cs allowed reason ops t t'
  proof (rule ruled)
    from run_checkContainers [OF assms(1) that(3)] have "checkedPod env cs allowed reason ops"
      by (auto simp: checkedPod_def)
    with that(1,2) show "justifiedVerdict env pr S req (Decided allowed reason ops)"
      by (auto simp: justifiedVerdict_def assms(2))
  qed
  show ?thesis
  proof (cases "ae_pod env (ar_Raw req)")
    case (Inl e)
    with failed show ?thesis by (simp add: podReview_def)
  next
    case (Inr p)
    let ?decide = "\<lambda>found. case found of Panic m \<Rightarrow> Ended (k (Panic m)) | Ret (_, isOwner, err) \<Rightarrow>
        if err \<noteq> None \<or> isOwner then Ended (k (Ret (Decided True ''denied'' [])))
        else (case deref p of Panic m \<Rightarrow> Ended (k (Panic m)) | Ret pod \<Rightarrow>
          atomic (checkContainers env (pr_order pr) 0 pod (True, ''denied'', [])) (\<lambda>vars.
            Ended (k (Ret (case vars of (allowed, deniedReason, patchOps) \<Rightarrow> Decided allowed deniedReason patchOps)))))"
    have decide: "readsKeep S Q (?decide (Ret (u, a, e)))"
      if "a \<or> e \<noteq> None \<Longrightarrow> projectRead S ?n True" "\<not> a \<Longrightarrow> e = None \<Longrightarrow> projectRead S ?n False" for u a e
      using that owned checked Inr panics by (cases p) (auto intro!: readsKeep_atomic)
    have "readsKeep S Q (projectTask pr (knownProject s ?n) ?decide)" if s: "s \<in> S" "knownProject s ?n \<noteq> ''''" for s
    proof (rule projectTask_reads [OF assms(1)])
      show "readsKeep S Q (?decide (Ret (u, a, None)))" if "t \<in> S" "heldBy t (knownProject s ?n) a" for t u a
        by (rule decide) (use that s in \<open>auto simp: projectRead_def\<close>)
      show "readsKeep S Q (?decide (Ret (u, a, e)))" if "t \<in> S" "\<And>b. \<not> heldBy t (knownProject s ?n) b" for t u a e
        by (rule decide) (use that s in \<open>auto simp: projectRead_def\<close>)
    qed (simp add: panics)
    with free panics Inr show ?thesis
      by (auto simp: podReview_def intro!: namespaceTask_reads)
  qed
qed

lemma reviewTask_reads:
  assumes "is_order (pr_order pr)" and "decodesMaps env" and "\<And>s. s \<in> S \<Longrightarrow> cacheOk (st_cache s) \<and> grantedOk S pr s"
  shows "readsKeep S (justifiedReply env pr S r) (reviewTask env pr r)"
proof (cases "reviewed env r")
  case (Inl w)
  then show ?thesis by (simp add: reviewTask_def justifiedReply_def)
next
  case (Inr req)
  have panics: "justifiedReply env pr S r (written env req (Panic m))" for m
    by (rule justified_written [OF Inr]) simp
  have ruled: "justifiedReply env pr S r (written env req (Ret v))" if "justifiedVerdict env pr S req v" for v
    by (rule justified_written [OF Inr]) (use that in simp)
  have "readsKeep S (justifiedReply env pr S r) (namespaceReview env pr req (\<lambda>v. Ended (written env req v)))"
    if "ar_Kind req = ''Namespace''"
    unfolding namespaceReview_def
  proof (rule userTask_reads)
    show "readsKeep S (justifiedReply env pr S r)
        (namespaceVerdict env pr req (\<lambda>v. Ended (written env req v)) (Ret (knownProjects s (ar_Username req), None)))"
      if "s \<in> S" for s
      by (rule namespaceVerdict_reads) (use assms that \<open>ar_Kind req = ''Namespace''\<close> panics ruled in auto)
    show "readsKeep S (justifiedReply env pr S r) (namespaceVerdict env pr req (\<lambda>v. Ended (written env req v)) (Ret ([], Some e)))" for e
      using that by (simp add: namespaceVerdict_def ruled justifiedVerdict_def)
  qed (simp add: namespaceVerdict_def panics)
  moreover have "readsKeep S (justifiedReply env pr S r) (podReview env pr req (\<lambda>v. Ended (written env req v)))"
    if "ar_Kind req = ''Pod''"
    by (intro podReview_reads assms(1) panics ruled that)
  moreover have "justifiedReply env pr S r (written env req (Ret (Decided True ''denied'' [])))"
    if "ar_Kind req \<noteq> ''Namespace''" "ar_Kind req \<noteq> ''Pod''"
    by (rule ruled) (simp add: justifiedVerdict_def that)
  ultimately show ?thesis using Inr by (simp add: reviewTask_def)
qed

text \<open>The reviews of a server, and the installation as part of the invariant.\<close>

definition serverOk :: "'q admission_env \<Rightarrow> ProjectResolver \<Rightarrow> string \<Rightarrow> string \<Rightarrow> rstate \<Rightarrow> bool" where
  "serverOk env pr url tok s \<longleftrightarrow> (is_order (pr_order pr) \<and> decodesMaps env) \<and> stateOk url tok s"

definition seenOk :: "ProjectResolver \<Rightarrow> rstate set \<Rightarrow> rstate \<Rightarrow> bool" where
  "seenOk pr S s \<longleftrightarrow> is_order (pr_order pr) \<and> grantedOk S pr s"

interpretation cr: justified "reviewTask env (fst (NewProjectResolver renv opa ord url cid tok))"
    "serverOk env (fst (NewProjectResolver renv opa ord url cid tok)) url tok" "\<lambda>r rw. True"
    "seenOk (fst (NewProjectResolver renv opa ord url cid tok))"
    "\<lambda>S r rw. is_order ord \<and> decodesMaps env \<longrightarrow>
       justifiedReply env (fst (NewProjectResolver renv opa ord url cid tok)) S r rw"
    for env :: "'q admission_env" and renv :: "'r rancher_env" and opa ord url cid tok
proof unfold_locales
  fix r S
  let ?pr = "fst (NewProjectResolver renv opa ord url cid tok)"
  have pr: "pr_client ?pr = NewClient renv url tok" "pr_order ?pr = ord" by (simp_all add: NewProjectResolver_def)
  have "is_order (pr_order ?pr) \<Longrightarrow> blocksKeep (stateOk url tok) (\<lambda>rw. True) (reviewTask env ?pr r)"
    by (intro rc.reviewTask_keeps [OF pr(1)])
  then have "blocksKeep (\<lambda>s. (is_order (pr_order ?pr) \<and> decodesMaps env) \<and> stateOk url tok s)
      (\<lambda>a. is_order (pr_order ?pr) \<and> decodesMaps env \<longrightarrow> True) (reviewTask env ?pr r)"
    by (intro blocksKeep_given) simp
  then show "blocksKeep (serverOk env ?pr url tok) (\<lambda>rw. True) (reviewTask env ?pr r)"
    by (simp add: serverOk_def [abs_def])
  show "blocksSeen S (seenOk ?pr S) (reviewTask env ?pr r)"
    unfolding seenOk_def [abs_def] by (intro blocksSeen_given reviewTask_granted)
  assume "\<And>s. s \<in> S \<Longrightarrow> serverOk env ?pr url tok s \<and> seenOk ?pr S s"
  then have "is_order ord \<and> decodesMaps env \<Longrightarrow> readsKeep S (justifiedReply env ?pr S r) (reviewTask env ?pr r)"
    by (intro reviewTask_reads) (auto simp: serverOk_def seenOk_def stateOk_def pr(2))
  then show "readsKeep S (\<lambda>rw. is_order ord \<and> decodesMaps env \<longrightarrow> justifiedReply env ?pr S r rw) (reviewTask env ?pr r)"
    by (rule readsKeep_given)
qed


section \<open>Reviews that meet a refresh\<close>

lemma quiet_verdict: "quiet (namespaceVerdict env pr req (\<lambda>v. Ended (k v)))"
  by (auto simp: quiet_def namespaceVerdict_def Let_def
      split: outcome.splits prod.splits option.splits sum.splits if_splits)

text \<open>A namespace review of a user, as a query and what is done with its answer.\<close>

definition namespaceBy :: "'q admission_env \<Rightarrow> string \<Rightarrow> HttpRequest \<Rightarrow> AdmissionRequest \<Rightarrow> bool" where
  "namespaceBy env u r req \<longleftrightarrow> reviewed env r = Inr req \<and> ar_Kind req = ''Namespace'' \<and> ar_Username req = u"

lemma namespaceBy_task:
  "namespaceBy env u r req \<Longrightarrow>
     reviewTask env pr r = userTask pr u (namespaceVerdict env pr req (\<lambda>v. Ended (written env req v)))"
  by (simp add: namespaceBy_def reviewTask_def namespaceReview_def)

text \<open>How a review is answered when its user's projects are known.\<close>

lemma review_answer:
  assumes "is_order (pr_order pr)" and "decodesMaps env" and "namespaceBy env u r req"
    and "run_state (ResolveProjectsByUser pr u) s = (Ret (plist, None), t)"
  shows "fst (run_state (together (reviewTask env pr r)) s) =
    (case soleProject plist of
       None \<Rightarrow> (Ret (), reply env req (Returned None))
     | Some info \<Rightarrow>
         (case ae_namespace env (ar_Raw req) of
            Inl err \<Rightarrow> (Ret (), reply env req (Returned (Some err)))
          | Inr None \<Rightarrow> (Panic ''nil pointer dereference'', newWriter)
          | Inr (Some ns) \<Rightarrow> (Ret (), reply env req (placeNamespace ns info))))"
proof -
  have ord: "is_order (pr_order (ac_projectResolver (NewAdmissionController pr)))" using assms(1) by simp
  have task: "reviewTask env pr r = namespaceReview env pr req (\<lambda>v. Ended (written env req v))"
    using assms(3) by (simp add: namespaceBy_def reviewTask_def)
  show ?thesis
    using assms(3,4)
    by (simp add: task together_namespaceReview run_admitNamespace [OF ord assms(2)] namespaceBy_def written_def
        split: option.split sum.split)
qed

lemma soleProject_two: "xs \<noteq> [] \<Longrightarrow> ys \<noteq> [] \<Longrightarrow> soleProject (xs @ ys) = None"
  by (cases xs; cases "tl xs"; cases ys) (auto simp: soleProject_def)

text \<open>
  C6: A review that arrives while the cache is being refilled is decided on a part of it. Let another review
  refresh the cache, and let the projects recorded so far give a user one project that the user does not
  own, while a later one gives the user another. Alone, the user's review is ignored, as that of a member of
  several projects; in the middle of the refresh its namespace is placed in the first project.
\<close>

theorem review_meets_refresh:
  assumes "is_order (pr_order pr)" and "decodesMaps env" and "\<And>h q. \<exists>r. pr_opa pr h q = Inr r"
    and "namespaceBy env u ru qu" and "namespaceBy env v rv qv" and "ae_namespace env (ar_Raw qu) = Inr (Some ns)"
    and "gm_at [] (User2projects (st_cache s)) u = []" and "gm_at [] (User2projects (st_cache s)) v = []"
    and "run_state (cl_GetProjects (pr_client pr) (pr_clusterID pr)) (st_http s) = (Inr (ps @ qs), h)"
    and "fetchAll pr ps h = (ds, None, None, h1)" and "fetchAll pr qs h1 = (ds', None, None, h2)"
    and "projectsOfUser ds u = [info]" and "\<not> up_IsOwner info" and "projectsOfUser ds' u \<noteq> []"
  shows "fst (run_state (together (reviewTask env pr ru)) s) = (Ret (), reply env qu (Returned None)) \<and>
    (\<exists>p t. running (reviewTask env pr) s [(rv, p), (ru, Ended (Ret (), reply env qu (placeNamespace ns info)))] t)"
proof
  have all: "fetchAll pr (ps @ qs) h = (ds @ ds', None, None, h2)" by (rule fetchAll_append [OF assms(10,11)])
  obtain r where "pr_opa pr h2 (opaRequest (cacheOf (ds @ ds') None)) = Inr r" using assms(3) by blast
  then obtain t where "run_state (ResolveProjectsByUser pr u) s = (Ret ([info] @ projectsOfUser ds' u, None), t)"
    using assms(7,9,12)
    by (simp add: ResolveProjectsByUser_def run_UpdateCache [OF assms(1)] all cacheOf_users projectsOfUser_append split: prod.split)
  from review_answer [OF assms(1,2,4) this] assms(14)
  show "fst (run_state (together (reviewTask env pr ru)) s) = (Ret (), reply env qu (Returned None))"
    using soleProject_two [of "[info]"] by simp
  let ?t = "s\<lparr>st_loops := Suc (Suc (st_loops s)), st_http := h1, st_cache := fold recordListing ds emptyCache\<rparr>"
  have "running (reviewTask env pr) s ([] @ (rv, userTask pr v (namespaceVerdict env pr qv (\<lambda>v. Ended (written env qv v))))
      # [(ru, reviewTask env pr ru)]) s"
    using running_spawned [of "reviewTask env pr" s "[rv, ru]"] by (simp add: namespaceBy_task [OF assms(5)])
  from running_recorded [OF running_cleared [OF running_listed [OF this assms(8,9)] assms(1), unfolded fillTask_def], of ds h1]
  obtain p where "running (reviewTask env pr) s ([(rv, p)] @ (ru, reviewTask env pr ru) # []) ?t"
    using assms(10) by auto
  moreover have served: "run_state (ResolveProjectsByUser pr u) ?t = (Ret ([info], None), ?t)"
    using cached_user [of ?t u pr] assms(12) by (simp add: record_users)
  have "fst (run_state (together (reviewTask env pr ru)) ?t) = (Ret (), reply env qu (placeNamespace ns info))"
    using review_answer [OF assms(1,2,4) served] assms(6,13) by (simp add: soleProject_def)
  ultimately show "\<exists>p t. running (reviewTask env pr) s [(rv, p), (ru, Ended (Ret (), reply env qu (placeNamespace ns info)))] t"
    using running_finish [of "reviewTask env pr" s "[(rv, p)]" ru _ "[]" ?t] by (metis append_Cons append_Nil prod.collapse)
qed

text \<open>
  C5: Two refreshes at the same time record every membership twice. When two reviews have both listed the
  projects before either clears the cache, both fill it: every user then has the projects of both listings,
  and from then on the namespaces of a user whom both listings know are ignored, also those of a member of
  a single project.
\<close>

theorem refreshes_collide:
  assumes "is_order (pr_order pr)" and "decodesMaps env" and "\<And>h q. \<exists>r. pr_opa pr h q = Inr r"
    and "namespaceBy env v rv qv" and "namespaceBy env w rw qw"
    and "gm_at [] (User2projects (st_cache s)) v = []" and "gm_at [] (User2projects (st_cache s)) w = []"
    and "run_state (cl_GetProjects (pr_client pr) (pr_clusterID pr)) (st_http s) = (Inr es, h1)"
    and "run_state (cl_GetProjects (pr_client pr) (pr_clusterID pr)) h1 = (Inr es', h2)"
    and "fetchAll pr es h2 = (ds, None, None, h3)"
    and "fetchAll pr es' (h3 @ [opaRequest (cacheOf ds None)]) = (ds', None, None, h4)"
  shows "\<exists>a b t. running (reviewTask env pr) s [(rv, Ended a), (rw, Ended b)] t \<and>
    (\<forall>u. gm_at [] (User2projects (st_cache t)) u = projectsOfUser ds u @ projectsOfUser ds' u) \<and>
    (\<forall>u r q. projectsOfUser ds u \<noteq> [] \<and> projectsOfUser ds' u \<noteq> [] \<and> namespaceBy env u r q \<longrightarrow>
       fst (run_state (together (reviewTask env pr r)) t) = (Ret (), reply env q (Returned None)))"
proof -
  let ?c = "fold recordListing ds emptyCache"
  let ?k = "\<lambda>q. namespaceVerdict env pr q (\<lambda>v. Ended (written env q v))"
  have "running (reviewTask env pr) s ([] @ (rv, userTask pr v (?k qv)) # [(rw, userTask pr w (?k qw))]) s"
    using running_spawned [of "reviewTask env pr" s "[rv, rw]"]
    by (simp add: namespaceBy_task [OF assms(4)] namespaceBy_task [OF assms(5)])
  from running_listed [OF this assms(6,8)]
  have "running (reviewTask env pr) s ([(rv, refillTask pr es (userAfter v (?k qv)))] @ (rw, userTask pr w (?k qw)) # []) (s\<lparr>st_http := h1\<rparr>)"
    by simp
  from running_listed [OF this, of es' h2] assms(7,9)
  have "running (reviewTask env pr) s ([] @ (rv, refillTask pr es (userAfter v (?k qv))) # [(rw, refillTask pr es' (userAfter w (?k qw)))])
      (s\<lparr>st_http := h2\<rparr>)"
    by simp
  from running_cleared [OF this assms(1)]
  have "running (reviewTask env pr) s ([(rv, fillTask pr es (userAfter v (?k qv)))] @ (rw, refillTask pr es' (userAfter w (?k qw))) # [])
      (s\<lparr>st_http := h2, st_cache := emptyCache, st_loops := Suc (Suc (st_loops s))\<rparr>)"
    by simp
  from running_cleared [OF this assms(1)]
  have "running (reviewTask env pr) s ([] @ (rv, fillTask pr es (userAfter v (?k qv))) # [(rw, fillTask pr es' (userAfter w (?k qw)))])
      (s\<lparr>st_http := h2, st_cache := emptyCache, st_loops := Suc (Suc (Suc (Suc (st_loops s))))\<rparr>)"
    by simp
  from running_filled [OF this quiet_verdict assms(3), of ds h3] assms(10) obtain a t1 where
    "running (reviewTask env pr) s ([(rv, Ended a)] @ (rw, fillTask pr es' (userAfter w (?k qw))) # []) t1"
    and t1: "st_http t1 = h3 @ [opaRequest ?c]" "st_cache t1 = ?c"
    by auto
  from running_filled [OF this(1) quiet_verdict assms(3), of ds' h4] assms(11) t1 obtain b t where
    run: "running (reviewTask env pr) s [(rv, Ended a), (rw, Ended b)] t"
    and t: "st_cache t = fold recordListing ds' ?c"
    by (auto simp: cacheOf_def)
  have users: "gm_at [] (User2projects (st_cache t)) u = projectsOfUser ds u @ projectsOfUser ds' u" for u
    by (simp add: t record_users)
  have "fst (run_state (together (reviewTask env pr r)) t) = (Ret (), reply env q (Returned None))"
    if "projectsOfUser ds u \<noteq> []" "projectsOfUser ds' u \<noteq> []" "namespaceBy env u r q" for u r q
  proof -
    have "run_state (ResolveProjectsByUser pr u) t = (Ret (projectsOfUser ds u @ projectsOfUser ds' u, None), t)"
      using cached_user [of t u pr] that(1) by (simp add: users)
    from review_answer [OF assms(1,2) that(3) this] show ?thesis by (simp add: soleProject_two that(1,2))
  qed
  with run users show ?thesis by blast
qed

subsection \<open>On the small installation\<close>

lemma demo_reviews:
  "namespaceBy demo_admission ''u1'' (demo_post ''ns1'') demo_req1"
  "namespaceBy demo_admission ''u2'' (demo_post ''ns2'') demo_req2"
  by (simp_all add: namespaceBy_def reviewed_accepted) (simp_all add: demo_post_def)

lemma demo_misses: "gm_at [] (User2projects (st_cache demo_start)) u = []"
  by simp


theorem review_meets_refresh_witness:
  "\<exists>p t. running (reviewTask demo_admission (demo_pr demo_url stored_order)) demo_start
     [(demo_post ''ns2'', p), (demo_post ''ns1'', Ended (Ret (), reply demo_admission demo_req1
       (placeNamespace (demo_ns\<lparr>ns_Name := ''alice-b''\<rparr>)
         \<lparr>up_IsOwner = False, up_ProjectID = ''p1'', up_ProjectName = ''alice''\<rparr>)))] t"
proof -
  have ord: "is_order (pr_order (demo_pr demo_url stored_order))" by simp
  have listed: "run_state (cl_GetProjects (pr_client (demo_pr demo_url stored_order)) (pr_clusterID (demo_pr demo_url stored_order)))
      (st_http demo_start) = (Inr (take 1 demo_entities @ drop 1 demo_entities), st_http demo_start @ demo_gets [''/v3/cluster/c/projects''])"
    using demo_fetch(1) by (simp only: append_take_drop_id)
  from review_meets_refresh [OF ord demo_maps demo_opa_answers demo_reviews demo_raw(1) demo_misses demo_misses listed
      demo_fetch(2) demo_fetch(3) demo_user_projects(1)]
  show ?thesis by (simp add: demo_user_projects(2))
qed

theorem refreshes_collide_witness:
  "\<exists>a b t. running (reviewTask demo_admission (demo_pr demo_url stored_order)) demo_start
       [(demo_post ''ns1'', Ended a), (demo_post ''ns2'', Ended b)] t \<and>
     fst (run_state (together (reviewTask demo_admission (demo_pr demo_url stored_order) (demo_post ''ns2''))) t) =
       (Ret (), \<lparr>rw_status = Some 200, rw_body = ''''\<rparr>)"
proof -
  let ?pr = "demo_pr demo_url stored_order" and ?ds = "demo_first @ demo_second"
  have ord: "is_order (pr_order ?pr)" by simp
  have all: "\<exists>h'. fetchAll ?pr demo_entities h = (?ds, None, None, h')" for h
    using fetchAll_append [OF demo_fetch(2) demo_fetch(3)] by fastforce
  obtain h3 where first: "fetchAll ?pr demo_entities ((st_http demo_start @ demo_gets [''/v3/cluster/c/projects'']) @ demo_gets [''/v3/cluster/c/projects''])
      = (?ds, None, None, h3)" using all by blast
  obtain h4 where second: "fetchAll ?pr demo_entities (h3 @ [opaRequest (cacheOf ?ds None)]) = (?ds, None, None, h4)" using all by blast
  obtain a b t where run: "running (reviewTask demo_admission ?pr) demo_start [(demo_post ''ns1'', Ended a), (demo_post ''ns2'', Ended b)] t"
    and ignored: "\<And>u r q. projectsOfUser ?ds u \<noteq> [] \<Longrightarrow> namespaceBy demo_admission u r q \<Longrightarrow>
      fst (run_state (together (reviewTask demo_admission ?pr r)) t) = (Ret (), reply demo_admission q (Returned None))"
    using refreshes_collide [OF ord demo_maps demo_opa_answers demo_reviews demo_misses demo_misses demo_fetch(1) demo_fetch(1) first second]
    by blast
  from ignored [OF _ demo_reviews(2)] run show ?thesis
    by (fastforce simp: demo_user_projects(3) reply_def)
qed

end
