(* ===== verification/Kube_Types.thy ===== *)
theory Kube_Types
  imports Go_Json
begin

text \<open>
  The messages of the gRPC interface (\<open>cluster-proxy/proto/clusterproxy.proto\<close>), the Kubernetes
  objects the cluster proxy builds and reads, and the calls it makes to the API server. The API
  server is a function of the history of calls; quantities are a parameter.
\<close>

section \<open>Messages\<close>

datatype StatusCode = ACTIVE | PENDING | ERROR | NOT_FOUND

record ClusterStatusResponse =
  cs_Status :: StatusCode
  cs_Message :: string

record BatchId =
  bi_Id :: string

record Module =
  mo_BatchId :: string
  mo_ModuleId :: string

text \<open>A nested message is a pointer, nil when absent; the getters of a nil message give zero values.\<close>

record XWorkspaceQuota =
  wq_Cpus :: int32
  wq_Memory :: int32
  wq_Storage :: int32
  wq_Gpus :: int32

record XWorkspace =
  xw_BatchId :: string
  xw_Quota :: "XWorkspaceQuota option"

record XEnvironmentVariable =
  ev_Key :: string
  ev_Value :: string

text \<open>Enumerations are open: a peer may send a number the interface does not name.\<close>

datatype CommProtocol = TCP | UDP | OtherProtocol int32

record XPortMapping =
  pm_ContainerPort :: uint32
  pm_PublishedPort :: uint32
  pm_Protocol :: CommProtocol

record XVolumeDescription =
  vd_Size :: int32
  vd_StorageClass :: string
  vd_MountPath :: string

record XGpuRequest =
  gr_Type :: string
  gr_Quantity :: int32

record XResourceRequest =
  rr_Cpus :: int32
  rr_Memory :: int32
  rr_Gpus :: "XGpuRequest option"

record XConfigFileDescription =
  cf_Data :: string
  cf_MountPath :: string

datatype NetworkScope = WORKSPACE | CLUSTER | PUBLIC | OtherScope int32

record XBalticModuleBuild =
  mb_BatchId :: string
  mb_ModuleId :: string
  mb_Image :: string
  mb_EnvironmentVariables :: "XEnvironmentVariable list"
  mb_Command :: string
  mb_CommandArguments :: "string list"
  mb_PortMappings :: "XPortMapping list"
  mb_Volumes :: "XVolumeDescription list"
  mb_Resources :: "XResourceRequest option"
  mb_ConfigFiles :: "XConfigFileDescription list"
  mb_Scope :: NetworkScope

datatype ClusterStatus = ONLINE | UNREACHABLE

datatype NodeStatus = READY | DISK_PRESSURE | MEMORY_PRESSURE | PID_PRESSURE | NETWORK_UNAVAILABLE

record XCapacity =
  xc_Cpus :: int32
  xc_EphemeralStorage :: int32
  xc_Memory :: int32
  xc_Gpus :: int32
  xc_Pods :: int32

record XClusterNode =
  xn_Name :: string
  xn_Os :: string
  xn_OsImage :: string
  xn_Architecture :: string
  xn_KernelVersion :: string
  xn_OrchestratorType :: string
  xn_OrchestratorVersion :: string
  xn_GpuType :: string
  xn_Capacity :: XCapacity
  xn_Allocatable :: XCapacity
  xn_Unschedulable :: bool
  xn_Status :: NodeStatus

record XResourceQuota =
  xq_CpuRequest :: int32
  xq_CpuLimit :: int32
  xq_MemoryRequest :: int32
  xq_MemoryLimit :: int32
  xq_PersistentVolumeClaims :: int32
  xq_StorageRequest :: uint32
  xq_GpuRequest :: int32

record XClusterDescription =
  xd_ClusterId :: string
  xd_ProjectId :: string
  xd_ProjectName :: string
  xd_Nodes :: "XClusterNode list"
  xd_Status :: ClusterStatus
  xd_Limit :: "XResourceQuota option"
  xd_UsedLimit :: "XResourceQuota option"

section \<open>Quantities\<close>

text \<open>
  \<open>k8s.io/apimachinery/pkg/api/resource\<close>: construction, parsing, the two readers, the zero value.
  \<open>MustParse\<close> panics when the text does not parse.
\<close>

record 'q quantities =
  qa_NewQuantity :: "int64 \<Rightarrow> 'q"
  qa_ParseQuantity :: "string \<Rightarrow> go_error + 'q"
  qa_AsInt64 :: "'q \<Rightarrow> int64 \<times> bool"
  qa_Value :: "'q \<Rightarrow> int64"
  qa_zero :: 'q

definition MustParse :: "'q quantities \<Rightarrow> string \<Rightarrow> 'q outcome" where
  "MustParse qa t = (case qa_ParseQuantity qa t of Inl e \<Rightarrow> Panic (''cannot parse: '' @ e) | Inr q \<Rightarrow> Ret q)"

section \<open>Kubernetes objects\<close>

record KubeNamespace =
  kn_Name :: string
  kn_Annotations :: "(string, string) gomap"
  kn_Phase :: string

record 'q PVC =
  pv_Namespace :: string
  pv_Name :: string
  pv_AccessModes :: "string list"
  pv_Storage :: 'q
  pv_VolumeMode :: string
  pv_StorageClassName :: "string option"

record VolumeMount =
  vm_Name :: string
  vm_MountPath :: string
  vm_SubPath :: string

text \<open>A volume's source: the claim's name, or the config map's name and default mode.\<close>

record Volume =
  vo_Name :: string
  vo_PersistentVolumeClaim :: "string option"
  vo_ConfigMap :: "(string \<times> int32) option"

record ConfigMap =
  cm_Namespace :: string
  cm_Name :: string
  cm_Data :: "(string, string) gomap"

record ServicePort =
  sp_Port :: int32
  sp_Protocol :: string
  sp_Name :: string

record ContainerPort =
  cp_ContainerPort :: int32
  cp_Protocol :: string

record Service =
  se_Namespace :: string
  se_Name :: string
  se_Ports :: "ServicePort list"
  se_Selector :: "(string, string) gomap"

record NodeSelectorRequirement =
  nr_Key :: string
  nr_Operator :: string
  nr_Values :: "string list"

text \<open>Terms the node must match, \<open>None\<close> for an affinity without a node affinity.\<close>

type_synonym Affinity = "NodeSelectorRequirement list list option"

record EnvVar =
  en_Name :: string
  en_Value :: string

record 'q KubeContainer =
  kc_Name :: string
  kc_Image :: string
  kc_Command :: "string list"
  kc_Args :: "string list"
  kc_Ports :: "ContainerPort list"
  kc_Env :: "EnvVar list"
  kc_VolumeMounts :: "VolumeMount list"
  kc_Limits :: "(string, 'q) gomap"
  kc_Requests :: "(string, 'q) gomap"

record Condition =
  co_Type :: string
  co_Status :: string
  co_Message :: string

record 'q Deployment =
  de_Namespace :: string
  de_Name :: string
  de_Labels :: "(string, string) gomap"
  de_Replicas :: int32
  de_MatchLabels :: "(string, string) gomap"
  de_PodLabels :: "(string, string) gomap"
  de_Affinity :: Affinity
  de_Containers :: "'q KubeContainer list"
  de_Volumes :: "Volume list"
  de_Conditions :: "Condition list"

record 'q KubeNode =
  no_Name :: string
  no_Labels :: "(string, string) gomap"
  no_Unschedulable :: bool
  no_Conditions :: "Condition list"
  no_KernelVersion :: string
  no_OSImage :: string
  no_KubeletVersion :: string
  no_Capacity :: "(string, 'q) gomap"
  no_Allocatable :: "(string, 'q) gomap"

section \<open>Calls to the API server\<close>

text \<open>Calls on namespaced objects carry the namespace of the client they are made through.\<close>

datatype 'q kube_req =
    CreateNamespace KubeNamespace
  | GetNamespace string
  | DeleteNamespace string
  | CreatePVC string "'q PVC"
  | DeletePVC string string
  | CreateConfigMap string ConfigMap
  | DeleteConfigMap string string
  | CreateService string Service
  | DeleteService string string
  | CreateDeployment string "'q Deployment"
  | GetDeployment string string
  | DeleteDeployment string string
  | ListNodes
  | GetNode string

text \<open>
  The answers: an object, as a pointer, with an error, or an error alone for the calls whose object
  is at most logged. The generated client returns a non-nil pointer even with an error; the model
  also covers clients that do not.
\<close>

type_synonym ('q, 'a) answer = "('q kube_req, 'a option \<times> go_error option) service"

record 'q kube =
  ku_namespace :: "('q, KubeNamespace) answer"
  ku_deployment :: "('q, 'q Deployment) answer"
  ku_nodes :: "('q, 'q KubeNode list) answer"
  ku_node :: "('q, 'q KubeNode) answer"
  ku_done :: "('q kube_req, go_error option) service"
  ku_quantities :: "'q quantities"

type_synonym ('q, 'a) kubing = "('q kube_req list, 'a) state"

type_synonym rpc_reply = "(ClusterStatusResponse \<times> go_error option) outcome"

definition respond :: "StatusCode \<Rightarrow> string \<Rightarrow> go_error option \<Rightarrow> rpc_reply" where
  "respond code message err = Ret (\<lparr>cs_Status = code, cs_Message = message\<rparr>, err)"

text \<open>The namespace a call concerns.\<close>

fun reqNamespace :: "'q kube_req \<Rightarrow> string option" where
  "reqNamespace (CreateNamespace n) = Some (kn_Name n)"
| "reqNamespace (GetNamespace ns) = Some ns"
| "reqNamespace (DeleteNamespace ns) = Some ns"
| "reqNamespace (CreatePVC ns p) = (if pv_Namespace p = ns then Some ns else None)"
| "reqNamespace (DeletePVC ns n) = Some ns"
| "reqNamespace (CreateConfigMap ns c) = (if cm_Namespace c = ns then Some ns else None)"
| "reqNamespace (DeleteConfigMap ns n) = Some ns"
| "reqNamespace (CreateService ns s) = (if se_Namespace s = ns then Some ns else None)"
| "reqNamespace (DeleteService ns n) = Some ns"
| "reqNamespace (CreateDeployment ns d) = (if de_Namespace d = ns then Some ns else None)"
| "reqNamespace (GetDeployment ns n) = Some ns"
| "reqNamespace (DeleteDeployment ns n) = Some ns"
| "reqNamespace ListNodes = None"
| "reqNamespace (GetNode n) = None"

definition inNamespace :: "string \<Rightarrow> 'q kube_req \<Rightarrow> bool" where
  "inNamespace ns q \<longleftrightarrow> reqNamespace q = Some ns"

text \<open>The status codes in the order of their numbers.\<close>

fun statusNumber :: "StatusCode \<Rightarrow> nat" where
  "statusNumber ACTIVE = 0"
| "statusNumber PENDING = 1"
| "statusNumber ERROR = 2"
| "statusNumber NOT_FOUND = 3"

lemma statusNumber_inj: "statusNumber c = statusNumber d \<Longrightarrow> c = d"
  by (cases c; cases d) simp_all

instantiation StatusCode :: linorder
begin

definition less_eq_StatusCode :: "StatusCode \<Rightarrow> StatusCode \<Rightarrow> bool" where
  "less_eq_StatusCode c d \<longleftrightarrow> statusNumber c \<le> statusNumber d"

definition less_StatusCode :: "StatusCode \<Rightarrow> StatusCode \<Rightarrow> bool" where
  "less_StatusCode c d \<longleftrightarrow> statusNumber c < statusNumber d"

instance
  by standard (auto simp: less_eq_StatusCode_def less_StatusCode_def intro: statusNumber_inj)

end

section \<open>A small API server\<close>

text \<open>
  Quantities counted in thousandths, with the suffixes the program uses; an API server that knows a
  table of objects and refuses the calls in a list. They are the concrete inputs of the witnesses.
\<close>

definition decimalValue :: "string \<Rightarrow> int" where
  "decimalValue s = foldl (\<lambda>n c. 10 * n + int (byte_of c) - 48) 0 (takeWhile is_digit s)"

definition demo_quantities :: "int quantities" where
  "demo_quantities =
     \<lparr>qa_NewQuantity = (\<lambda>v. 1000 * sint v),
      qa_ParseQuantity = (\<lambda>s.
        let n = decimalValue s; suffix = dropWhile is_digit s
        in if s = '''' then Inl ''quantities must match the regular expression''
           else if suffix = '''' then Inr (1000 * n)
           else if suffix = ''m'' then Inr n
           else if suffix = ''Mi'' then Inr (1048576000 * n)
           else if suffix = ''Gi'' then Inr (1073741824000 * n)
           else Inl ''unable to parse the suffix''),
      qa_AsInt64 = (\<lambda>q. if q mod 1000 = 0 then (word_of_int (q div 1000), True) else (0, False)),
      qa_Value = (\<lambda>q. word_of_int ((q + 999) div 1000)),
      qa_zero = 0\<rparr>"

definition demo_kube :: "(int kube_req \<Rightarrow> bool) \<Rightarrow> (string \<Rightarrow> KubeNamespace option)
    \<Rightarrow> (string \<Rightarrow> int Deployment option) \<Rightarrow> int KubeNode list \<Rightarrow> int kube" where
  "demo_kube refuses namespaces deployments nodes =
     \<lparr>ku_namespace = (\<lambda>h q. if refuses q then (None, Some ''forbidden'')
        else case q of
            CreateNamespace n \<Rightarrow> (Some n, None)
          | GetNamespace n \<Rightarrow> (case namespaces n of None \<Rightarrow> (None, Some ''not found'') | Some ns \<Rightarrow> (Some ns, None))
          | _ \<Rightarrow> (None, Some ''bad request'')),
      ku_deployment = (\<lambda>h q. if refuses q
        then (Some \<lparr>de_Namespace = '''', de_Name = '''', de_Labels = [], de_Replicas = 0, de_MatchLabels = [],
          de_PodLabels = [], de_Affinity = None, de_Containers = [], de_Volumes = [], de_Conditions = []\<rparr>, Some ''forbidden'')
        else case q of
            CreateDeployment ns d \<Rightarrow> (Some d, None)
          | GetDeployment ns n \<Rightarrow> (case deployments n of None \<Rightarrow> (None, Some ''not found'') | Some d \<Rightarrow> (Some d, None))
          | _ \<Rightarrow> (None, Some ''bad request'')),
      ku_nodes = (\<lambda>h q. (Some nodes, None)),
      ku_node = (\<lambda>h q. case q of
          GetNode n \<Rightarrow> (case filter (\<lambda>node. no_Name node = n) nodes of
              [] \<Rightarrow> (None, Some ''not found'') | node # _ \<Rightarrow> (Some node, None))
        | _ \<Rightarrow> (None, Some ''bad request'')),
      ku_done = (\<lambda>h q. if refuses q then Some ''forbidden'' else None),
      ku_quantities = demo_quantities\<rparr>"

lemma demo_kube_sel [simp]:
  "ku_done (demo_kube refuses nss ds ns) h q = (if refuses q then Some ''forbidden'' else None)"
  "ku_quantities (demo_kube refuses nss ds ns) = demo_quantities"
  "ku_nodes (demo_kube refuses nss ds ns) h q = (Some ns, None)"
  "\<not> refuses (CreateDeployment x d) \<Longrightarrow> ku_deployment (demo_kube refuses nss ds ns) h (CreateDeployment x d) = (Some d, None)"
  "\<not> refuses (GetDeployment x n) \<Longrightarrow> ku_deployment (demo_kube refuses nss ds ns) h (GetDeployment x n)
     = (case ds n of None \<Rightarrow> (None, Some ''not found'') | Some d \<Rightarrow> (Some d, None))"
  by (simp_all add: demo_kube_def)

text \<open>An API server that accepts everything and knows the deployments created before.\<close>

definition createdDeployment :: "string \<Rightarrow> string \<Rightarrow> 'q kube_req list \<Rightarrow> 'q Deployment option" where
  "createdDeployment ns n h =
     fold (\<lambda>q found. case q of
         CreateDeployment m d \<Rightarrow> if m = ns \<and> de_Name d = n then Some d else found
       | DeleteDeployment m k \<Rightarrow> if m = ns \<and> k = n then None else found
       | _ \<Rightarrow> found) h None"

lemma createdDeployment_none: "(\<And>d. CreateDeployment ns d \<notin> set h) \<Longrightarrow> createdDeployment ns n h = None"
proof -
  assume none: "\<And>d. CreateDeployment ns d \<notin> set h"
  let ?f = "\<lambda>q found. case q of
         CreateDeployment m d \<Rightarrow> if m = ns \<and> de_Name d = n then Some d else found
       | DeleteDeployment m k \<Rightarrow> if m = ns \<and> k = n then None else found
       | _ \<Rightarrow> found"
  have "fold ?f h None = None"
    using none by (induction h) (auto split: kube_req.split)
  then show ?thesis by (simp add: createdDeployment_def)
qed

definition noDeployment :: "int Deployment" where
  "noDeployment = \<lparr>de_Namespace = '''', de_Name = '''', de_Labels = [], de_Replicas = 0, de_MatchLabels = [],
     de_PodLabels = [], de_Affinity = None, de_Containers = [], de_Volumes = [], de_Conditions = []\<rparr>"

definition demo_live :: "int kube" where
  "demo_live = (demo_kube (\<lambda>q. False) Map.empty Map.empty [])\<lparr>ku_deployment := (\<lambda>h q. case q of
       CreateDeployment ns d \<Rightarrow> (Some d, None)
     | GetDeployment ns n \<Rightarrow> (case createdDeployment ns n h of
           None \<Rightarrow> (Some noDeployment, Some ''not found'') | Some d \<Rightarrow> (Some d, None))
     | _ \<Rightarrow> (None, Some ''bad request''))\<rparr>"

lemma demo_live_sel:
  "ku_done demo_live h q = None" "ku_quantities demo_live = demo_quantities"
  "ku_deployment demo_live h (CreateDeployment ns d) = (Some d, None)"
  "createdDeployment ns n h = None \<Longrightarrow> ku_deployment demo_live h (GetDeployment ns n) = (Some noDeployment, Some ''not found'')"
  by (simp_all add: demo_live_def demo_kube_def)

end
