(* ===== verification/Json_Fuel.thy ===== *)
theory Json_Fuel
  imports Go_Json
begin

text \<open>
  The fuel of the JSON parser is enough: every successful step consumes input, so \<open>2 n + 1\<close> units parse
  a value of \<open>n\<close> bytes as any larger amount does, and running out of fuel is never the reason for an
  error.
\<close>

section \<open>What is parsed is consumed\<close>

lemma skip_ws_length: "length (skip_ws s) \<le> length s"
  by (simp add: skip_ws_def length_dropWhile_le)

lemma skip_ws_Cons: "skip_ws s = c # r \<Longrightarrow> length r < length s"
  using skip_ws_length [of s] by simp

lemma hex4_length: "hex4 s = Some (w, r) \<Longrightarrow> length r < length s"
  by (induction s rule: hex4.induct) (auto split: option.splits)

lemma unescape_u_length: "unescape_u s = Some (t, r) \<Longrightarrow> length r < length s"
  by (fastforce simp: unescape_u_def dest: hex4_length split: option.splits if_splits list.splits)

lemma parse_chars_length: "parse_chars fuel s = Some (t, r) \<Longrightarrow> length r < length s"
proof (induction fuel s arbitrary: t r rule: parse_chars.induct)
  case (3 fuel c s)
  then show ?case
    by (fastforce dest: unescape_u_length split: if_splits option.splits list.splits)
qed simp_all

text \<open>A number literal is a prefix of the text.\<close>

lemma parse_frac_split: "parse_frac s = Some (t, r) \<Longrightarrow> s = t @ r"
  by (auto simp: parse_frac_def Let_def split: list.splits if_splits)

lemma parse_exp_split: "parse_exp s = Some (t, r) \<Longrightarrow> s = t @ r"
  by (auto simp: parse_exp_def Let_def split: list.splits if_splits)

lemma parse_number_length: "parse_number s = Some (t, r) \<Longrightarrow> length r < length s"
  by (auto simp: parse_number_def Let_def dest!: parse_frac_split parse_exp_split
      split: list.splits if_splits option.splits) (drule arg_cong [where f = length], simp)+

lemma expect_length: "expect t v s = Some (u, r) \<Longrightarrow> t \<noteq> [] \<Longrightarrow> length r < length s"
  by (auto simp: expect_def split: if_splits)
    (metis diff_less length_greater_0_conv take_eq_Nil)

lemmas consumed = skip_ws_Cons parse_chars_length parse_number_length expect_length

lemma parse_length:
  "parse_value fuel s = Some (v, r) \<Longrightarrow> length r < length s"
  "parse_items fuel s = Some (vs, r) \<Longrightarrow> length r < length s"
  "parse_members fuel s = Some (kvs, r) \<Longrightarrow> length r < length s"
proof (induction fuel arbitrary: s v vs kvs r)
  case (Suc fuel)
  note shorter = consumed Suc.IH
  {
    case 1
    then show ?case by (auto split: list.splits if_splits dest!: shorter)
  next
    case 2
    then show ?case by (auto split: list.splits if_splits option.splits dest!: shorter)
  next
    case 3
    then show ?case by (auto split: list.splits if_splits option.splits dest!: shorter)
  }
qed simp_all

section \<open>More fuel changes nothing\<close>

lemma parse_more_fuel:
  "2 * length s + 1 \<le> fuel \<Longrightarrow> parse_value (Suc fuel) s = parse_value fuel s"
  "2 * length s + 2 \<le> fuel \<Longrightarrow> parse_items (Suc fuel) s = parse_items fuel s"
  "2 * length s + 2 \<le> fuel \<Longrightarrow> parse_members (Suc fuel) s = parse_members fuel s"
proof (induction fuel arbitrary: s)
  case (Suc fuel)
  {
    case 1
    show ?case
    proof (cases "skip_ws s")
      case (Cons c r)
      have "2 * length r + 2 \<le> fuel" using skip_ws_Cons [OF Cons] 1 by simp
      with Suc.IH(2,3) [of r] Cons show ?thesis
        by (simp only: parse_value.simps(2) list.case)
    qed simp
  next
    case 2
    then have vals: "parse_value (Suc fuel) s = parse_value fuel s" by (intro Suc.IH(1)) simp
    have items: "parse_items (Suc fuel) r' = parse_items fuel r'"
      if "parse_value fuel s = Some (v, r)" and "skip_ws r = d # r'" for v r d r'
      using parse_length(1) [OF that(1)] skip_ws_Cons [OF that(2)] 2 by (intro Suc.IH(2)) simp
    show ?case
      unfolding parse_items.simps(2) [of "Suc fuel" s] parse_items.simps(2) [of fuel s] vals
      by (auto simp: items simp del: parse_items.simps split: option.split list.split)
  next
    case 3
    have vals: "parse_value (Suc fuel) r2 = parse_value fuel r2"
      if "skip_ws s = c # r" "parse_chars n r = Some (k, r1)" "skip_ws r1 = d # r2" for c r n k r1 d r2
      using skip_ws_Cons [OF that(1)] parse_chars_length [OF that(2)] skip_ws_Cons [OF that(3)] 3
      by (intro Suc.IH(1)) simp
    have members: "parse_members (Suc fuel) r4 = parse_members fuel r4"
      if "skip_ws s = c # r" "parse_chars n r = Some (k, r1)" "skip_ws r1 = d # r2"
        "parse_value fuel r2 = Some (v, r3)" "skip_ws r3 = e # r4" for c r n k r1 d r2 v r3 e r4
      using skip_ws_Cons [OF that(1)] parse_chars_length [OF that(2)] skip_ws_Cons [OF that(3)]
        parse_length(1) [OF that(4)] skip_ws_Cons [OF that(5)] 3
      by (intro Suc.IH(3)) simp
    show ?case
      unfolding parse_members.simps(2) [of "Suc fuel" s] parse_members.simps(2) [of fuel s]
      by (auto simp: vals members simp del: parse_value.simps parse_members.simps parse_chars.simps split: option.split list.split)
  }
qed simp_all

lemma enough_fuel:
  assumes "2 * length s < fuel"
  shows "parse_value fuel s = parse_value (Suc (2 * length s)) s"
proof -
  have "Suc (2 * length s) \<le> fuel" using assms by simp
  then show ?thesis
  proof (induction fuel rule: dec_induct)
    case (step n)
    have "2 * length s + 1 \<le> n" using step.hyps by simp
    from parse_more_fuel(1) [OF this] step.IH show ?case by (simp only:)
  qed simp
qed

lemma json_parse_fuel:
  assumes "2 * length s < fuel"
  shows "json_parse s = (case parse_value fuel s of
      None \<Rightarrow> None | Some (v, r) \<Rightarrow> if skip_ws r = [] then Some v else None)"
  unfolding enough_fuel [OF assms] json_parse_def ..

end
