(* ===== verification/Proxy_Workspace.thy ===== *)
theory Proxy_Workspace
  imports Kube_Types Rancher_Client Json_Roundtrip Json_Fuel
begin

text \<open>
  The cluster proxy's configuration and names and its workspace calls
  (\<open>cluster-proxy/server/main.go\<close>): a batch's workspace is a namespace of the proxy's project, with
  a quota annotation; its status is read back from the namespace and from Rancher's annotation.
\<close>

section \<open>Configuration and names\<close>

text \<open>The global \<open>proxy\<close>; the clientset is the API server of the model.\<close>

record 'q ClusterProxyConf =
  px_kube :: "'q kube"
  px_rancherClient :: Client
  px_debug :: bool
  px_clusterId :: string
  px_projectId :: string
  px_projectName :: string

definition getNSNameForBatch :: "'q ClusterProxyConf \<Rightarrow> string \<Rightarrow> string" where
  "getNSNameForBatch proxy batchId = px_projectName proxy @ ''-'' @ batchId"

definition getProjectID :: "'q ClusterProxyConf \<Rightarrow> string" where
  "getProjectID proxy = px_clusterId proxy @ '':'' @ px_projectId proxy"

definition getVolumeName :: "string \<Rightarrow> nat \<Rightarrow> string" where
  "getVolumeName moduleId idx = moduleId @ ''-'' @ fmt_d (int idx)"

definition getServiceName :: "string \<Rightarrow> string" where
  "getServiceName moduleId = moduleId"

section \<open>The workspace calls\<close>

definition quoteChar :: string where "quoteChar = [CHR 0x22]"

definition quotaField :: "string \<Rightarrow> string \<Rightarrow> string" where
  "quotaField k v = quoteChar @ k @ quoteChar @ '':'' @ quoteChar @ v @ quoteChar"

text \<open>The format string of the quota annotation with its five numbers.\<close>

definition quotaString :: "int32 \<Rightarrow> int32 \<Rightarrow> int32 \<Rightarrow> string" where
  "quotaString cpus memory storage =
     ''{'' @ quoteChar @ ''limit'' @ quoteChar @ '':{''
       @ quotaField ''requestsCpu'' (fmt_int32 cpus @ ''m'') @ '',''
       @ quotaField ''requestsMemory'' (fmt_int32 memory @ ''Mi'') @ '',''
       @ quotaField ''requestsStorage'' (fmt_int32 storage @ ''Gi'') @ '',''
       @ quotaField ''limitsCpu'' (fmt_int32 cpus @ ''m'') @ '',''
       @ quotaField ''limitsMemory'' (fmt_int32 memory @ ''Mi'') @ '',''
       @ quotaField ''persistentVolumeClaims'' ''10'' @ ''}}''"

definition zeroQuota :: XWorkspaceQuota where
  "zeroQuota = \<lparr>wq_Cpus = 0, wq_Memory = 0, wq_Storage = 0, wq_Gpus = 0\<rparr>"

definition workspaceNamespace :: "'q ClusterProxyConf \<Rightarrow> XWorkspace \<Rightarrow> KubeNamespace" where
  "workspaceNamespace proxy msg =
     (let quota = (case xw_Quota msg of None \<Rightarrow> zeroQuota | Some q \<Rightarrow> q)
      in \<lparr>kn_Name = getNSNameForBatch proxy (xw_BatchId msg),
          kn_Annotations =
            [(''field.cattle.io/projectId'', getProjectID proxy),
             (''field.cattle.io/resourceQuota'', quotaString (wq_Cpus quota) (wq_Memory quota) (wq_Storage quota))],
          kn_Phase = ''''\<rparr>)"

definition PrepareWorkspace :: "'q ClusterProxyConf \<Rightarrow> XWorkspace \<Rightarrow> ('q, rpc_reply) kubing" where
  "PrepareWorkspace proxy msg = do {
     (ret, err) \<leftarrow> call (ku_namespace (px_kube proxy)) (CreateNamespace (workspaceNamespace proxy msg));
     State_Monad.return
       (case err of
          Some e \<Rightarrow> respond ERROR e err
        | None \<Rightarrow>
            (case deref ret of
               Panic m \<Rightarrow> Panic m
             | Ret ns \<Rightarrow>
                 if kn_Phase ns = ''Active'' then respond ACTIVE ''Active'' err
                 else respond PENDING ''Pending'' err))
   }"

subsection \<open>Reading Rancher's status annotation\<close>

text \<open>
  \<open>json.Unmarshal\<close> into a map from strings to slices of maps from strings to strings. The text is
  checked first, a malformed one decodes to nothing; a value of the wrong type is left at its zero
  value and decoding goes on, and the call ignores the error that is reported at the end.
\<close>

definition decodeString :: "jval \<Rightarrow> string" where
  "decodeString v = (case v of JStr s \<Rightarrow> s | _ \<Rightarrow> '''')"

definition decodeStringMap :: "jval \<Rightarrow> (string, string) gomap" where
  "decodeStringMap v =
     (case v of JObj kvs \<Rightarrow> fold (\<lambda>(k, x) m. gm_set m k (decodeString x)) kvs [] | _ \<Rightarrow> [])"

definition decodeStatus :: "jval \<Rightarrow> (string, (string, string) gomap list) gomap" where
  "decodeStatus v =
     (case v of
        JObj kvs \<Rightarrow> fold (\<lambda>(k, x) m. gm_set m k (map decodeStringMap (jitems x))) kvs []
      | _ \<Rightarrow> [])"

definition parseStatus :: "string \<Rightarrow> (string, (string, string) gomap list) gomap" where
  "parseStatus t = (case json_parse t of None \<Rightarrow> [] | Some v \<Rightarrow> decodeStatus v)"

fun quotaCondition :: "(string, string) gomap list \<Rightarrow> string option" where
  "quotaCondition [] = None"
| "quotaCondition (c # cs) =
     (if gm_at '''' c ''Type'' = ''ResourceQuotaValidated'' \<and> gm_at '''' c ''Status'' = ''False''
      then Some (gm_at '''' c ''Message'') else quotaCondition cs)"

definition CheckWorkspaceStatus :: "'q ClusterProxyConf \<Rightarrow> BatchId \<Rightarrow> ('q, rpc_reply) kubing" where
  "CheckWorkspaceStatus proxy msg = do {
     (ret, err) \<leftarrow> call (ku_namespace (px_kube proxy)) (GetNamespace (getNSNameForBatch proxy (bi_Id msg)));
     State_Monad.return
       (case err of
          Some e \<Rightarrow> respond ERROR e err
        | None \<Rightarrow>
            (case deref ret of
               Panic m \<Rightarrow> Panic m
             | Ret ns \<Rightarrow>
                 if kn_Phase ns = ''Active'' then
                   (case map_of (kn_Annotations ns) ''cattle.io/status'' of
                      None \<Rightarrow> respond ACTIVE ''Active'' err
                    | Some cattlestatus \<Rightarrow>
                        (case map_of (parseStatus cattlestatus) ''Conditions'' of
                           None \<Rightarrow> respond ACTIVE ''Active'' err
                         | Some condarr \<Rightarrow>
                             (case quotaCondition condarr of
                                None \<Rightarrow> respond ACTIVE ''Active'' err
                              | Some message \<Rightarrow> respond ERROR message err)))
                 else respond PENDING ''Pending'' err))
   }"

definition PurgeWorkspace :: "'q ClusterProxyConf \<Rightarrow> BatchId \<Rightarrow> ('q, rpc_reply) kubing" where
  "PurgeWorkspace proxy msg = do {
     err \<leftarrow> call (ku_done (px_kube proxy)) (DeleteNamespace (getNSNameForBatch proxy (bi_Id msg)));
     State_Monad.return
       (case err of
          Some e \<Rightarrow> respond ERROR e err
        | None \<Rightarrow> respond NOT_FOUND ''Deleted'' err)
   }"

section \<open>The quota annotation as JSON\<close>

lemma ascii_simps [simp]:
  "ascii []" "ascii (c # s) \<longleftrightarrow> byte_of c < 128 \<and> ascii s" "ascii (s @ t) \<longleftrightarrow> ascii s \<and> ascii t"
  by (simp_all add: ascii_def)

text \<open>Characters the encoder writes as they are.\<close>

definition unescaped :: "char \<Rightarrow> bool" where
  "unescaped c \<longleftrightarrow> byte_of c < 128 \<and> escape_ascii c = [c]"

lemma escape_unescaped: "list_all unescaped s \<Longrightarrow> escape s = s \<and> ascii s"
proof -
  assume s: "list_all unescaped s"
  then have a: "ascii s" by (auto simp: ascii_def unescaped_def list_all_iff)
  from s have "concat (map escape_ascii s) = s" by (induction s) (simp_all add: unescaped_def)
  with a escape_ascii_string [OF a] show ?thesis by simp
qed

lemma unescaped_digits: "list_all unescaped ''0123456789''"
  by code_simp

lemma unescaped_digit: "is_digit c \<Longrightarrow> unescaped c"
  using unescaped_digits unfolding is_digit_def list_all_iff by blast

lemma unescaped_fmt: "list_all unescaped (fmt_int32 x)"
proof -
  have "list_all unescaped (dec_digits n)" for n
    using dec_digits_digits unescaped_digit by (auto simp: list_all_iff)
  moreover have "unescaped (CHR ''-'')" by code_simp
  ultimately show ?thesis by (simp add: fmt_int32_def fmt_d_def)
qed

definition quotaJson :: "int32 \<Rightarrow> int32 \<Rightarrow> int32 \<Rightarrow> jval" where
  "quotaJson cpus memory storage =
     JObj [(''limit'', JObj
       [(''requestsCpu'', JStr (fmt_int32 cpus @ ''m'')),
        (''requestsMemory'', JStr (fmt_int32 memory @ ''Mi'')),
        (''requestsStorage'', JStr (fmt_int32 storage @ ''Gi'')),
        (''limitsCpu'', JStr (fmt_int32 cpus @ ''m'')),
        (''limitsMemory'', JStr (fmt_int32 memory @ ''Mi'')),
        (''persistentVolumeClaims'', JStr ''10'')])]"

lemma quoted_unescaped: "list_all unescaped s \<Longrightarrow> quoted s = quoteChar @ s @ quoteChar"
  by (simp add: quoted_def quoteChar_def escape_unescaped)

lemma unescaped_literals:
  "list_all unescaped ''limit''" "list_all unescaped ''requestsCpu''" "list_all unescaped ''requestsMemory''"
  "list_all unescaped ''requestsStorage''" "list_all unescaped ''limitsCpu''" "list_all unescaped ''limitsMemory''"
  "list_all unescaped ''persistentVolumeClaims''" "list_all unescaped ''10''" "list_all unescaped ''m''"
  "list_all unescaped ''Mi''" "list_all unescaped ''Gi''"
  by code_simp+

lemma quotaString_Marshal: "quotaString cpus memory storage = Marshal (quotaJson cpus memory storage)"
proof -
  have q: "quoted (fmt_int32 x @ u) = quoteChar @ (fmt_int32 x @ u) @ quoteChar" if "list_all unescaped u" for x u
    using that unescaped_fmt by (intro quoted_unescaped) simp
  note lits = unescaped_literals [THEN quoted_unescaped] and fmts = unescaped_literals(9-11) [THEN q]
  show ?thesis
    by (simp only: quotaJson_def Marshal.simps list.map prod.case lits fmts comma_sep_def join_with.simps
        quotaString_def quotaField_def append_assoc append_Cons append_Nil)
qed

lemma quotaJson_plain: "plainJson (quotaJson cpus memory storage)"
proof -
  have "ascii (fmt_int32 x)" for x using escape_unescaped [OF unescaped_fmt] by blast
  moreover note unescaped_literals [THEN escape_unescaped]
  ultimately show ?thesis by (simp only: quotaJson_def plainJson.simps list.pred_inject prod.case ascii_simps(3) simp_thms)
qed

lemma quotaString_parses: "json_parse (quotaString cpus memory storage) = Some (quotaJson cpus memory storage)"
  by (simp only: quotaString_Marshal json_parse_Marshal [OF quotaJson_plain])

section \<open>Requests of the workspace calls\<close>

lemma workspace_calls_confined [intro]:
  "extends (inNamespace (getNSNameForBatch proxy (xw_BatchId ws))) (PrepareWorkspace proxy ws)"
  "extends (inNamespace (getNSNameForBatch proxy (bi_Id b))) (CheckWorkspaceStatus proxy b)"
  "extends (inNamespace (getNSNameForBatch proxy (bi_Id b))) (PurgeWorkspace proxy b)"
  by (auto simp: PrepareWorkspace_def CheckWorkspaceStatus_def PurgeWorkspace_def inNamespace_def
      workspaceNamespace_def Let_def intro!: extends_bind extends_call split: prod.split)

section \<open>Reading the status\<close>

definition statusJson :: "(string \<times> string) list list \<Rightarrow> jval" where
  "statusJson conds = JObj [(''Conditions'', JArr (map (\<lambda>c. JObj (map (\<lambda>(k, v). (k, JStr v)) c)) conds))]"

text \<open>The failed quota check of a condition, as Rancher writes it.\<close>

definition quotaRefused :: "(string \<times> string) list \<Rightarrow> bool" where
  "quotaRefused c \<longleftrightarrow> map_of c ''Type'' = Some ''ResourceQuotaValidated'' \<and> map_of c ''Status'' = Some ''False''"

lemma decodeStringMap_lookup:
  "distinct (map fst c) \<Longrightarrow> map_of (decodeStringMap (JObj (map (\<lambda>(k, v). (k, JStr v)) c))) = map_of c"
proof -
  assume d: "distinct (map fst c)"
  have "fold (\<lambda>(k, x) m. gm_set m k (decodeString x)) (map (\<lambda>(k, v). (k, JStr v)) c) m
      = fold (\<lambda>(k, v) m. gm_set m k v) c m" for m
    by (induction c arbitrary: m) (auto simp: decodeString_def)
  then have "map_of (decodeStringMap (JObj (map (\<lambda>(k, v). (k, JStr v)) c))) = map_of (rev c)"
    using gm.lookup_set_all [of "[]" c] by (simp add: decodeStringMap_def)
  also have "\<dots> = map_of c" using d by (simp add: map_of_inject_set rev_map [symmetric])
  finally show ?thesis .
qed

lemma quotaCondition_find:
  assumes "list_all (\<lambda>c. distinct (map fst c)) conds"
  shows "quotaCondition (map (\<lambda>c. decodeStringMap (JObj (map (\<lambda>(k, v). (k, JStr v)) c))) conds) =
    (case filter quotaRefused conds of [] \<Rightarrow> None
     | c # _ \<Rightarrow> Some (case map_of c ''Message'' of None \<Rightarrow> '''' | Some m \<Rightarrow> m))"
  using assms
  by (induction conds)
    (auto simp: gm_at_def decodeStringMap_lookup quotaRefused_def simp del: map_of_eq_Some_iff split: option.split)

lemma parseStatus_json:
  assumes "list_all (list_all (\<lambda>(k, v). ascii k \<and> ascii v)) conds"
  shows "parseStatus (Marshal (statusJson conds)) =
    [(''Conditions'', map (\<lambda>c. decodeStringMap (JObj (map (\<lambda>(k, v). (k, JStr v)) c))) conds)]"
proof -
  have "plainJson (statusJson conds)"
    using assms by (fastforce simp: statusJson_def list_all_iff byte_of_def)
  from json_parse_Marshal [OF this] show ?thesis
    by (simp add: parseStatus_def decodeStatus_def statusJson_def gm_set_def o_def)
qed

section \<open>A proxy\<close>

definition demo_proxy :: "int kube \<Rightarrow> int ClusterProxyConf" where
  "demo_proxy kube =
     \<lparr>px_kube = kube,
      px_rancherClient = NewClient \<lparr>re_http = (\<lambda>h q. Inl ''connection refused''),
        re_gjson = table_gjson (\<lambda>b p. JNull)\<rparr> ''s'' ''t'',
      px_debug = False, px_clusterId = ''c'', px_projectId = ''p'', px_projectName = ''alice''\<rparr>"

lemma demo_proxy_sel [simp]:
  "px_kube (demo_proxy kube) = kube" "px_projectName (demo_proxy kube) = ''alice''"
  "px_clusterId (demo_proxy kube) = ''c''" "px_projectId (demo_proxy kube) = ''p''"
  "getNSNameForBatch (demo_proxy kube) batch = ''alice-'' @ batch"
  by (simp_all add: demo_proxy_def getNSNameForBatch_def)

section \<open>Properties of the workspace calls\<close>

text \<open>
  C17: Preparing a workspace makes one call: it creates the namespace of the batch, attached to the
  proxy's Rancher project, with a quota annotation that is well-formed JSON for every request, signs
  and missing quota included, and states the requested numbers in milli-CPUs, Mi and Gi. Nothing else is
  created: the network policy that the proxy's README specifies for the namespace is not, and the
  annotation has units for the CPUs and a number of volume claims that the README does not have.
\<close>

theorem prepared_namespace:
  "\<exists>ns t q. snd (run_state (PrepareWorkspace proxy msg) h) = h @ [CreateNamespace ns] \<and>
     kn_Name ns = px_projectName proxy @ ''-'' @ xw_BatchId msg \<and>
     map_of (kn_Annotations ns) ''field.cattle.io/projectId'' = Some (px_clusterId proxy @ '':'' @ px_projectId proxy) \<and>
     map_of (kn_Annotations ns) ''field.cattle.io/resourceQuota'' = Some t \<and>
     q = (case xw_Quota msg of None \<Rightarrow> zeroQuota | Some q \<Rightarrow> q) \<and>
     json_parse t = Some (JObj [(''limit'', JObj
       [(''requestsCpu'', JStr (fmt_int32 (wq_Cpus q) @ ''m'')),
        (''requestsMemory'', JStr (fmt_int32 (wq_Memory q) @ ''Mi'')),
        (''requestsStorage'', JStr (fmt_int32 (wq_Storage q) @ ''Gi'')),
        (''limitsCpu'', JStr (fmt_int32 (wq_Cpus q) @ ''m'')),
        (''limitsMemory'', JStr (fmt_int32 (wq_Memory q) @ ''Mi'')),
        (''persistentVolumeClaims'', JStr ''10'')])])"
proof -
  let ?q = "case xw_Quota msg of None \<Rightarrow> zeroQuota | Some q \<Rightarrow> q"
  let ?ns = "workspaceNamespace proxy msg"
  have "snd (run_state (PrepareWorkspace proxy msg) h) = h @ [CreateNamespace ?ns]"
    by (simp add: PrepareWorkspace_def split: prod.split)
  moreover have "kn_Name ?ns = px_projectName proxy @ ''-'' @ xw_BatchId msg"
    "map_of (kn_Annotations ?ns) ''field.cattle.io/projectId'' = Some (px_clusterId proxy @ '':'' @ px_projectId proxy)"
    "map_of (kn_Annotations ?ns) ''field.cattle.io/resourceQuota''
      = Some (quotaString (wq_Cpus ?q) (wq_Memory ?q) (wq_Storage ?q))"
    by (simp_all add: workspaceNamespace_def Let_def getNSNameForBatch_def getProjectID_def)
  ultimately show ?thesis
    using quotaString_parses [unfolded quotaJson_def] by blast
qed

text \<open>
  C16: The status of a workspace reflects the quota check Rancher recorded: when the namespace is
  active and carries Rancher's status as JSON, the reply is an error with the condition's message
  exactly when some condition says that the quota was not validated, the first such condition if
  several do, and active otherwise.
\<close>

theorem workspace_status_reports_quota:
  assumes "ku_namespace (px_kube proxy) h (GetNamespace (getNSNameForBatch proxy (bi_Id msg))) = (Some ns, None)"
    and "kn_Phase ns = ''Active''"
    and "map_of (kn_Annotations ns) ''cattle.io/status'' = Some (Marshal (statusJson conds))"
    and "list_all (\<lambda>c. distinct (map fst c)) conds"
    and "list_all (list_all (\<lambda>(k, v). ascii k \<and> ascii v)) conds"
  shows "fst (run_state (CheckWorkspaceStatus proxy msg) h) =
    (case filter quotaRefused conds of
       [] \<Rightarrow> Ret (\<lparr>cs_Status = ACTIVE, cs_Message = ''Active''\<rparr>, None)
     | c # _ \<Rightarrow> Ret (\<lparr>cs_Status = ERROR,
         cs_Message = (case map_of c ''Message'' of None \<Rightarrow> '''' | Some m \<Rightarrow> m)\<rparr>, None))"
  using assms
  by (simp add: CheckWorkspaceStatus_def parseStatus_json quotaCondition_find respond_def split: list.split)

definition demo_conditions :: "(string \<times> string) list list" where
  "demo_conditions =
     [[(''Type'', ''InitialRolesPopulated''), (''Status'', ''True''), (''Message'', '''')],
      [(''Type'', ''ResourceQuotaValidated''), (''Status'', ''False''), (''Message'', ''exceeded'')]]"

definition demo_workspace :: KubeNamespace where
  "demo_workspace = \<lparr>kn_Name = ''alice-b'',
     kn_Annotations = [(''cattle.io/status'', Marshal (statusJson demo_conditions))], kn_Phase = ''Active''\<rparr>"

theorem workspace_status_reports_quota_witness:
  "fst (run_state (CheckWorkspaceStatus (demo_proxy (demo_kube (\<lambda>q. False) [''alice-b'' \<mapsto> demo_workspace] Map.empty []))
     \<lparr>bi_Id = ''b''\<rparr>) []) = Ret (\<lparr>cs_Status = ERROR, cs_Message = ''exceeded''\<rparr>, None)"
proof -
  let ?proxy = "demo_proxy (demo_kube (\<lambda>q. False) [''alice-b'' \<mapsto> demo_workspace] Map.empty [])"
  have found: "ku_namespace (px_kube ?proxy) [] (GetNamespace (getNSNameForBatch ?proxy (bi_Id \<lparr>bi_Id = ''b''\<rparr>)))
      = (Some demo_workspace, None)"
    by (simp add: demo_kube_def)
  have active: "kn_Phase demo_workspace = ''Active''"
    and status: "map_of (kn_Annotations demo_workspace) ''cattle.io/status'' = Some (Marshal (statusJson demo_conditions))"
    by (simp_all add: demo_workspace_def)
  have keys: "list_all (\<lambda>c. distinct (map fst c)) demo_conditions"
    by (simp add: demo_conditions_def)
  have texts: "list_all (list_all (\<lambda>(k, v). ascii k \<and> ascii v)) demo_conditions"
    by code_simp
  from workspace_status_reports_quota [OF found active status keys texts]
  show ?thesis by (simp add: demo_conditions_def quotaRefused_def)
qed

text \<open>
  Reading Rancher's status annotation comes to an end for every text. The parser of the model takes
  fuel; for an annotation of \<open>n\<close> bytes any amount above \<open>2 n\<close> gives the result that \<open>parseStatus\<close>
  gives, so an annotation counts as unreadable only because it is not JSON, never because the parser
  was stopped.
\<close>

lemma status_parsing_ends:
  assumes "2 * length t < fuel"
  shows "parseStatus t = (case parse_value fuel t of
      None \<Rightarrow> [] | Some (v, r) \<Rightarrow> if skip_ws r = [] then decodeStatus v else [])"
  unfolding parseStatus_def json_parse_fuel [OF assms] by (simp split: option.split prod.split)

lemma status_parsing_ends_witness:
  "parse_value 50 ''{}'' = Some (JObj [], []) \<and> parseStatus ''{}'' = decodeStatus (JObj [])"
proof -
  have value_parsed: "parse_value 50 ''{}'' = Some (JObj [], [])" by code_simp
  with status_parsing_ends [of "''{}''" 50] show ?thesis by (simp add: skip_ws_def)
qed

end
