(* ===== verification/Proxy_Module.thy ===== *)
theory Proxy_Module
  imports Proxy_Workspace
begin

text \<open>
  The module calls of the cluster proxy (\<open>cluster-proxy/server/main.go\<close>): a module is run as
  persistent volume claims, a config map for its files, a service and a deployment, in that order,
  stopping at the first failure; its status is the deployment's; disposing of it deletes what the
  deployment shows.
\<close>

section \<open>Volumes, files and ports\<close>

definition volumeClaim :: "'q quantities \<Rightarrow> string \<Rightarrow> string \<Rightarrow> nat \<Rightarrow> XVolumeDescription \<Rightarrow> 'q PVC" where
  "volumeClaim qa namespace moduleId idx vol =
     \<lparr>pv_Namespace = namespace, pv_Name = getVolumeName moduleId idx,
      pv_AccessModes = [''ReadWriteOnce''],
      pv_Storage = qa_NewQuantity qa (int64_of_int32 (vd_Size vol * 1024)),
      pv_VolumeMode = ''Filesystem'',
      pv_StorageClassName = (if vd_StorageClass vol \<noteq> '''' then Some (vd_StorageClass vol) else None)\<rparr>"

definition volumeMount :: "string \<Rightarrow> nat \<Rightarrow> XVolumeDescription \<Rightarrow> VolumeMount" where
  "volumeMount moduleId idx vol =
     \<lparr>vm_Name = getVolumeName moduleId idx, vm_MountPath = vd_MountPath vol, vm_SubPath = ''''\<rparr>"

definition claimVolume :: "string \<Rightarrow> nat \<Rightarrow> Volume" where
  "claimVolume moduleId idx =
     \<lparr>vo_Name = getVolumeName moduleId idx,
      vo_PersistentVolumeClaim = Some (getVolumeName moduleId idx), vo_ConfigMap = None\<rparr>"

fun createVolumes :: "'q kube \<Rightarrow> string \<Rightarrow> string \<Rightarrow> nat \<Rightarrow> XVolumeDescription list
    \<Rightarrow> VolumeMount list \<Rightarrow> Volume list \<Rightarrow> ('q, go_error + VolumeMount list \<times> Volume list) kubing" where
  "createVolumes kube namespace moduleId idx [] mounts volumes = State_Monad.return (Inr (mounts, volumes))"
| "createVolumes kube namespace moduleId idx (vol # vols) mounts volumes = do {
     err \<leftarrow> call (ku_done kube)
       (CreatePVC namespace (volumeClaim (ku_quantities kube) namespace moduleId idx vol));
     case err of
       Some e \<Rightarrow> State_Monad.return (Inl e)
     | None \<Rightarrow> createVolumes kube namespace moduleId (Suc idx) vols
         (mounts @ [volumeMount moduleId idx vol]) (volumes @ [claimVolume moduleId idx])
   }"

definition fileKey :: "nat \<Rightarrow> string" where
  "fileKey idx = ''file-'' @ fmt_d (int idx)"

fun collectFiles :: "string \<Rightarrow> nat \<Rightarrow> XConfigFileDescription list \<Rightarrow> (string, string) gomap
    \<Rightarrow> VolumeMount list \<Rightarrow> (string, string) gomap \<times> VolumeMount list" where
  "collectFiles moduleId idx [] data mounts = (data, mounts)"
| "collectFiles moduleId idx (cnf # cnfs) data mounts =
     collectFiles moduleId (Suc idx) cnfs (gm_set data (fileKey idx) (cf_Data cnf))
       (mounts @ [\<lparr>vm_Name = moduleId, vm_MountPath = cf_MountPath cnf, vm_SubPath = fileKey idx\<rparr>])"

definition configMap :: "string \<Rightarrow> string \<Rightarrow> (string, string) gomap \<Rightarrow> ConfigMap" where
  "configMap namespace moduleId data = \<lparr>cm_Namespace = namespace, cm_Name = moduleId, cm_Data = data\<rparr>"

definition configVolume :: "string \<Rightarrow> Volume" where
  "configVolume moduleId =
     \<lparr>vo_Name = moduleId, vo_PersistentVolumeClaim = None, vo_ConfigMap = Some (moduleId, 256)\<rparr>"

definition portProtocol :: "XPortMapping \<Rightarrow> string" where
  "portProtocol port = (if pm_Protocol port = TCP then ''TCP'' else ''UDP'')"

text \<open>\<open>int32(port.GetContainerPort())\<close> keeps the bits of the unsigned number.\<close>

fun servicePorts :: "nat \<Rightarrow> XPortMapping list \<Rightarrow> ServicePort list" where
  "servicePorts idx [] = []"
| "servicePorts idx (port # ports) =
     \<lparr>sp_Port = pm_ContainerPort port, sp_Protocol = portProtocol port, sp_Name = ''port-'' @ fmt_d (int idx)\<rparr>
       # servicePorts (Suc idx) ports"

definition containerPorts :: "XPortMapping list \<Rightarrow> ContainerPort list" where
  "containerPorts ports =
     map (\<lambda>port. \<lparr>cp_ContainerPort = pm_ContainerPort port, cp_Protocol = portProtocol port\<rparr>) ports"

definition workloadSelector :: "string \<Rightarrow> (string, string) gomap" where
  "workloadSelector moduleId = [(''balticlsc/workloadselector'', moduleId)]"

definition moduleService :: "string \<Rightarrow> XBalticModuleBuild \<Rightarrow> Service" where
  "moduleService namespace msg =
     \<lparr>se_Namespace = namespace, se_Name = getServiceName (mb_ModuleId msg),
      se_Ports = servicePorts 0 (mb_PortMappings msg), se_Selector = workloadSelector (mb_ModuleId msg)\<rparr>"

section \<open>The deployment\<close>

definition zeroGpus :: XGpuRequest where
  "zeroGpus = \<lparr>gr_Type = '''', gr_Quantity = 0\<rparr>"

definition zeroResources :: XResourceRequest where
  "zeroResources = \<lparr>rr_Cpus = 0, rr_Memory = 0, rr_Gpus = None\<rparr>"

definition getResources :: "XBalticModuleBuild \<Rightarrow> XResourceRequest" where
  "getResources msg = (case mb_Resources msg of None \<Rightarrow> zeroResources | Some r \<Rightarrow> r)"

definition getGpus :: "XResourceRequest \<Rightarrow> XGpuRequest" where
  "getGpus r = (case rr_Gpus r of None \<Rightarrow> zeroGpus | Some g \<Rightarrow> g)"

definition gpuAffinity :: "XGpuRequest \<Rightarrow> Affinity" where
  "gpuAffinity gpu =
     (if 0 <s gr_Quantity gpu
      then Some [[\<lparr>nr_Key = ''accelerator'', nr_Operator = ''In'', nr_Values = [gr_Type gpu]\<rparr>]]
      else None)"

text \<open>The limits and requests of the container; each \<open>MustParse\<close> may panic.\<close>

definition moduleResources :: "'q quantities \<Rightarrow> XResourceRequest
    \<Rightarrow> ((string, 'q) gomap \<times> (string, 'q) gomap) outcome" where
  "moduleResources qa resources =
     (case MustParse qa (fmt_int32 (rr_Cpus resources) @ ''m'') of
        Panic m \<Rightarrow> Panic m
      | Ret cpu \<Rightarrow>
          (case MustParse qa (fmt_int32 (rr_Memory resources) @ ''Mi'') of
             Panic m \<Rightarrow> Panic m
           | Ret mem \<Rightarrow>
               Ret ([(''cpu'', cpu), (''memory'', mem),
                     (''nvidia.com/gpu'', qa_NewQuantity qa (int64_of_int32 (gr_Quantity (getGpus resources))))],
                    [(''cpu'', cpu), (''memory'', mem)])))"

definition moduleContainer :: "XBalticModuleBuild \<Rightarrow> VolumeMount list \<Rightarrow> (string, 'q) gomap
    \<Rightarrow> (string, 'q) gomap \<Rightarrow> 'q KubeContainer" where
  "moduleContainer msg mounts limits requests =
     \<lparr>kc_Name = mb_ModuleId msg, kc_Image = mb_Image msg,
      kc_Command = (if mb_Command msg \<noteq> '''' then [mb_Command msg] else []),
      kc_Args = mb_CommandArguments msg,
      kc_Ports = containerPorts (mb_PortMappings msg),
      kc_Env = map (\<lambda>e. \<lparr>en_Name = ev_Key e, en_Value = ev_Value e\<rparr>) (mb_EnvironmentVariables msg),
      kc_VolumeMounts = mounts, kc_Limits = limits, kc_Requests = requests\<rparr>"

definition moduleDeployment :: "string \<Rightarrow> XBalticModuleBuild \<Rightarrow> 'q KubeContainer \<Rightarrow> Volume list \<Rightarrow> 'q Deployment" where
  "moduleDeployment namespace msg container volumes =
     \<lparr>de_Namespace = namespace, de_Name = mb_ModuleId msg,
      de_Labels = workloadSelector (mb_ModuleId msg), de_Replicas = 1,
      de_MatchLabels = workloadSelector (mb_ModuleId msg),
      de_PodLabels = workloadSelector (mb_ModuleId msg),
      de_Affinity = gpuAffinity (getGpus (getResources msg)),
      de_Containers = [container], de_Volumes = volumes, de_Conditions = []\<rparr>"

section \<open>The module calls\<close>

definition RunBalticModule :: "'q ClusterProxyConf \<Rightarrow> XBalticModuleBuild \<Rightarrow> ('q, rpc_reply) kubing" where
  "RunBalticModule proxy msg = do {
     let kube = px_kube proxy;
     let namespace = getNSNameForBatch proxy (mb_BatchId msg);
     let moduleId = mb_ModuleId msg;
     claimed \<leftarrow> createVolumes kube namespace moduleId 0 (mb_Volumes msg) [] [];
     case claimed of
       Inl e \<Rightarrow> State_Monad.return (respond ERROR e (Some e))
     | Inr (claimMounts, claimVolumes) \<Rightarrow> do {
         let (data, mounts) = collectFiles moduleId 0 (mb_ConfigFiles msg) [] claimMounts;
         failed \<leftarrow>
           (if length data > 0 then call (ku_done kube) (CreateConfigMap namespace (configMap namespace moduleId data))
            else State_Monad.return None);
         let volumes = (if length data > 0 then claimVolumes @ [configVolume moduleId] else claimVolumes);
         case failed of
           Some e \<Rightarrow> State_Monad.return (respond ERROR e (Some e))
         | None \<Rightarrow> do {
             failed \<leftarrow> call (ku_done kube) (CreateService namespace (moduleService namespace msg));
             case failed of
               Some e \<Rightarrow> State_Monad.return (respond ERROR e (Some e))
             | None \<Rightarrow>
                 (case moduleResources (ku_quantities kube) (getResources msg) of
                    Panic m \<Rightarrow> State_Monad.return (Panic m)
                  | Ret (limits, requests) \<Rightarrow> do {
                      (result, err) \<leftarrow> call (ku_deployment kube) (CreateDeployment namespace
                        (moduleDeployment namespace msg (moduleContainer msg mounts limits requests) volumes));
                      State_Monad.return
                        (case deref result of
                           Panic m \<Rightarrow> Panic m
                         | Ret _ \<Rightarrow>
                             respond PENDING (case err of None \<Rightarrow> ''pending'' | Some e \<Rightarrow> e) err)
                    })
           }
       }
   }"

fun conditionStatus :: "Condition list \<Rightarrow> StatusCode \<times> string \<Rightarrow> StatusCode \<times> string" where
  "conditionStatus [] r = r"
| "conditionStatus (cond # conds) r =
     conditionStatus conds
       (if co_Type cond = ''Available''
        then (if co_Status cond = ''False'' then ERROR else ACTIVE, co_Message cond) else r)"

definition CheckBalticModuleStatus :: "'q ClusterProxyConf \<Rightarrow> Module \<Rightarrow> ('q, rpc_reply) kubing" where
  "CheckBalticModuleStatus proxy msg = do {
     (result, err) \<leftarrow> call (ku_deployment (px_kube proxy))
       (GetDeployment (getNSNameForBatch proxy (mo_BatchId msg)) (mo_ModuleId msg));
     State_Monad.return
       (case err of
          Some e \<Rightarrow> respond ERROR e err
        | None \<Rightarrow>
            (case deref result of
               Panic m \<Rightarrow> Panic m
             | Ret deployment \<Rightarrow>
                 (case conditionStatus (de_Conditions deployment) (PENDING, ''pending'') of
                    (status, message) \<Rightarrow> respond status message None)))
   }"

text \<open>The local variables \<open>status\<close>, \<open>message\<close> and \<open>retErr\<close> after a step that may have failed.\<close>

type_synonym disposing = "StatusCode \<times> string \<times> go_error option"

definition noteFailure :: "go_error option \<Rightarrow> disposing \<Rightarrow> disposing" where
  "noteFailure err vars = (case err of None \<Rightarrow> vars | Some e \<Rightarrow> (ERROR, e, Some e))"

fun disposeVolumes :: "'q kube \<Rightarrow> string \<Rightarrow> Volume list \<Rightarrow> disposing \<Rightarrow> ('q, disposing) kubing" where
  "disposeVolumes kube namespace [] vars = State_Monad.return vars"
| "disposeVolumes kube namespace (vol # vols) vars =
     (if vo_PersistentVolumeClaim vol \<noteq> None then do {
        err \<leftarrow> call (ku_done kube) (DeletePVC namespace (vo_Name vol));
        disposeVolumes kube namespace vols (noteFailure err vars)
      }
      else if vo_ConfigMap vol \<noteq> None then do {
        err \<leftarrow> call (ku_done kube) (DeleteConfigMap namespace (vo_Name vol));
        disposeVolumes kube namespace vols (noteFailure err vars)
      }
      else disposeVolumes kube namespace vols vars)"

definition DisposeBalticModule :: "'q ClusterProxyConf \<Rightarrow> Module \<Rightarrow> ('q, rpc_reply) kubing" where
  "DisposeBalticModule proxy msg = do {
     let kube = px_kube proxy;
     let namespace = getNSNameForBatch proxy (mo_BatchId msg);
     (deployment, err) \<leftarrow> call (ku_deployment kube) (GetDeployment namespace (mo_ModuleId msg));
     let vars = noteFailure err (PENDING, ''pending'', err);
     err \<leftarrow> call (ku_done kube) (DeleteDeployment namespace (mo_ModuleId msg));
     let vars = noteFailure err vars;
     err \<leftarrow> call (ku_done kube) (DeleteService namespace (getServiceName (mo_ModuleId msg)));
     let vars = noteFailure err vars;
     case deref deployment of
       Panic m \<Rightarrow> State_Monad.return (Panic m)
     | Ret d \<Rightarrow> do {
         vars \<leftarrow> disposeVolumes kube namespace (de_Volumes d) vars;
         State_Monad.return (case vars of (status, message, retErr) \<Rightarrow> respond status message retErr)
       }
   }"

section \<open>Running a module as a plan\<close>

text \<open>
  The specification: the objects to create are known from the message; they are created in order
  until one is refused, and the deployment is created when none was.
\<close>

fun tryAll :: "('q, go_error option) service \<Rightarrow> 'q list \<Rightarrow> ('q list, go_error option) state" where
  "tryAll svc [] = State_Monad.return None"
| "tryAll svc (q # qs) = do {
     err \<leftarrow> call svc q;
     case err of Some e \<Rightarrow> State_Monad.return (Some e) | None \<Rightarrow> tryAll svc qs
   }"

fun claimPlan :: "'q quantities \<Rightarrow> string \<Rightarrow> string \<Rightarrow> nat \<Rightarrow> XVolumeDescription list \<Rightarrow> 'q kube_req list" where
  "claimPlan qa ns moduleId idx [] = []"
| "claimPlan qa ns moduleId idx (vol # vols) =
     CreatePVC ns (volumeClaim qa ns moduleId idx vol) # claimPlan qa ns moduleId (Suc idx) vols"

fun claimMounts :: "string \<Rightarrow> nat \<Rightarrow> XVolumeDescription list \<Rightarrow> VolumeMount list" where
  "claimMounts moduleId idx [] = []"
| "claimMounts moduleId idx (vol # vols) = volumeMount moduleId idx vol # claimMounts moduleId (Suc idx) vols"

definition claimVolumes :: "string \<Rightarrow> nat \<Rightarrow> nat \<Rightarrow> Volume list" where
  "claimVolumes moduleId idx n = map (claimVolume moduleId) [idx ..< idx + n]"

definition fileData :: "XBalticModuleBuild \<Rightarrow> (string, string) gomap" where
  "fileData msg = fst (collectFiles (mb_ModuleId msg) 0 (mb_ConfigFiles msg) [] [])"

definition fileMounts :: "XBalticModuleBuild \<Rightarrow> VolumeMount list" where
  "fileMounts msg = snd (collectFiles (mb_ModuleId msg) 0 (mb_ConfigFiles msg) [] [])"

definition filePlan :: "string \<Rightarrow> XBalticModuleBuild \<Rightarrow> 'q kube_req list" where
  "filePlan ns msg =
     (if mb_ConfigFiles msg = [] then [] else [CreateConfigMap ns (configMap ns (mb_ModuleId msg) (fileData msg))])"

definition modulePlan :: "'q quantities \<Rightarrow> string \<Rightarrow> XBalticModuleBuild \<Rightarrow> 'q kube_req list" where
  "modulePlan qa ns msg =
     claimPlan qa ns (mb_ModuleId msg) 0 (mb_Volumes msg) @ filePlan ns msg @ [CreateService ns (moduleService ns msg)]"

definition moduleVolumes :: "XBalticModuleBuild \<Rightarrow> Volume list" where
  "moduleVolumes msg =
     claimVolumes (mb_ModuleId msg) 0 (length (mb_Volumes msg))
       @ (if mb_ConfigFiles msg = [] then [] else [configVolume (mb_ModuleId msg)])"

definition moduleMounts :: "XBalticModuleBuild \<Rightarrow> VolumeMount list" where
  "moduleMounts msg = claimMounts (mb_ModuleId msg) 0 (mb_Volumes msg) @ fileMounts msg"

definition plannedDeployment :: "string \<Rightarrow> XBalticModuleBuild \<Rightarrow> (string, 'q) gomap \<Rightarrow> (string, 'q) gomap
    \<Rightarrow> 'q Deployment" where
  "plannedDeployment ns msg limits requests =
     moduleDeployment ns msg (moduleContainer msg (moduleMounts msg) limits requests) (moduleVolumes msg)"

definition runPlan :: "'q ClusterProxyConf \<Rightarrow> XBalticModuleBuild \<Rightarrow> ('q, rpc_reply) kubing" where
  "runPlan proxy msg = do {
     let kube = px_kube proxy;
     let ns = getNSNameForBatch proxy (mb_BatchId msg);
     refused \<leftarrow> tryAll (ku_done kube) (modulePlan (ku_quantities kube) ns msg);
     case refused of
       Some e \<Rightarrow> State_Monad.return (respond ERROR e (Some e))
     | None \<Rightarrow>
         (case moduleResources (ku_quantities kube) (getResources msg) of
            Panic m \<Rightarrow> State_Monad.return (Panic m)
          | Ret (limits, requests) \<Rightarrow> do {
              (result, err) \<leftarrow> call (ku_deployment kube) (CreateDeployment ns (plannedDeployment ns msg limits requests));
              State_Monad.return
                (case deref result of
                   Panic m \<Rightarrow> Panic m
                 | Ret _ \<Rightarrow> respond PENDING (case err of None \<Rightarrow> ''pending'' | Some e \<Rightarrow> e) err)
            })
   }"

lemma run_tryAll_append:
  "run_state (tryAll svc (qs @ rs)) h =
     (case run_state (tryAll svc qs) h of
        (Some e, h') \<Rightarrow> (Some e, h') | (None, h') \<Rightarrow> run_state (tryAll svc rs) h')"
  by (induction qs arbitrary: h) (simp_all split: option.split)

lemma claimVolumes_Suc:
  "claimVolumes moduleId idx (Suc n) = claimVolume moduleId idx # claimVolumes moduleId (Suc idx) n"
  by (simp add: claimVolumes_def upt_conv_Cons del: upt_Suc)

lemma run_createVolumes:
  "run_state (createVolumes kube ns moduleId idx vols ms vs) h =
     (case run_state (tryAll (ku_done kube) (claimPlan (ku_quantities kube) ns moduleId idx vols)) h of
        (Some e, h') \<Rightarrow> (Inl e, h')
      | (None, h') \<Rightarrow> (Inr (ms @ claimMounts moduleId idx vols, vs @ claimVolumes moduleId idx (length vols)), h'))"
proof (induction vols arbitrary: idx ms vs h)
  case Nil
  then show ?case by (simp add: claimVolumes_def)
next
  case (Cons vol vols)
  show ?case
    by (simp add: Cons.IH claimVolumes_Suc split: option.split prod.split)
qed

lemma gm_set_nonempty [simp]: "gm_set m k v \<noteq> []"
  using gm_keys_set [of m k v] by (auto simp: gm_keys_def)

lemma collectFiles_acc:
  "collectFiles moduleId idx cnfs data ms =
     (fst (collectFiles moduleId idx cnfs data []), ms @ snd (collectFiles moduleId idx cnfs data []))"
proof (induction cnfs arbitrary: idx data ms)
  case Nil
  then show ?case by simp
next
  case (Cons cnf cnfs)
  let ?m = "\<lparr>vm_Name = moduleId, vm_MountPath = cf_MountPath cnf, vm_SubPath = fileKey idx\<rparr>"
  let ?d = "gm_set data (fileKey idx) (cf_Data cnf)"
  have "collectFiles moduleId (Suc idx) cnfs ?d (ms @ [?m]) = (fst (collectFiles moduleId (Suc idx) cnfs ?d []),
      (ms @ [?m]) @ snd (collectFiles moduleId (Suc idx) cnfs ?d []))"
    and "collectFiles moduleId (Suc idx) cnfs ?d [?m] = (fst (collectFiles moduleId (Suc idx) cnfs ?d []),
      [?m] @ snd (collectFiles moduleId (Suc idx) cnfs ?d []))"
    by (rule Cons.IH)+
  then show ?case by simp
qed

lemma collectFiles_empty: "fst (collectFiles moduleId idx cnfs data ms) = [] \<longleftrightarrow> cnfs = [] \<and> data = []"
  by (induction cnfs arbitrary: idx data ms) simp_all

lemma collected: "collectFiles (mb_ModuleId msg) 0 (mb_ConfigFiles msg) [] ms = (fileData msg, ms @ fileMounts msg)"
  by (subst collectFiles_acc) (simp add: fileData_def fileMounts_def)

lemma fileData_empty: "fileData msg = [] \<longleftrightarrow> mb_ConfigFiles msg = []"
  by (simp add: fileData_def collectFiles_empty)

lemma run_RunBalticModule: "run_state (RunBalticModule proxy msg) h = run_state (runPlan proxy msg) h"
  by (simp add: RunBalticModule_def runPlan_def Let_def run_createVolumes collected fileData_empty
      modulePlan_def filePlan_def run_tryAll_append plannedDeployment_def moduleMounts_def moduleVolumes_def
      split: prod.split option.split outcome.split)

lemma RunBalticModule_runPlan: "RunBalticModule = runPlan"
  by (intro ext state_ext run_RunBalticModule)

lemma run_tryAll_None:
  "run_state (tryAll svc qs) h = (None, h') \<Longrightarrow> h' = h @ qs"
  by (induction qs arbitrary: h h') (fastforce split: option.splits prod.splits)+

lemma run_tryAll_ok:
  "(\<And>i. i < length qs \<Longrightarrow> svc (h @ take i qs) (qs ! i) = None) \<Longrightarrow> run_state (tryAll svc qs) h = (None, h @ qs)"
proof (induction qs arbitrary: h)
  case Nil
  then show ?case by simp
next
  case (Cons q qs)
  have "svc h q = None" using Cons.prems [of 0] by simp
  moreover have "run_state (tryAll svc qs) (h @ [q]) = (None, (h @ [q]) @ qs)"
    using Cons.prems [of "Suc i" for i] by (intro Cons.IH) simp
  ultimately show ?case by simp
qed

lemma run_tryAll_failure:
  assumes "i < length qs" and "\<And>j. j < i \<Longrightarrow> svc (h @ take j qs) (qs ! j) = None"
    and "svc (h @ take i qs) (qs ! i) = Some e"
  shows "run_state (tryAll svc qs) h = (Some e, h @ take (Suc i) qs)"
proof -
  have qs: "qs = take i qs @ qs ! i # drop (Suc i) qs" using assms(1) by (rule id_take_nth_drop)
  have "run_state (tryAll svc (take i qs)) h = (None, h @ take i qs)"
    using assms(1,2) by (intro run_tryAll_ok) (auto simp: min_def)
  then have "run_state (tryAll svc (take i qs @ qs ! i # drop (Suc i) qs)) h = (Some e, h @ take (Suc i) qs)"
    using assms by (simp add: run_tryAll_append take_Suc_conv_app_nth)
  then show ?thesis using qs by metis
qed

text \<open>A run that gets to the end has created the plan and then the planned deployment.\<close>

lemma run_RunBalticModule_end:
  assumes "run_state (RunBalticModule proxy msg) h = (Ret (resp, None), h')"
  shows "\<exists>limits requests.
    moduleResources (ku_quantities (px_kube proxy)) (getResources msg) = Ret (limits, requests) \<and>
    h' = h @ modulePlan (ku_quantities (px_kube proxy)) (getNSNameForBatch proxy (mb_BatchId msg)) msg
      @ [CreateDeployment (getNSNameForBatch proxy (mb_BatchId msg))
          (plannedDeployment (getNSNameForBatch proxy (mb_BatchId msg)) msg limits requests)]"
proof -
  let ?ns = "getNSNameForBatch proxy (mb_BatchId msg)" and ?qa = "ku_quantities (px_kube proxy)"
  obtain refused h1 where t: "run_state (tryAll (ku_done (px_kube proxy)) (modulePlan ?qa ?ns msg)) h = (refused, h1)"
    by (metis prod.exhaust)
  show ?thesis
  proof (cases refused)
    case None
    with t have h1: "h1 = h @ modulePlan ?qa ?ns msg" by (simp add: run_tryAll_None)
    show ?thesis
      using assms t None h1 unfolding RunBalticModule_runPlan
      by (auto simp: runPlan_def Let_def split: outcome.splits prod.splits option.splits)
  next
    case (Some e)
    with assms t show ?thesis unfolding RunBalticModule_runPlan
      by (simp add: runPlan_def Let_def respond_def)
  qed
qed

section \<open>The planned objects fit together\<close>

lemma getVolumeName_inj: "getVolumeName m i = getVolumeName m j \<longleftrightarrow> i = j"
  by (auto simp: getVolumeName_def dest: fmt_d_inj)

lemma getVolumeName_neq: "getVolumeName m i \<noteq> m" "m \<noteq> getVolumeName m i"
  by (simp_all add: getVolumeName_def)

lemma fileKey_inj: "fileKey i = fileKey j \<longleftrightarrow> i = j"
  by (auto simp: fileKey_def dest: fmt_d_inj)

lemma moduleVolumes_names:
  "map vo_Name (moduleVolumes msg) = map (getVolumeName (mb_ModuleId msg)) [0 ..< length (mb_Volumes msg)]
     @ (if mb_ConfigFiles msg = [] then [] else [mb_ModuleId msg])"
  by (simp add: moduleVolumes_def claimVolumes_def claimVolume_def configVolume_def o_def)

lemma moduleVolumes_distinct: "distinct (map vo_Name (moduleVolumes msg))"
  unfolding moduleVolumes_names
  by (auto simp: distinct_map inj_on_def getVolumeName_inj getVolumeName_neq)

lemma claimMounts_names:
  "map vm_Name (claimMounts m idx vols) = map (getVolumeName m) [idx ..< idx + length vols]"
  by (induction vols arbitrary: idx) (simp_all add: volumeMount_def upt_conv_Cons del: upt_Suc)

lemma claimMounts_subpath: "mt \<in> set (claimMounts m idx vols) \<Longrightarrow> vm_SubPath mt = ''''"
  by (induction vols arbitrary: idx) (auto simp: volumeMount_def)

lemma collectFiles_spec:
  assumes "collectFiles m idx cnfs data [] = (d, ms)"
  shows "ms = map (\<lambda>i. \<lparr>vm_Name = m, vm_MountPath = cf_MountPath (cnfs ! i), vm_SubPath = fileKey (idx + i)\<rparr>) [0 ..< length cnfs]
    \<and> (\<forall>i < length cnfs. map_of d (fileKey (idx + i)) = Some (cf_Data (cnfs ! i)))
    \<and> (\<forall>k. (\<forall>i < length cnfs. k \<noteq> fileKey (idx + i)) \<longrightarrow> map_of d k = map_of data k)"
  using assms
proof (induction cnfs arbitrary: idx data d ms)
  case Nil
  then show ?case by simp
next
  case (Cons c cnfs)
  let ?d = "gm_set data (fileKey idx) (cf_Data c)"
  let ?mt = "\<lparr>vm_Name = m, vm_MountPath = cf_MountPath c, vm_SubPath = fileKey idx\<rparr>"
  obtain d' ms' where nf: "collectFiles m (Suc idx) cnfs ?d [] = (d', ms')"
    by (metis prod.exhaust)
  with Cons.prems collectFiles_acc [of m "Suc idx" cnfs ?d "[?mt]"]
  have next_files: "collectFiles m (Suc idx) cnfs ?d [] = (d, ms')" and ms: "ms = ?mt # ms'"
    by simp_all
  note IH = Cons.IH [OF next_files]
  have shift: "[0 ..< length (c # cnfs)] = 0 # map Suc [0 ..< length cnfs]"
    by (simp add: upt_conv_Cons map_Suc_upt del: upt_Suc)
  have fresh: "\<forall>i < length cnfs. fileKey idx \<noteq> fileKey (Suc idx + i)" by (simp add: fileKey_inj)
  have "ms = map (\<lambda>i. \<lparr>vm_Name = m, vm_MountPath = cf_MountPath ((c # cnfs) ! i), vm_SubPath = fileKey (idx + i)\<rparr>) [0 ..< length (c # cnfs)]"
    unfolding shift using IH ms by simp
  moreover have "map_of d (fileKey (idx + i)) = Some (cf_Data ((c # cnfs) ! i))" if "i < length (c # cnfs)" for i
    using that IH fresh by (cases i) auto
  moreover have "map_of d k = map_of data k" if "\<forall>i < length (c # cnfs). k \<noteq> fileKey (idx + i)" for k
  proof -
    have "k \<noteq> fileKey idx" using that by (metis add_0_right length_greater_0_conv list.discI)
    moreover have "\<forall>i < length cnfs. k \<noteq> fileKey (Suc idx + i)"
      using that by (metis Suc_less_eq add_Suc_shift length_Cons)
    ultimately show ?thesis using IH by simp
  qed
  ultimately show ?case by blast
qed

lemma fileMounts_spec:
  "mt \<in> set (fileMounts msg) \<Longrightarrow>
   mb_ConfigFiles msg \<noteq> [] \<and> vm_Name mt = mb_ModuleId msg \<and> map_of (fileData msg) (vm_SubPath mt) \<noteq> None"
proof -
  assume mt: "mt \<in> set (fileMounts msg)"
  obtain d ms where c: "collectFiles (mb_ModuleId msg) 0 (mb_ConfigFiles msg) [] [] = (d, ms)"
    by (metis prod.exhaust)
  from collectFiles_spec [OF c] mt c show ?thesis by (auto simp: fileMounts_def fileData_def)
qed

lemma claimPlan_requests:
  "set (claimPlan qa ns m idx vols) = (\<lambda>i. CreatePVC ns (volumeClaim qa ns m (idx + i) (vols ! i))) ` {0 ..< length vols}"
proof (induction vols arbitrary: idx)
  case Nil
  then show ?case by simp
next
  case (Cons vol vols)
  have "{0 ..< length (vol # vols)} = insert 0 (Suc ` {0 ..< length vols})"
    by (auto simp: image_iff less_Suc_eq_0_disj)
  then show ?case by (simp only: Cons.IH image_insert image_image claimPlan.simps list.set) simp
qed

section \<open>Disposing as a plan\<close>

fun callAll :: "('q, go_error option) service \<Rightarrow> 'q list \<Rightarrow> ('q list, go_error option list) state" where
  "callAll svc [] = State_Monad.return []"
| "callAll svc (q # qs) = do {
     err \<leftarrow> call svc q;
     errs \<leftarrow> callAll svc qs;
     State_Monad.return (err # errs)
   }"

fun volumeDelete :: "string \<Rightarrow> Volume \<Rightarrow> 'q kube_req option" where
  "volumeDelete ns vol =
     (if vo_PersistentVolumeClaim vol \<noteq> None then Some (DeletePVC ns (vo_Name vol))
      else if vo_ConfigMap vol \<noteq> None then Some (DeleteConfigMap ns (vo_Name vol))
      else None)"

definition disposePlan :: "string \<Rightarrow> string \<Rightarrow> Volume list \<Rightarrow> 'q kube_req list" where
  "disposePlan ns moduleId vols =
     [DeleteDeployment ns moduleId, DeleteService ns (getServiceName moduleId)] @ List.map_filter (volumeDelete ns) vols"

lemma run_callAll: "run_state (callAll svc qs) h = (map (\<lambda>i. svc (h @ take i qs) (qs ! i)) [0 ..< length qs], h @ qs)"
proof (induction qs arbitrary: h)
  case Nil
  then show ?case by simp
next
  case (Cons q qs)
  have "[0 ..< length (q # qs)] = 0 # map Suc [0 ..< length qs]"
    by (simp add: upt_conv_Cons map_Suc_upt del: upt_Suc)
  with Cons show ?case by (simp add: o_def)
qed

lemma run_disposeVolumes:
  "run_state (disposeVolumes kube ns vols vars) h =
     (case run_state (callAll (ku_done kube) (List.map_filter (volumeDelete ns) vols)) h of
        (errs, h') \<Rightarrow> (fold noteFailure errs vars, h'))"
  by (induction vols arbitrary: vars h) (auto simp: map_filter_simps split: prod.split option.split)

lemma fold_noteFailure:
  "fold noteFailure errs vars =
     (case filter (\<lambda>e. e \<noteq> None) errs of [] \<Rightarrow> vars | fs \<Rightarrow> (ERROR, the (last fs), last fs))"
  by (induction errs arbitrary: vars) (auto simp: noteFailure_def split: option.splits list.splits)

lemma run_DisposeBalticModule:
  assumes "ku_deployment (px_kube proxy) h (GetDeployment (getNSNameForBatch proxy (mo_BatchId msg)) (mo_ModuleId msg)) = (Some d, err)"
  shows "run_state (DisposeBalticModule proxy msg) h =
    (let ns = getNSNameForBatch proxy (mo_BatchId msg);
         h1 = h @ [GetDeployment ns (mo_ModuleId msg)];
         (errs, h2) = run_state (callAll (ku_done (px_kube proxy)) (disposePlan ns (mo_ModuleId msg) (de_Volumes d))) h1
     in (case fold noteFailure (err # errs) (PENDING, ''pending'', None) of
           (status, message, retErr) \<Rightarrow> respond status message retErr, h2))"
proof -
  have first: "noteFailure err (PENDING, ''pending'', err) = noteFailure err (PENDING, ''pending'', None)"
    by (cases err) (simp_all add: noteFailure_def)
  show ?thesis
    using assms
    by (simp add: DisposeBalticModule_def disposePlan_def Let_def run_disposeVolumes first split: prod.split)
qed

section \<open>Requests of the module calls\<close>

lemma extends_tryAll: "list_all P qs \<Longrightarrow> extends P (tryAll svc qs)"
  by (induction qs) (auto intro!: extends_bind extends_call split: option.split)

lemma claimPlan_confined: "list_all (inNamespace ns) (claimPlan qa ns m idx vols)"
  by (induction vols arbitrary: idx) (simp_all add: inNamespace_def volumeClaim_def)

lemma modulePlan_confined: "list_all (inNamespace ns) (modulePlan qa ns msg)"
  by (simp add: modulePlan_def claimPlan_confined filePlan_def inNamespace_def configMap_def moduleService_def)

lemma RunBalticModule_confined [intro]:
  "extends (inNamespace (getNSNameForBatch proxy (mb_BatchId msg))) (RunBalticModule proxy msg)"
  unfolding RunBalticModule_runPlan runPlan_def Let_def
  by (auto intro!: extends_bind extends_tryAll extends_call modulePlan_confined
      simp: inNamespace_def plannedDeployment_def moduleDeployment_def split: option.split outcome.split prod.split)

lemma disposeVolumes_confined [intro]: "extends (inNamespace ns) (disposeVolumes kube ns vols vars)"
proof (induction vols arbitrary: vars)
  case Nil
  then show ?case by simp
next
  case (Cons vol vols)
  have deletes: "inNamespace ns (DeletePVC ns n)" "inNamespace ns (DeleteConfigMap ns n)" for n
    by (simp_all add: inNamespace_def)
  show ?case
    by (auto intro!: extends_bind extends_call deletes Cons.IH)
qed

lemma module_calls_confined [intro]:
  "extends (inNamespace (getNSNameForBatch proxy (mo_BatchId m))) (CheckBalticModuleStatus proxy m)"
  "extends (inNamespace (getNSNameForBatch proxy (mo_BatchId m))) (DisposeBalticModule proxy m)"
  by (auto simp: CheckBalticModuleStatus_def DisposeBalticModule_def Let_def inNamespace_def
      intro!: extends_bind extends_call disposeVolumes_confined split: prod.split option.split outcome.split)

section \<open>The objects a history created or deleted\<close>

fun createdObject :: "'q kube_req \<Rightarrow> (string \<times> string \<times> string) option" where
  "createdObject (CreatePVC ns p) = Some (''persistentvolumeclaim'', ns, pv_Name p)"
| "createdObject (CreateConfigMap ns c) = Some (''configmap'', ns, cm_Name c)"
| "createdObject (CreateService ns s) = Some (''service'', ns, se_Name s)"
| "createdObject (CreateDeployment ns d) = Some (''deployment'', ns, de_Name d)"
| "createdObject (CreateNamespace n) = Some (''namespace'', kn_Name n, kn_Name n)"
| "createdObject _ = None"

fun deletedObject :: "'q kube_req \<Rightarrow> (string \<times> string \<times> string) option" where
  "deletedObject (DeletePVC ns n) = Some (''persistentvolumeclaim'', ns, n)"
| "deletedObject (DeleteConfigMap ns n) = Some (''configmap'', ns, n)"
| "deletedObject (DeleteService ns n) = Some (''service'', ns, n)"
| "deletedObject (DeleteDeployment ns n) = Some (''deployment'', ns, n)"
| "deletedObject (DeleteNamespace n) = Some (''namespace'', n, n)"
| "deletedObject _ = None"

definition createdObjects :: "'q kube_req list \<Rightarrow> (string \<times> string \<times> string) list" where
  "createdObjects qs = List.map_filter createdObject qs"

definition deletedObjects :: "'q kube_req list \<Rightarrow> (string \<times> string \<times> string) list" where
  "deletedObjects qs = List.map_filter deletedObject qs"

lemma objects_append [simp]:
  "createdObjects (qs @ rs) = createdObjects qs @ createdObjects rs"
  "deletedObjects (qs @ rs) = deletedObjects qs @ deletedObjects rs"
  by (simp_all add: createdObjects_def deletedObjects_def map_filter_def)

lemma objects_simps [simp]:
  "createdObjects [] = []" "deletedObjects [] = []"
  "createdObjects (q # qs) = (case createdObject q of None \<Rightarrow> createdObjects qs | Some x \<Rightarrow> x # createdObjects qs)"
  "deletedObjects (q # qs) = (case deletedObject q of None \<Rightarrow> deletedObjects qs | Some x \<Rightarrow> x # deletedObjects qs)"
  by (simp_all add: createdObjects_def deletedObjects_def map_filter_simps split: option.split)

lemma created_claims:
  "createdObjects (claimPlan qa ns m idx vols)
     = map (\<lambda>i. (''persistentvolumeclaim'', ns, getVolumeName m i)) [idx ..< idx + length vols]"
  by (induction vols arbitrary: idx) (simp_all add: volumeClaim_def upt_conv_Cons del: upt_Suc)

lemma deleted_claims:
  "deletedObjects (List.map_filter (volumeDelete ns) (map (claimVolume m) is))
     = map (\<lambda>i. (''persistentvolumeclaim'', ns, getVolumeName m i)) is"
  by (induction "is") (simp_all add: map_filter_simps claimVolume_def)

lemma map_filter_append: "List.map_filter f (xs @ ys) = List.map_filter f xs @ List.map_filter f ys"
  by (simp add: map_filter_def)

lemma created_deleted:
  "set (deletedObjects (disposePlan ns (mb_ModuleId msg) (moduleVolumes msg))) =
   set (createdObjects (modulePlan qa ns msg @ [CreateDeployment ns (plannedDeployment ns msg limits requests)]))"
  by (auto simp: disposePlan_def modulePlan_def moduleVolumes_def map_filter_append claimVolumes_def deleted_claims
      created_claims filePlan_def configVolume_def configMap_def moduleService_def getServiceName_def
      plannedDeployment_def moduleDeployment_def map_filter_simps)

section \<open>Properties of the module calls\<close>

text \<open>
  C12: Running a module is creating a plan: the claims of the volumes, the config map of the files when
  there are any, the service, each only if everything before it was accepted, and at the end the
  deployment. The loops of the code compute that plan and that deployment exactly, for every message
  and every behaviour of the API server.
\<close>

theorem run_module_is_plan: "RunBalticModule proxy msg = runPlan proxy msg"
  by (simp add: RunBalticModule_runPlan)

text \<open>
  C15: The first refused object ends the run: the reply is an error with the server's text, nothing
  more is asked for, and nothing that was created before is taken back.
\<close>

theorem run_stops_at_first_refusal:
  assumes "plan = modulePlan (ku_quantities (px_kube proxy)) (getNSNameForBatch proxy (mb_BatchId msg)) msg"
    and "i < length plan" and "\<And>j. j < i \<Longrightarrow> ku_done (px_kube proxy) (h @ take j plan) (plan ! j) = None"
    and "ku_done (px_kube proxy) (h @ take i plan) (plan ! i) = Some e"
  shows "run_state (RunBalticModule proxy msg) h =
    (Ret (\<lparr>cs_Status = ERROR, cs_Message = e\<rparr>, Some e), h @ take (Suc i) plan)"
proof -
  have "run_state (tryAll (ku_done (px_kube proxy)) plan) h = (Some e, h @ take (Suc i) plan)"
    by (rule run_tryAll_failure) (use assms(2-4) in auto)
  then show ?thesis
    unfolding RunBalticModule_runPlan using assms(1) by (simp add: runPlan_def Let_def respond_def)
qed

definition demo_module :: XBalticModuleBuild where
  "demo_module = \<lparr>mb_BatchId = ''b'', mb_ModuleId = ''m'', mb_Image = ''busybox'', mb_EnvironmentVariables = [],
     mb_Command = '''', mb_CommandArguments = [], mb_PortMappings = [],
     mb_Volumes = [\<lparr>vd_Size = 1, vd_StorageClass = '''', vd_MountPath = ''/a''\<rparr>, \<lparr>vd_Size = 2, vd_StorageClass = ''x'', vd_MountPath = ''/b''\<rparr>],
     mb_Resources = Some \<lparr>rr_Cpus = 250, rr_Memory = 256, rr_Gpus = None\<rparr>,
     mb_ConfigFiles = [\<lparr>cf_Data = ''z'', cf_MountPath = ''/f''\<rparr>], mb_Scope = WORKSPACE\<rparr>"

theorem run_stops_at_first_refusal_witness:
  "run_state (RunBalticModule (demo_proxy (demo_kube (\<lambda>q. \<exists>c. q = CreateConfigMap ''alice-b'' c) Map.empty Map.empty []))
      demo_module) [] =
    (Ret (\<lparr>cs_Status = ERROR, cs_Message = ''forbidden''\<rparr>, Some ''forbidden''),
     [CreatePVC ''alice-b'' (volumeClaim demo_quantities ''alice-b'' ''m'' 0 (mb_Volumes demo_module ! 0)),
      CreatePVC ''alice-b'' (volumeClaim demo_quantities ''alice-b'' ''m'' 1 (mb_Volumes demo_module ! 1)),
      CreateConfigMap ''alice-b'' (configMap ''alice-b'' ''m'' (fileData demo_module))])"
proof -
  let ?kube = "demo_kube (\<lambda>q. \<exists>c. q = CreateConfigMap ''alice-b'' c) Map.empty Map.empty []"
  let ?plan = "modulePlan demo_quantities ''alice-b'' demo_module"
  have plan: "?plan = modulePlan (ku_quantities (px_kube (demo_proxy ?kube)))
      (getNSNameForBatch (demo_proxy ?kube) (mb_BatchId demo_module)) demo_module"
    by (simp add: demo_module_def)
  have reqs: "?plan = [CreatePVC ''alice-b'' (volumeClaim demo_quantities ''alice-b'' ''m'' 0 (mb_Volumes demo_module ! 0)),
      CreatePVC ''alice-b'' (volumeClaim demo_quantities ''alice-b'' ''m'' 1 (mb_Volumes demo_module ! 1)),
      CreateConfigMap ''alice-b'' (configMap ''alice-b'' ''m'' (fileData demo_module)),
      CreateService ''alice-b'' (moduleService ''alice-b'' demo_module)]"
    by (simp add: modulePlan_def filePlan_def demo_module_def)
  have accepted: "ku_done (px_kube (demo_proxy ?kube)) ([] @ take j ?plan) (?plan ! j) = None" if "j < 2" for j
    using that unfolding reqs by (auto simp: less_2_cases_iff)
  have refused: "ku_done (px_kube (demo_proxy ?kube)) ([] @ take 2 ?plan) (?plan ! 2) = Some ''forbidden''"
    unfolding reqs by simp
  have "2 < length ?plan" unfolding reqs by simp
  from run_stops_at_first_refusal [OF plan this accepted refused] show ?thesis
    unfolding reqs by simp
qed

text \<open>
  C11: A module that runs fits together: in the namespace of its batch the volumes have distinct names,
  every mount is of one of them, the claim behind each volume and the key behind each mounted file
  were created before the deployment, and the service selects exactly the deployment's pods.
\<close>

theorem deployed_module_wellformed:
  assumes "run_state (RunBalticModule proxy msg) h = (Ret (resp, None), h')"
  shows "\<exists>ns plan d c s.
    ns = px_projectName proxy @ ''-'' @ mb_BatchId msg \<and> h' = h @ plan @ [CreateDeployment ns d] \<and>
    distinct (map vo_Name (de_Volumes d)) \<and> de_Containers d = [c] \<and>
    (\<forall>mt \<in> set (kc_VolumeMounts c). vm_Name mt \<in> vo_Name ` set (de_Volumes d)) \<and>
    (\<forall>v claim. v \<in> set (de_Volumes d) \<longrightarrow> vo_PersistentVolumeClaim v = Some claim \<longrightarrow>
       (\<exists>p. CreatePVC ns p \<in> set plan \<and> pv_Name p = claim)) \<and>
    (\<forall>mt \<in> set (kc_VolumeMounts c). vm_SubPath mt \<noteq> '''' \<longrightarrow>
       (\<exists>cm. CreateConfigMap ns cm \<in> set plan \<and> cm_Name cm = vm_Name mt \<and> map_of (cm_Data cm) (vm_SubPath mt) \<noteq> None)) \<and>
    CreateService ns s \<in> set plan \<and> se_Selector s = de_PodLabels d \<and> de_MatchLabels d = de_PodLabels d"
proof -
  let ?ns = "getNSNameForBatch proxy (mb_BatchId msg)" and ?qa = "ku_quantities (px_kube proxy)"
  let ?plan = "modulePlan ?qa ?ns msg"
  obtain limits requests where h': "h' = h @ ?plan @ [CreateDeployment ?ns (plannedDeployment ?ns msg limits requests)]"
    using run_RunBalticModule_end [OF assms] by blast
  let ?d = "plannedDeployment ?ns msg limits requests"
  let ?c = "moduleContainer msg (moduleMounts msg) limits requests"
  have d: "de_Volumes ?d = moduleVolumes msg" "de_Containers ?d = [?c]" "kc_VolumeMounts ?c = moduleMounts msg"
    "de_PodLabels ?d = workloadSelector (mb_ModuleId msg)" "de_MatchLabels ?d = workloadSelector (mb_ModuleId msg)"
    by (simp_all add: plannedDeployment_def moduleDeployment_def moduleContainer_def)
  have names: "vo_Name ` set (moduleVolumes msg) = set (map (getVolumeName (mb_ModuleId msg)) [0 ..< length (mb_Volumes msg)])
      \<union> (if mb_ConfigFiles msg = [] then {} else {mb_ModuleId msg})"
    by (simp flip: set_map add: moduleVolumes_names)
  have mounts: "vm_Name mt \<in> vo_Name ` set (moduleVolumes msg)" if "mt \<in> set (moduleMounts msg)" for mt
  proof (cases "mt \<in> set (fileMounts msg)")
    case True
    with fileMounts_spec show ?thesis unfolding names by auto
  next
    case False
    with that have "mt \<in> set (claimMounts (mb_ModuleId msg) 0 (mb_Volumes msg))" by (simp add: moduleMounts_def)
    then have "vm_Name mt \<in> set (map vm_Name (claimMounts (mb_ModuleId msg) 0 (mb_Volumes msg)))" by simp
    then show ?thesis unfolding names claimMounts_names by auto
  qed
  have claims: "\<exists>p. CreatePVC ?ns p \<in> set ?plan \<and> pv_Name p = claim"
    if "v \<in> set (moduleVolumes msg)" "vo_PersistentVolumeClaim v = Some claim" for v claim
  proof -
    from that obtain i where i: "i < length (mb_Volumes msg)" "claim = getVolumeName (mb_ModuleId msg) i"
      by (auto simp: moduleVolumes_def claimVolumes_def claimVolume_def configVolume_def split: if_splits)
    then show ?thesis
      by (intro exI [of _ "volumeClaim ?qa ?ns (mb_ModuleId msg) i (mb_Volumes msg ! i)"])
        (auto simp: modulePlan_def claimPlan_requests volumeClaim_def)
  qed
  have files: "\<exists>cm. CreateConfigMap ?ns cm \<in> set ?plan \<and> cm_Name cm = vm_Name mt \<and> map_of (cm_Data cm) (vm_SubPath mt) \<noteq> None"
    if "mt \<in> set (moduleMounts msg)" "vm_SubPath mt \<noteq> ''''" for mt
  proof -
    from that have "mt \<in> set (fileMounts msg)" by (auto simp: moduleMounts_def dest: claimMounts_subpath)
    from fileMounts_spec [OF this] show ?thesis
      by (intro exI [of _ "configMap ?ns (mb_ModuleId msg) (fileData msg)"])
        (auto simp: modulePlan_def filePlan_def configMap_def)
  qed
  have service: "CreateService ?ns (moduleService ?ns msg) \<in> set ?plan"
    "se_Selector (moduleService ?ns msg) = workloadSelector (mb_ModuleId msg)"
    by (simp_all add: modulePlan_def moduleService_def)
  show ?thesis
    by (rule exI [of _ ?ns], rule exI [of _ ?plan], rule exI [of _ ?d], rule exI [of _ ?c],
        rule exI [of _ "moduleService ?ns msg"])
      (use h' d moduleVolumes_distinct mounts claims files service in \<open>simp add: getNSNameForBatch_def\<close>)
qed

lemma demo_run:
  "run_state (RunBalticModule (demo_proxy (demo_kube (\<lambda>q. False) Map.empty ds [])) demo_module) [] =
    (Ret (\<lparr>cs_Status = PENDING, cs_Message = ''pending''\<rparr>, None),
     modulePlan demo_quantities ''alice-b'' demo_module
       @ [CreateDeployment ''alice-b'' (plannedDeployment ''alice-b'' demo_module
           [(''cpu'', 250), (''memory'', 268435456000), (''nvidia.com/gpu'', 0)] [(''cpu'', 250), (''memory'', 268435456000)])])"
proof -
  have all: "run_state (tryAll (ku_done (demo_kube (\<lambda>q. False) Map.empty ds [])) qs) h = (None, h @ qs)" for qs h
    by (rule run_tryAll_ok) simp
  have res: "moduleResources demo_quantities (getResources demo_module) =
      Ret ([(''cpu'', 250), (''memory'', 268435456000), (''nvidia.com/gpu'', 0)], [(''cpu'', 250), (''memory'', 268435456000)])"
    by code_simp
  have batch: "mb_BatchId demo_module = ''b''" by (simp add: demo_module_def)
  show ?thesis
    unfolding RunBalticModule_runPlan
    by (simp add: runPlan_def Let_def all res batch respond_def)
qed

theorem deployed_module_wellformed_witness:
  "\<exists>ns plan d. snd (run_state (RunBalticModule (demo_proxy (demo_kube (\<lambda>q. False) Map.empty Map.empty [])) demo_module) [])
      = plan @ [CreateDeployment ns d] \<and> ns = ''alice-b'' \<and> distinct (map vo_Name (de_Volumes d))"
proof -
  have batch: "mb_BatchId demo_module = ''b''" by (simp add: demo_module_def)
  from deployed_module_wellformed [OF demo_run [of Map.empty]] show ?thesis
    unfolding demo_run batch by auto
qed

text \<open>
  C10: Disposing of a module undoes running it: when the deployment read back shows the volumes it was
  created with, the calls made by \<open>DisposeBalticModule\<close> delete exactly the objects that the
  successful \<open>RunBalticModule\<close> created, claims, config map, service and deployment.
\<close>

theorem dispose_undoes_run:
  fixes proxy :: "'q ClusterProxyConf"
  assumes "run_state (RunBalticModule proxy msg) h = (Ret (resp, None), h @ created)"
    and "mo_BatchId m = mb_BatchId msg" and "mo_ModuleId m = mb_ModuleId msg"
    and "ku_deployment (px_kube proxy) g (GetDeployment (getNSNameForBatch proxy (mo_BatchId m)) (mo_ModuleId m)) = (Some d, e)"
    and "CreateDeployment ns d' \<in> set created" and "de_Volumes d = de_Volumes d'"
  shows "\<exists>r deleted. run_state (DisposeBalticModule proxy m) g = (r, g @ deleted) \<and>
    set (deletedObjects deleted) = set (createdObjects created) \<and> createdObjects deleted = []"
proof -
  let ?ns = "getNSNameForBatch proxy (mb_BatchId msg)" and ?qa = "ku_quantities (px_kube proxy)"
  obtain limits requests where c: "created = modulePlan ?qa ?ns msg @ [CreateDeployment ?ns (plannedDeployment ?ns msg limits requests)]"
    using run_RunBalticModule_end [OF assms(1)] by auto
  have "CreateDeployment ns d' \<notin> set (modulePlan ?qa ?ns msg)"
    by (auto simp: modulePlan_def filePlan_def claimPlan_requests)
  with c assms(5,6) have vols: "de_Volumes d = moduleVolumes msg"
    by (auto simp: plannedDeployment_def moduleDeployment_def)
  let ?deleted = "GetDeployment ?ns (mb_ModuleId msg) # disposePlan ?ns (mb_ModuleId msg) (moduleVolumes msg) :: 'q kube_req list"
  have "\<exists>r. run_state (DisposeBalticModule proxy m) g = (r, g @ ?deleted)"
    using assms(2,3) vols by (simp add: run_DisposeBalticModule [OF assms(4)] run_callAll Let_def)
  moreover have "set (deletedObjects ?deleted) = set (createdObjects created)"
    using created_deleted [of ?ns msg ?qa limits requests] c by simp
  moreover have "createdObjects (disposePlan ?ns (mb_ModuleId msg) vols :: 'q kube_req list) = []" for vols
    by (induction vols) (auto simp: disposePlan_def map_filter_simps split: if_splits)
  then have "createdObjects ?deleted = []" by simp
  ultimately show ?thesis by blast
qed

definition demo_limits :: "(string, int) gomap" where
  "demo_limits = [(''cpu'', 250), (''memory'', 268435456000), (''nvidia.com/gpu'', 0)]"

definition demo_deployment :: "int Deployment" where
  "demo_deployment = plannedDeployment ''alice-b'' demo_module demo_limits [(''cpu'', 250), (''memory'', 268435456000)]"

theorem dispose_undoes_run_witness:
  "\<exists>r deleted. run_state (DisposeBalticModule
      (demo_proxy (demo_kube (\<lambda>q. False) Map.empty [''m'' \<mapsto> demo_deployment] [])) \<lparr>mo_BatchId = ''b'', mo_ModuleId = ''m''\<rparr>) [] = (r, deleted) \<and>
    set (deletedObjects deleted) =
      {(''persistentvolumeclaim'', ''alice-b'', ''m-0''), (''persistentvolumeclaim'', ''alice-b'', ''m-1''),
       (''configmap'', ''alice-b'', ''m''), (''service'', ''alice-b'', ''m''), (''deployment'', ''alice-b'', ''m'')}"
proof -
  let ?kube = "demo_kube (\<lambda>q. False) Map.empty [''m'' \<mapsto> demo_deployment] []"
  let ?m = "\<lparr>mo_BatchId = ''b'', mo_ModuleId = ''m''\<rparr>"
  let ?created = "modulePlan demo_quantities ''alice-b'' demo_module @ [CreateDeployment ''alice-b'' demo_deployment]"
  have run: "run_state (RunBalticModule (demo_proxy ?kube) demo_module) [] =
      (Ret (\<lparr>cs_Status = PENDING, cs_Message = ''pending''\<rparr>, None), [] @ ?created)"
    using demo_run [of "[''m'' \<mapsto> demo_deployment]"] by (simp add: demo_deployment_def demo_limits_def)
  have ids: "mo_BatchId ?m = mb_BatchId demo_module" "mo_ModuleId ?m = mb_ModuleId demo_module"
    by (simp_all add: demo_module_def)
  have get: "ku_deployment (px_kube (demo_proxy ?kube)) []
      (GetDeployment (getNSNameForBatch (demo_proxy ?kube) (mo_BatchId ?m)) (mo_ModuleId ?m)) = (Some demo_deployment, None)"
    by simp
  have created: "createdObjects ?created =
      [(''persistentvolumeclaim'', ''alice-b'', ''m-0''), (''persistentvolumeclaim'', ''alice-b'', ''m-1''),
       (''configmap'', ''alice-b'', ''m''), (''service'', ''alice-b'', ''m''), (''deployment'', ''alice-b'', ''m'')]"
    by code_simp
  have last: "CreateDeployment ''alice-b'' demo_deployment \<in> set ?created" by simp
  from dispose_undoes_run [OF run ids get last refl] show ?thesis
    unfolding created append_Nil by auto
qed

text \<open>
  C31: Disposing goes on after a failure: for every deployment it reads it attempts all the deletions,
  and the reply is an error with the text of the last call that failed, if any failed, and pending
  otherwise.
\<close>

theorem dispose_attempts_everything:
  assumes "ns = getNSNameForBatch proxy (mo_BatchId m)"
    and "ku_deployment (px_kube proxy) h (GetDeployment ns (mo_ModuleId m)) = (Some d, err)"
    and "plan = disposePlan ns (mo_ModuleId m) (de_Volumes d)" and "h1 = h @ [GetDeployment ns (mo_ModuleId m)]"
    and "errs = err # map (\<lambda>i. ku_done (px_kube proxy) (h1 @ take i plan) (plan ! i)) [0 ..< length plan]"
  shows "run_state (DisposeBalticModule proxy m) h =
    (case filter (\<lambda>e. e \<noteq> None) errs of
       [] \<Rightarrow> Ret (\<lparr>cs_Status = PENDING, cs_Message = ''pending''\<rparr>, None)
     | fs \<Rightarrow> Ret (\<lparr>cs_Status = ERROR, cs_Message = the (last fs)\<rparr>, last fs), h1 @ plan)"
proof -
  have get: "ku_deployment (px_kube proxy) h (GetDeployment (getNSNameForBatch proxy (mo_BatchId m)) (mo_ModuleId m)) = (Some d, err)"
    using assms(1,2) by simp
  show ?thesis
    unfolding run_DisposeBalticModule [OF get] Let_def run_callAll prod.case fold_noteFailure assms(1,3-5)
    by (simp add: respond_def split: list.split)
qed

theorem dispose_attempts_everything_witness:
  "run_state (DisposeBalticModule (demo_proxy (demo_kube (\<lambda>q. q = DeleteService ''alice-b'' ''m'') Map.empty
      [''m'' \<mapsto> demo_deployment\<lparr>de_Volumes := [configVolume ''m'']\<rparr>] [])) \<lparr>mo_BatchId = ''b'', mo_ModuleId = ''m''\<rparr>) [] =
    (Ret (\<lparr>cs_Status = ERROR, cs_Message = ''forbidden''\<rparr>, Some ''forbidden''),
     [GetDeployment ''alice-b'' ''m'', DeleteDeployment ''alice-b'' ''m'', DeleteService ''alice-b'' ''m'', DeleteConfigMap ''alice-b'' ''m''])"
proof -
  let ?proxy = "demo_proxy (demo_kube (\<lambda>q. q = DeleteService ''alice-b'' ''m'') Map.empty
      [''m'' \<mapsto> demo_deployment\<lparr>de_Volumes := [configVolume ''m'']\<rparr>] [])"
  let ?m = "\<lparr>mo_BatchId = ''b'', mo_ModuleId = ''m''\<rparr>"
  have ns: "''alice-b'' = getNSNameForBatch ?proxy (mo_BatchId ?m)" by simp
  have get: "ku_deployment (px_kube ?proxy) [] (GetDeployment ''alice-b'' (mo_ModuleId ?m))
      = (Some (demo_deployment\<lparr>de_Volumes := [configVolume ''m'']\<rparr>), None)" by simp
  show ?thesis
    using dispose_attempts_everything [OF ns get refl refl refl]
    by (simp add: disposePlan_def configVolume_def map_filter_simps getServiceName_def upt_conv_Cons)
qed

text \<open>
  C35: The volumes are found only through the deployment. When it cannot be read (the client returns an
  empty object with the error), the deployment and the service are deleted all the same, but no claim
  and no config map is: what is left of the module can no longer be found by disposing again.
\<close>

theorem dispose_leaks_volumes:
  assumes "ku_deployment (px_kube proxy) h (GetDeployment (getNSNameForBatch proxy (mo_BatchId m)) (mo_ModuleId m)) = (Some d, Some e)"
    and "de_Volumes d = []"
  shows "\<exists>message err deleted. run_state (DisposeBalticModule proxy m) h =
      (Ret (\<lparr>cs_Status = ERROR, cs_Message = message\<rparr>, Some err), h @ deleted) \<and>
    deletedObjects deleted =
      [(''deployment'', px_projectName proxy @ ''-'' @ mo_BatchId m, mo_ModuleId m),
       (''service'', px_projectName proxy @ ''-'' @ mo_BatchId m, mo_ModuleId m)]"
proof -
  let ?ns = "getNSNameForBatch proxy (mo_BatchId m)"
  let ?plan = "[DeleteDeployment ?ns (mo_ModuleId m), DeleteService ?ns (mo_ModuleId m)]"
  obtain e1 e2 where errs: "fst (run_state (callAll (ku_done (px_kube proxy)) ?plan) (h @ [GetDeployment ?ns (mo_ModuleId m)])) = [e1, e2]"
    by (simp add: run_callAll upt_conv_Cons)
  obtain msg r where fold: "fold noteFailure (Some e # [e1, e2]) (PENDING, ''pending'', None) = (ERROR, msg, Some r)"
    by (cases e1; cases e2) (simp_all add: noteFailure_def)
  show ?thesis
    using assms(2) fold errs
    by (simp add: run_DisposeBalticModule [OF assms(1)] disposePlan_def getServiceName_def Let_def respond_def
        map_filter_simps getNSNameForBatch_def split: prod.split)
qed

theorem dispose_leaks_volumes_witness:
  "\<exists>message err deleted. run_state (DisposeBalticModule (demo_proxy (demo_kube (\<lambda>q. q = GetDeployment ''alice-b'' ''m'') Map.empty
      [''m'' \<mapsto> demo_deployment] [])) \<lparr>mo_BatchId = ''b'', mo_ModuleId = ''m''\<rparr>) [] =
      (Ret (\<lparr>cs_Status = ERROR, cs_Message = message\<rparr>, Some err), deleted) \<and>
    deletedObjects deleted = [(''deployment'', ''alice-b'', ''m''), (''service'', ''alice-b'', ''m'')]"
proof -
  let ?proxy = "demo_proxy (demo_kube (\<lambda>q. q = GetDeployment ''alice-b'' ''m'') Map.empty [''m'' \<mapsto> demo_deployment] [])"
  let ?m = "\<lparr>mo_BatchId = ''b'', mo_ModuleId = ''m''\<rparr>"
  obtain d where get: "ku_deployment (px_kube ?proxy) [] (GetDeployment (getNSNameForBatch ?proxy (mo_BatchId ?m)) (mo_ModuleId ?m))
      = (Some d, Some ''forbidden'')" and empty: "de_Volumes d = []"
    by (simp add: demo_kube_def)
  show ?thesis using dispose_leaks_volumes [OF get empty] by simp
qed

text \<open>
  The status of a module is that of the last \<open>Available\<close> condition of its deployment: an error
  when that condition is false, active in every other case (an unknown one included), pending while
  there is none; the call only reads.
\<close>

lemma module_status:
  assumes "ku_deployment (px_kube proxy) h (GetDeployment (getNSNameForBatch proxy (mo_BatchId m)) (mo_ModuleId m)) = (Some d, None)"
  shows "run_state (CheckBalticModuleStatus proxy m) h =
    (case filter (\<lambda>c. co_Type c = ''Available'') (rev (de_Conditions d)) of
       [] \<Rightarrow> Ret (\<lparr>cs_Status = PENDING, cs_Message = ''pending''\<rparr>, None)
     | c # _ \<Rightarrow> Ret (\<lparr>cs_Status = (if co_Status c = ''False'' then ERROR else ACTIVE), cs_Message = co_Message c\<rparr>, None),
     h @ [GetDeployment (getNSNameForBatch proxy (mo_BatchId m)) (mo_ModuleId m)])"
proof -
  have "conditionStatus conds r =
      (case filter (\<lambda>c. co_Type c = ''Available'') (rev conds) of [] \<Rightarrow> r
       | c # _ \<Rightarrow> (if co_Status c = ''False'' then ERROR else ACTIVE, co_Message c))" for conds r
    by (induction conds arbitrary: r) (auto split: list.split)
  then show ?thesis
    using assms by (simp add: CheckBalticModuleStatus_def respond_def split: list.split)
qed

definition demo_failing :: "int Deployment" where
  "demo_failing = demo_deployment\<lparr>de_Conditions :=
     [\<lparr>co_Type = ''Available'', co_Status = ''False'', co_Message = ''no pods''\<rparr>,
      \<lparr>co_Type = ''Progressing'', co_Status = ''True'', co_Message = ''x''\<rparr>]\<rparr>"

lemma module_status_witness:
  "fst (run_state (CheckBalticModuleStatus (demo_proxy (demo_kube (\<lambda>q. False) Map.empty [''m'' \<mapsto> demo_failing] []))
     \<lparr>mo_BatchId = ''b'', mo_ModuleId = ''m''\<rparr>) []) = Ret (\<lparr>cs_Status = ERROR, cs_Message = ''no pods''\<rparr>, None)"
proof -
  let ?proxy = "demo_proxy (demo_kube (\<lambda>q. False) Map.empty [''m'' \<mapsto> demo_failing] [])"
  let ?m = "\<lparr>mo_BatchId = ''b'', mo_ModuleId = ''m''\<rparr>"
  have get: "ku_deployment (px_kube ?proxy) [] (GetDeployment (getNSNameForBatch ?proxy (mo_BatchId ?m)) (mo_ModuleId ?m))
      = (Some demo_failing, None)" by simp
  show ?thesis unfolding module_status [OF get] by (simp add: demo_failing_def)
qed

text \<open>
  The size of a volume, given in Gi, is used as a number of Ki and computed in 32 bits: a claim for
  \<open>n\<close> Gi asks for \<open>1024 * n\<close> bytes, reduced to the signed 32-bit range.
\<close>

lemma claim_size:
  "pv_Storage (volumeClaim qa ns m idx vol) =
     qa_NewQuantity qa (word_of_int (signed_take_bit 31 (1024 * sint (vd_Size vol))))"
proof -
  have "int64_of_int32 (vd_Size vol * 1024) = (word_of_int (sint (vd_Size vol * 1024)) :: int64)"
    by (simp add: int64_of_int32_def)
  also have "sint (vd_Size vol * 1024) = signed_take_bit 31 (1024 * sint (vd_Size vol))"
    by (simp add: sint_word_ariths mult.commute signed_take_bit_mult)
  finally show ?thesis by (simp add: volumeClaim_def)
qed

end
