(* ===== verification/Proxy_Cluster.thy ===== *)
theory Proxy_Cluster
  imports Proxy_Module
begin

text \<open>
  The description of the cluster and the start-up of the cluster proxy
  (\<open>cluster-proxy/server/main.go\<close>): the project's quotas from Rancher and the nodes from the API
  server, converted to the 32-bit fields of the interface; the configuration read from the
  environment; and the calls of the gRPC service together.
\<close>

section \<open>Conversions\<close>

definition cond2status :: "string \<Rightarrow> NodeStatus" where
  "cond2status cond =
     (if cond = ''NetworkUnavailable'' then NETWORK_UNAVAILABLE
      else if cond = ''MemoryPressure'' then MEMORY_PRESSURE
      else if cond = ''DiskPressure'' then DISK_PRESSURE
      else if cond = ''PIDPressure'' then PID_PRESSURE
      else if cond = ''Ready'' then READY
      else READY)"

definition AsInt64 :: "'q quantities \<Rightarrow> (string, 'q) gomap \<Rightarrow> string \<Rightarrow> int64" where
  "AsInt64 qa r k = fst (qa_AsInt64 qa (gm_at (qa_zero qa) r k))"

definition resource2capacity :: "'q quantities \<Rightarrow> (string, 'q) gomap \<Rightarrow> XCapacity" where
  "resource2capacity qa r =
     (let cpus = AsInt64 qa r ''cpu'';
          mem = div_int64 (AsInt64 qa r ''memory'') (1024 * 1024);
          storage = div_int64 (AsInt64 qa r ''ephemeral-storage'') (1024 * 1024);
          gpus = AsInt64 qa r ''nvidia.com/gpu'';
          pods = AsInt64 qa r ''pods''
      in \<lparr>xc_Cpus = int32_of_int64 cpus, xc_EphemeralStorage = int32_of_int64 storage,
          xc_Memory = int32_of_int64 mem, xc_Gpus = int32_of_int64 gpus, xc_Pods = int32_of_int64 pods\<rparr>)"

definition zeroResourceQuota :: XResourceQuota where
  "zeroResourceQuota = \<lparr>xq_CpuRequest = 0, xq_CpuLimit = 0, xq_MemoryRequest = 0, xq_MemoryLimit = 0,
     xq_PersistentVolumeClaims = 0, xq_StorageRequest = 0, xq_GpuRequest = 0\<rparr>"

text \<open>One entry of the quotas: an entry that does not parse leaves the field as it is.\<close>

definition withQuantity :: "'q quantities \<Rightarrow> Quotas \<Rightarrow> string
    \<Rightarrow> (int64 \<Rightarrow> XResourceQuota \<Rightarrow> XResourceQuota) \<Rightarrow> XResourceQuota \<Rightarrow> XResourceQuota" where
  "withQuantity qa rq k set_field quota =
     (case qa_ParseQuantity qa (gm_at '''' rq k) of
        Inl e \<Rightarrow> quota
      | Inr q \<Rightarrow> set_field (qa_Value qa q) quota)"

definition formatQuotas :: "'q quantities \<Rightarrow> Quotas \<Rightarrow> XResourceQuota" where
  "formatQuotas qa rq =
     (let quota = zeroResourceQuota;
          quota = withQuantity qa rq ''requestsCpu''
            (\<lambda>v quota. quota\<lparr>xq_CpuRequest := int32_of_int64 v * 1000\<rparr>) quota;
          quota = withQuantity qa rq ''limitsCpu''
            (\<lambda>v quota. quota\<lparr>xq_CpuLimit := int32_of_int64 v * 1000\<rparr>) quota;
          quota = withQuantity qa rq ''limitsMemory''
            (\<lambda>v quota. quota\<lparr>xq_MemoryLimit := int32_of_int64 (div_int64 v (1024 * 1024))\<rparr>) quota;
          quota = withQuantity qa rq ''requestsMemory''
            (\<lambda>v quota. quota\<lparr>xq_MemoryRequest := int32_of_int64 (div_int64 v (1024 * 1024))\<rparr>) quota;
          quota = withQuantity qa rq ''requestsStorage''
            (\<lambda>v quota. quota\<lparr>xq_StorageRequest := int32_of_int64 (div_int64 v (1024 * 1024 * 1024))\<rparr>) quota;
          quota = withQuantity qa rq ''persistentVolumeClaims''
            (\<lambda>v quota. quota\<lparr>xq_PersistentVolumeClaims := int32_of_int64 v\<rparr>) quota
      in quota)"

section \<open>The description of the cluster\<close>

text \<open>The proxy talks to Rancher and to the API server.\<close>

record 'q pstate =
  ps_http :: "http_req list"
  ps_kube :: "'q kube_req list"

type_synonym ('q, 'a) proxying = "('q pstate, 'a) state"

definition onKube :: "('q, 'a) kubing \<Rightarrow> ('q, 'a) proxying" where
  "onKube m = zoom ps_kube (\<lambda>h s. s\<lparr>ps_kube := h\<rparr>) m"

definition onRancher :: "'a http \<Rightarrow> ('q, 'a) proxying" where
  "onRancher m = zoom ps_http (\<lambda>h s. s\<lparr>ps_http := h\<rparr>) m"

lemma run_proxying [simp, io_simps]:
  "run_state (onKube m) s = (case run_state m (ps_kube s) of (a, h) \<Rightarrow> (a, s\<lparr>ps_kube := h\<rparr>))"
  "run_state (onRancher m') s = (case run_state m' (ps_http s) of (a, h) \<Rightarrow> (a, s\<lparr>ps_http := h\<rparr>))"
  by (simp_all add: onKube_def onRancher_def)

fun nodeStatus :: "Condition list \<Rightarrow> NodeStatus \<Rightarrow> NodeStatus" where
  "nodeStatus [] nstatus = nstatus"
| "nodeStatus (cond # conds) nstatus =
     nodeStatus conds (if co_Status cond = ''True'' then cond2status (co_Type cond) else nstatus)"

definition describeNode :: "'q quantities \<Rightarrow> 'q KubeNode \<Rightarrow> 'q KubeNode \<Rightarrow> XClusterNode" where
  "describeNode qa node n =
     \<lparr>xn_Name = no_Name node,
      xn_Os = gm_at '''' (no_Labels node) ''kubernetes.io/os'',
      xn_OsImage = no_OSImage n,
      xn_Architecture = gm_at '''' (no_Labels node) ''kubernetes.io/arch'',
      xn_KernelVersion = no_KernelVersion n,
      xn_OrchestratorType = ''BalticLSC Platform'',
      xn_OrchestratorVersion = no_KubeletVersion n,
      xn_GpuType = gm_at '''' (no_Labels node) ''accelerator'',
      xn_Capacity = resource2capacity qa (no_Capacity n),
      xn_Allocatable = resource2capacity qa (no_Allocatable n),
      xn_Unschedulable = no_Unschedulable n,
      xn_Status = nodeStatus (no_Conditions n) READY\<rparr>"

fun describeNodes :: "'q kube \<Rightarrow> 'q KubeNode list \<Rightarrow> XClusterNode list
    \<Rightarrow> ('q, XClusterNode list outcome) kubing" where
  "describeNodes kube [] done = State_Monad.return (Ret done)"
| "describeNodes kube (node # nodes) done = do {
     (n, err) \<leftarrow> call (ku_node kube) (GetNode (no_Name node));
     case deref n of
       Panic m \<Rightarrow> State_Monad.return (Panic m)
     | Ret n \<Rightarrow> describeNodes kube nodes (done @ [describeNode (ku_quantities kube) node n])
   }"

definition GetClusterDescription :: "'q ClusterProxyConf \<Rightarrow> ('q, XClusterDescription outcome) proxying" where
  "GetClusterDescription proxy = do {
     let qa = ku_quantities (px_kube proxy);
     let cluster = \<lparr>xd_ClusterId = px_clusterId proxy, xd_ProjectId = px_projectId proxy,
       xd_ProjectName = px_projectName proxy, xd_Nodes = [], xd_Status = ONLINE,
       xd_Limit = None, xd_UsedLimit = None\<rparr>;
     project \<leftarrow> onRancher (cl_GetProjectQuotas (px_rancherClient proxy) (px_clusterId proxy @ '':'' @ px_projectId proxy));
     let cluster = (case project of
         Inl err \<Rightarrow> cluster
       | Inr quotas \<Rightarrow> cluster\<lparr>xd_Limit := Some (formatQuotas qa (pq_Project quotas)),
           xd_UsedLimit := Some (formatQuotas qa (pq_Used quotas))\<rparr>);
     (nodes, err) \<leftarrow> onKube (call (ku_nodes (px_kube proxy)) ListNodes);
     case deref nodes of
       Panic m \<Rightarrow> State_Monad.return (Panic m)
     | Ret items \<Rightarrow> do {
         described \<leftarrow> onKube (describeNodes (px_kube proxy) items []);
         State_Monad.return (case described of
             Panic m \<Rightarrow> Panic m
           | Ret ns \<Rightarrow> Ret (cluster\<lparr>xd_Nodes := ns\<rparr>))
       }
   }"

section \<open>The service\<close>

text \<open>The calls of the gRPC service that concern one batch.\<close>

datatype rpc =
    RpcPrepareWorkspace XWorkspace
  | RpcCheckWorkspaceStatus BatchId
  | RpcPurgeWorkspace BatchId
  | RpcRunBalticModule XBalticModuleBuild
  | RpcCheckBalticModuleStatus Module
  | RpcDisposeBalticModule Module

fun serveRpc :: "'q ClusterProxyConf \<Rightarrow> rpc \<Rightarrow> ('q, rpc_reply) kubing" where
  "serveRpc proxy (RpcPrepareWorkspace msg) = PrepareWorkspace proxy msg"
| "serveRpc proxy (RpcCheckWorkspaceStatus msg) = CheckWorkspaceStatus proxy msg"
| "serveRpc proxy (RpcPurgeWorkspace msg) = PurgeWorkspace proxy msg"
| "serveRpc proxy (RpcRunBalticModule msg) = RunBalticModule proxy msg"
| "serveRpc proxy (RpcCheckBalticModuleStatus msg) = CheckBalticModuleStatus proxy msg"
| "serveRpc proxy (RpcDisposeBalticModule msg) = DisposeBalticModule proxy msg"

fun rpcBatch :: "rpc \<Rightarrow> string" where
  "rpcBatch (RpcPrepareWorkspace msg) = xw_BatchId msg"
| "rpcBatch (RpcCheckWorkspaceStatus msg) = bi_Id msg"
| "rpcBatch (RpcPurgeWorkspace msg) = bi_Id msg"
| "rpcBatch (RpcRunBalticModule msg) = mb_BatchId msg"
| "rpcBatch (RpcCheckBalticModuleStatus msg) = mo_BatchId msg"
| "rpcBatch (RpcDisposeBalticModule msg) = mo_BatchId msg"

text \<open>What the client gets: gRPC sends the reply only when the handler's error is nil.\<close>

definition wireReply :: "rpc_reply \<Rightarrow> (go_error + ClusterStatusResponse) outcome" where
  "wireReply r =
     (case r of
        Panic m \<Rightarrow> Panic m
      | Ret (resp, None) \<Rightarrow> Ret (Inr resp)
      | Ret (resp, Some e) \<Rightarrow> Ret (Inl e))"

section \<open>Start-up\<close>

text \<open>
  The parts of \<open>main\<close> outside the source: the \<open>-kubeconfig\<close> flag of the command line, the errors of
  building the configuration and the clients and of opening the port, and the API server reached.
\<close>

record 'q boot =
  bo_flag :: "string option"
  bo_BuildConfig :: "string \<Rightarrow> go_error option"
  bo_NewClients :: "bool \<Rightarrow> go_error option"
  bo_Listen :: "string \<Rightarrow> go_error option"
  bo_kube :: "bool \<Rightarrow> 'q kube"

text \<open>The port and the configuration the service runs with, or the text of \<open>log.Fatalf\<close>.\<close>

type_synonym 'q started = "go_error + string \<times> 'q ClusterProxyConf"

definition envMissing :: "(string \<Rightarrow> string) \<Rightarrow> string option" where
  "envMissing Getenv =
     (if Getenv ''RANCHER_CLUSTER_ID'' = '''' then Some ''env RANCHER_CLUSTER_ID not set!''
      else if Getenv ''RANCHER_PROJECT_ID'' = '''' then Some ''env RANCHER_PROJECT_ID not set!''
      else if Getenv ''RANCHER_URL'' = '''' then Some ''env RANCHER_URL not set!''
      else if Getenv ''RANCHER_TOKEN'' = '''' then Some ''env RANCHER_TOKEN not set!''
      else None)"

definition listenPort :: "(string \<Rightarrow> string) \<Rightarrow> string" where
  "listenPort Getenv =
     (let port = '':'' @ Getenv ''LISTEN_PORT'' in if port = '':'' then '':50051'' else port)"

definition kubeconfigPath :: "(string \<Rightarrow> string) \<Rightarrow> string option \<Rightarrow> string" where
  "kubeconfigPath Getenv flag =
     (case flag of
        Some path \<Rightarrow> path
      | None \<Rightarrow> if Getenv ''KUBECONFIG'' = '''' then ''/config'' else Getenv ''KUBECONFIG'')"

definition proxy_main :: "'r rancher_env \<Rightarrow> 'q boot \<Rightarrow> (string \<Rightarrow> string) \<Rightarrow> ('q started outcome) http" where
  "proxy_main env boot Getenv =
     (case envMissing Getenv of
        Some m \<Rightarrow> State_Monad.return (Panic m)
      | None \<Rightarrow>
          (case bo_BuildConfig boot (kubeconfigPath Getenv (bo_flag boot)) of
             Some e \<Rightarrow> State_Monad.return (Panic e)
           | None \<Rightarrow>
               (let insecure = (Getenv ''TLS_INSECURE'' = ''true'')
                in case bo_NewClients boot insecure of
                     Some e \<Rightarrow> State_Monad.return (Panic e)
                   | None \<Rightarrow> do {
                       let proxy = \<lparr>px_kube = bo_kube boot insecure,
                         px_rancherClient = NewClient env (Getenv ''RANCHER_URL'') (Getenv ''RANCHER_TOKEN''),
                         px_debug = (Getenv ''DEBUG'' \<noteq> ''''),
                         px_clusterId = Getenv ''RANCHER_CLUSTER_ID'',
                         px_projectId = Getenv ''RANCHER_PROJECT_ID'', px_projectName = ''''\<rparr>;
                       project \<leftarrow> cl_GetProjectDetail (px_rancherClient proxy) (getProjectID proxy);
                       State_Monad.return
                         (case project of
                            Inl e \<Rightarrow> Panic e
                          | Inr p \<Rightarrow>
                              (case bo_Listen boot (listenPort Getenv) of
                                 Some e \<Rightarrow> Ret (Inl (''failed to listen: '' @ e))
                               | None \<Rightarrow> Ret (Inr (listenPort Getenv, proxy\<lparr>px_projectName := p_Name p\<rparr>))))
                     })))"

section \<open>Batches do not interfere\<close>

text \<open>
  Running calls one after the other, and the contract of a service whose calls each belong to a
  tenant: a call makes requests of its own tenant only, and what it does depends on the history only
  through its own tenant's requests. The second law needs a backend that keeps tenants apart, which
  is stated as the locale's parameter \<open>apart\<close>.
\<close>

fun session :: "('c \<Rightarrow> ('s, 'a) state) \<Rightarrow> 'c list \<Rightarrow> ('s, 'a list) state" where
  "session step [] = State_Monad.return []"
| "session step (c # cs) = do {
     r \<leftarrow> step c;
     rs \<leftarrow> session step cs;
     State_Monad.return (r # rs)
   }"

definition confinedTo :: "('q \<Rightarrow> bool) \<Rightarrow> ('q list, 'a) state \<Rightarrow> bool" where
  "confinedTo P m \<longleftrightarrow> (\<forall>h h'. filter P h = filter P h' \<longrightarrow>
     fst (run_state m h) = fst (run_state m h') \<and>
     (\<exists>t. snd (run_state m h) = h @ t \<and> snd (run_state m h') = h' @ t \<and> list_all P t))"

lemma confinedTo_return [simp, intro]: "confinedTo P (State_Monad.return x)"
  by (simp add: confinedTo_def)

lemma confinedTo_call:
  assumes "P q" and "\<And>h h'. filter P h = filter P h' \<Longrightarrow> svc h q = svc h' q"
  shows "confinedTo P (call svc q)"
  unfolding confinedTo_def
proof (intro allI impI conjI)
  fix h h'
  assume "filter P h = filter P h'"
  then have "svc h q = svc h' q" by (rule assms(2))
  then show "fst (run_state (call svc q) h) = fst (run_state (call svc q) h')"
    by simp
  show "\<exists>t. snd (run_state (call svc q) h) = h @ t \<and> snd (run_state (call svc q) h') = h' @ t \<and> list_all P t"
    using assms(1) by (intro exI [of _ "[q]"]) simp
qed

lemma confinedTo_bind [intro]:
  assumes m: "confinedTo P m" and f: "\<And>x. confinedTo P (f x)"
  shows "confinedTo P (State_Monad.bind m f)"
  unfolding confinedTo_def
proof (intro allI impI)
  fix h h'
  assume eq: "filter P h = filter P h'"
  obtain a g where run: "run_state m h = (a, g)" by (metis prod.exhaust)
  obtain a' g' where run': "run_state m h' = (a', g')" by (metis prod.exhaust)
  from m eq run run' obtain t where t: "a = a'" "g = h @ t" "g' = h' @ t" "list_all P t"
    unfolding confinedTo_def by fastforce
  with eq have "filter P g = filter P g'" by simp
  with f [of a] obtain u where u: "fst (run_state (f a) g) = fst (run_state (f a) g')"
      "snd (run_state (f a) g) = g @ u" "snd (run_state (f a) g') = g' @ u" "list_all P u"
    unfolding confinedTo_def by blast
  with run run' t show "fst (run_state (State_Monad.bind m f) h) = fst (run_state (State_Monad.bind m f) h') \<and>
      (\<exists>t. snd (run_state (State_Monad.bind m f) h) = h @ t \<and> snd (run_state (State_Monad.bind m f) h') = h' @ t \<and> list_all P t)"
    by (intro conjI exI [of _ "t @ u"]) simp_all
qed

locale tenants =
  fixes step :: "'c \<Rightarrow> ('q list, 'a) state"
    and tenant :: "'c \<Rightarrow> string"
    and owned :: "string \<Rightarrow> 'q \<Rightarrow> bool"
  assumes step_confined: "extends (owned (tenant c)) (step c)"
    and owner_unique: "owned t q \<Longrightarrow> owned u q \<Longrightarrow> t = u"
begin

lemma step_filter:
  assumes "t \<noteq> tenant c"
  shows "filter (owned t) (snd (run_state (step c) h)) = filter (owned t) h"
proof -
  obtain u where u: "snd (run_state (step c) h) = h @ u" "list_all (owned (tenant c)) u"
    using step_confined by (rule extendsE)
  with assms owner_unique show ?thesis by (auto simp: list_all_iff filter_empty_conv)
qed

text \<open>A tenant none of the calls is for is not touched.\<close>

lemma session_untouched:
  "t \<notin> tenant ` set cs \<Longrightarrow> filter (owned t) (snd (run_state (session step cs) h)) = filter (owned t) h"
proof (induction cs arbitrary: h)
  case Nil
  then show ?case by simp
next
  case (Cons c cs)
  then show ?case using step_filter [of t c h] by (auto split: prod.splits) (metis snd_conv)
qed

end

locale separated_tenants = tenants +
  fixes apart :: bool
  assumes step_separated: "apart \<Longrightarrow> confinedTo (owned (tenant c)) (step c)"
begin

text \<open>Leaving out the other tenants' calls changes nothing for a tenant: neither its replies nor its requests.\<close>

lemma session_separated:
  assumes "apart" and "filter (owned t) h = filter (owned t) h'"
  shows "map snd (filter (\<lambda>(c, r). tenant c = t) (zip cs (fst (run_state (session step cs) h))))
      = fst (run_state (session step (filter (\<lambda>c. tenant c = t) cs)) h') \<and>
    filter (owned t) (snd (run_state (session step cs) h))
      = filter (owned t) (snd (run_state (session step (filter (\<lambda>c. tenant c = t) cs)) h'))"
  using assms(2)
proof (induction cs arbitrary: h h')
  case Nil
  then show ?case by simp
next
  case (Cons c cs)
  obtain r g where run: "run_state (step c) h = (r, g)" by (metis prod.exhaust)
  obtain rs k where rest_run: "run_state (session step cs) g = (rs, k)" by (metis prod.exhaust)
  show ?case
  proof (cases "tenant c = t")
    case True
    obtain r' g' where run': "run_state (step c) h' = (r', g')" by (metis prod.exhaust)
    from step_separated [OF assms(1), of c] Cons.prems run run' True obtain u where
      u: "r = r'" "g = h @ u" "g' = h' @ u" unfolding confinedTo_def by fastforce
    with Cons.prems have "filter (owned t) g = filter (owned t) g'" by simp
    from Cons.IH [OF this] run run' rest_run u True show ?thesis by (auto split: prod.split)
  next
    case False
    have "filter (owned t) g = filter (owned t) h'"
      using step_filter [of t c h] False run Cons.prems by simp
    from Cons.IH [OF this] run rest_run False show ?thesis by auto
  qed
qed

end

text \<open>An API server that keeps namespaces apart: it answers a request from the requests in its namespace.\<close>

definition separated :: "'q kube \<Rightarrow> bool" where
  "separated kube \<longleftrightarrow> (\<forall>ns q h h'. inNamespace ns q \<and> filter (inNamespace ns) h = filter (inNamespace ns) h' \<longrightarrow>
     ku_namespace kube h q = ku_namespace kube h' q \<and> ku_deployment kube h q = ku_deployment kube h' q \<and>
     ku_done kube h q = ku_done kube h' q)"

lemma separated_calls:
  assumes "separated kube" and "inNamespace ns q"
  shows "confinedTo (inNamespace ns) (call (ku_namespace kube) q)"
    and "confinedTo (inNamespace ns) (call (ku_deployment kube) q)"
    and "confinedTo (inNamespace ns) (call (ku_done kube) q)"
  using assms by (auto simp: separated_def intro!: confinedTo_call)

lemma confined_tryAll:
  "separated kube \<Longrightarrow> list_all (inNamespace ns) qs \<Longrightarrow> confinedTo (inNamespace ns) (tryAll (ku_done kube) qs)"
  by (induction qs) (auto intro!: confinedTo_bind separated_calls split: option.split)

lemma confined_disposeVolumes:
  assumes "separated kube"
  shows "confinedTo (inNamespace ns) (disposeVolumes kube ns vols vars)"
proof (induction vols arbitrary: vars)
  case Nil
  then show ?case by simp
next
  case (Cons vol vols)
  have deletes: "inNamespace ns (DeletePVC ns n)" "inNamespace ns (DeleteConfigMap ns n)" for n
    by (simp_all add: inNamespace_def)
  show ?case
    by (auto intro!: confinedTo_bind separated_calls [OF assms] deletes Cons.IH)
qed

lemma serveRpc_confined: "extends (inNamespace (getNSNameForBatch proxy (rpcBatch c))) (serveRpc proxy c)"
  by (cases c) auto

lemma serveRpc_separated:
  assumes sep: "separated (px_kube proxy)"
  shows "confinedTo (inNamespace (getNSNameForBatch proxy (rpcBatch c))) (serveRpc proxy c)"
proof -
  let ?ns = "\<lambda>b. getNSNameForBatch proxy b"
  have own: "inNamespace n (GetNamespace n)" "inNamespace n (DeleteNamespace n)" "inNamespace n (GetDeployment n m)"
    "inNamespace n (DeleteDeployment n m)" "inNamespace n (DeleteService n m)" for n m :: string
    by (simp_all add: inNamespace_def)
  have create: "inNamespace (?ns (xw_BatchId w)) (CreateNamespace (workspaceNamespace proxy w))" for w
    by (simp add: inNamespace_def workspaceNamespace_def Let_def)
  have deploy: "inNamespace n (CreateDeployment n (plannedDeployment n msg l r))" for n msg l r
    by (simp add: inNamespace_def plannedDeployment_def moduleDeployment_def)
  note calls = separated_calls [OF sep] confined_disposeVolumes [OF sep] confined_tryAll [OF sep] modulePlan_confined own create deploy
  show ?thesis
  proof (cases c)
    case (RpcRunBalticModule msg)
    then show ?thesis
      by (auto simp: RunBalticModule_runPlan runPlan_def Let_def intro!: confinedTo_bind calls
          split: option.split outcome.split prod.split)
  qed (auto simp: PrepareWorkspace_def CheckWorkspaceStatus_def PurgeWorkspace_def CheckBalticModuleStatus_def
      DisposeBalticModule_def Let_def intro!: confinedTo_bind calls split: prod.split outcome.split)
qed

interpretation px: separated_tenants "serveRpc proxy" "\<lambda>c. getNSNameForBatch proxy (rpcBatch c)" inNamespace
    "separated (px_kube proxy)" for proxy :: "'q ClusterProxyConf"
  by unfold_locales (auto simp: inNamespace_def serveRpc_confined serveRpc_separated)

lemma getNSNameForBatch_inj: "getNSNameForBatch proxy a = getNSNameForBatch proxy b \<longleftrightarrow> a = b"
  by (simp add: getNSNameForBatch_def)

section \<open>Properties of the service\<close>

text \<open>
  C9: Batches do not interfere. Whatever the API server does, calls for other batches make no request
  in a batch's namespace; and when the server keeps namespaces apart, the replies to the calls for a
  batch and the requests they make are the same as if the calls for all other batches were left out.
\<close>

theorem batches_do_not_interfere:
  assumes "separated (px_kube proxy)"
  shows "map snd (filter (\<lambda>(c, r). rpcBatch c = b) (zip cs (fst (run_state (session (serveRpc proxy) cs) h))))
      = fst (run_state (session (serveRpc proxy) (filter (\<lambda>c. rpcBatch c = b) cs)) h) \<and>
    filter (inNamespace (getNSNameForBatch proxy b)) (snd (run_state (session (serveRpc proxy) cs) h))
      = filter (inNamespace (getNSNameForBatch proxy b))
          (snd (run_state (session (serveRpc proxy) (filter (\<lambda>c. rpcBatch c = b) cs)) h))"
  using px.session_separated [OF assms refl, of "getNSNameForBatch proxy b" cs h]
  by (simp only: getNSNameForBatch_inj)

theorem batches_do_not_interfere_witness:
  "map snd (filter (\<lambda>(c, r). rpcBatch c = ''b'')
      (zip [RpcPurgeWorkspace \<lparr>bi_Id = ''a''\<rparr>, RpcPurgeWorkspace \<lparr>bi_Id = ''b''\<rparr>]
        (fst (run_state (session (serveRpc (demo_proxy (demo_kube (\<lambda>q. False) Map.empty Map.empty [])))
          [RpcPurgeWorkspace \<lparr>bi_Id = ''a''\<rparr>, RpcPurgeWorkspace \<lparr>bi_Id = ''b''\<rparr>]) []))))
    = fst (run_state (session (serveRpc (demo_proxy (demo_kube (\<lambda>q. False) Map.empty Map.empty [])))
        [RpcPurgeWorkspace \<lparr>bi_Id = ''b''\<rparr>]) [])"
proof -
  have "separated (px_kube (demo_proxy (demo_kube (\<lambda>q. False) Map.empty Map.empty [])))"
    by (simp add: separated_def demo_kube_def)
  from batches_do_not_interfere [OF this, of "''b''" "[RpcPurgeWorkspace \<lparr>bi_Id = ''a''\<rparr>, RpcPurgeWorkspace \<lparr>bi_Id = ''b''\<rparr>]" "[]"]
  show ?thesis by simp
qed

text \<open>
  Every request a session of calls makes to the API server is in the namespace of one of its
  batches, whatever the server answers.
\<close>

lemma session_confined:
  "\<exists>t. snd (run_state (session (serveRpc proxy) cs) h) = h @ t \<and>
     list_all (\<lambda>q. \<exists>c \<in> set cs. reqNamespace q = Some (px_projectName proxy @ ''-'' @ rpcBatch c)) t"
proof (induction cs arbitrary: h)
  case Nil
  then show ?case by simp
next
  case (Cons c cs)
  obtain t where t: "snd (run_state (serveRpc proxy c) h) = h @ t"
      "list_all (inNamespace (getNSNameForBatch proxy (rpcBatch c))) t"
    using serveRpc_confined by (rule extendsE)
  obtain u where u: "snd (run_state (session (serveRpc proxy) cs) (h @ t)) = (h @ t) @ u"
      "list_all (\<lambda>q. \<exists>c \<in> set cs. reqNamespace q = Some (px_projectName proxy @ ''-'' @ rpcBatch c)) u"
    using Cons.IH by blast
  obtain r where run: "run_state (serveRpc proxy c) h = (r, h @ t)" using t(1) by (metis prod.collapse)
  show ?case
    using t(2) u run
    by (intro exI [of _ "t @ u"])
      (auto simp: inNamespace_def getNSNameForBatch_def list_all_iff split: prod.split)
qed

text \<open>A check of the quota that Rancher recorded as refused, the first one of an active namespace.\<close>

definition refusedCheck :: "(string, string) gomap \<Rightarrow> bool" where
  "refusedCheck c \<longleftrightarrow> gm_at '''' c ''Type'' = ''ResourceQuotaValidated'' \<and> gm_at '''' c ''Status'' = ''False''"

definition workspaceRefused :: "'q kube \<Rightarrow> 'q kube_req list \<Rightarrow> string \<Rightarrow> string \<Rightarrow> bool" where
  "workspaceRefused kube h ns m =
     (case ku_namespace kube h (GetNamespace ns) of
        (Some n, None) \<Rightarrow> kn_Phase n = ''Active'' \<and>
          (case map_of (kn_Annotations n) ''cattle.io/status'' of
             None \<Rightarrow> False
           | Some st \<Rightarrow>
               (case map_of (parseStatus st) ''Conditions'' of
                  None \<Rightarrow> False
                | Some conds \<Rightarrow>
                    (case filter refusedCheck conds of [] \<Rightarrow> False | c # _ \<Rightarrow> m = gm_at '''' c ''Message'')))
      | _ \<Rightarrow> False)"

text \<open>The last condition \<open>Available\<close> of a deployment is false.\<close>

definition moduleUnavailable :: "'q kube \<Rightarrow> 'q kube_req list \<Rightarrow> string \<Rightarrow> string \<Rightarrow> string \<Rightarrow> bool" where
  "moduleUnavailable kube h ns name m =
     (case ku_deployment kube h (GetDeployment ns name) of
        (Some d, None) \<Rightarrow>
          (case rev (filter (\<lambda>c. co_Type c = ''Available'') (de_Conditions d)) of
             [] \<Rightarrow> False | c # _ \<Rightarrow> co_Status c = ''False'' \<and> m = co_Message c)
      | _ \<Rightarrow> False)"

lemma quotaCondition_refused:
  "quotaCondition conds = (case filter refusedCheck conds of [] \<Rightarrow> None | c # _ \<Rightarrow> Some (gm_at '''' c ''Message''))"
  by (induction conds) (auto simp: refusedCheck_def)

lemma conditionStatus_last:
  "conditionStatus conds r =
     (case rev (filter (\<lambda>c. co_Type c = ''Available'') conds) of
        [] \<Rightarrow> r | c # _ \<Rightarrow> (if co_Status c = ''False'' then ERROR else ACTIVE, co_Message c))"
  by (induction conds arbitrary: r) (auto split: list.split)

text \<open>A disposal that reports no error reports \<open>PENDING\<close>.\<close>

lemma failures_status:
  assumes "wireReply (respond s message e) = Ret (Inr resp)"
    and "fold noteFailure errs (PENDING, ''pending'', None) = (s, message, e)"
  shows "cs_Status resp = PENDING"
proof (cases "filter (\<lambda>e. e \<noteq> None) errs")
  case Nil
  with assms show ?thesis by (auto simp: fold_noteFailure wireReply_def respond_def)
next
  case (Cons f fs)
  then have "last (f # fs) \<in> set (filter (\<lambda>e. e \<noteq> None) errs)" by (metis last_in_set list.distinct(1))
  then have "last (f # fs) \<noteq> None" by auto
  with Cons assms show ?thesis by (auto simp: fold_noteFailure wireReply_def respond_def)
qed

lemma dispose_no_error_status:
  assumes "wireReply (fst (run_state (DisposeBalticModule proxy m) h)) = Ret (Inr resp)"
  shows "cs_Status resp = PENDING"
proof -
  let ?kube = "px_kube proxy" and ?ns = "getNSNameForBatch proxy (mo_BatchId m)"
  obtain d err where get: "ku_deployment ?kube h (GetDeployment ?ns (mo_ModuleId m)) = (d, err)" by (metis prod.exhaust)
  show ?thesis
  proof (cases d)
    case None
    with assms get show ?thesis
      by (simp add: DisposeBalticModule_def Let_def wireReply_def split: prod.splits)
  next
    case (Some dep)
    have get': "ku_deployment ?kube h (GetDeployment ?ns (mo_ModuleId m)) = (Some dep, err)" using get Some by simp
    note status = failures_status [of _ _ _ _ "err # errs" for errs, unfolded fold_simps]
    show ?thesis
      using assms by (auto simp: run_DisposeBalticModule [OF get'] Let_def split: prod.splits intro: status)
  qed
qed

lemma run_no_error_status:
  "wireReply (fst (run_state (RunBalticModule proxy msg) h)) = Ret (Inr resp) \<Longrightarrow> cs_Status resp = PENDING"
  by (auto simp: RunBalticModule_runPlan runPlan_def Let_def wireReply_def respond_def
      split: prod.splits option.splits outcome.splits)



section \<open>Properties of the description\<close>

text \<open>
  A node's status is that of its last condition that is true. Kubernetes lists the \<open>Ready\<close>
  condition after the pressure conditions, so a node that is ready and short of memory, disk or
  process identifiers is reported as ready, and so is one with no true condition at all.
\<close>

lemma node_status:
  "nodeStatus conds READY =
     (case filter (\<lambda>c. co_Status c = ''True'') (rev conds) of [] \<Rightarrow> READY | c # _ \<Rightarrow> cond2status (co_Type c)) \<and>
   nodeStatus (conds @ [\<lparr>co_Type = ''Ready'', co_Status = ''True'', co_Message = m\<rparr>]) READY = READY"
proof -
  have spec: "nodeStatus cs s =
      (case filter (\<lambda>c. co_Status c = ''True'') (rev cs) of [] \<Rightarrow> s | c # _ \<Rightarrow> cond2status (co_Type c))" for cs s
    by (induction cs arbitrary: s) (auto split: list.split)
  show ?thesis by (simp add: spec cond2status_def)
qed

text \<open>
  The sizes in a node's description are in Mi (the interface says Ki), rounded towards zero, and
  exact up to the 32-bit range: below 2 Pi nothing wraps around.
\<close>

lemma capacity_units:
  assumes "sint (AsInt64 qa r ''memory'') = bytes" and "0 \<le> bytes" and "bytes < 2 ^ 51"
  shows "sint (xc_Memory (resource2capacity qa r)) = bytes div (1024 * 1024)"
proof -
  have sdiv: "bytes sdiv (1024 * 1024) = bytes div (1024 * 1024)"
    using assms(2) by (cases "bytes = 0") (simp_all add: signed_divide_int_def)
  have range: "0 \<le> bytes div (1024 * 1024)" "bytes div (1024 * 1024) < 2 ^ 31"
    using assms(2,3) by (auto simp: div_less_iff_less_mult)
  have "sint (ucast (word_of_int (bytes div (1024 * 1024)) :: int64) :: int32) = bytes div (1024 * 1024)"
    using range by (simp add: unsigned_of_int signed_of_int sint_sbintrunc' take_bit_int_eq_self signed_take_bit_int_eq_self)
  then show ?thesis
    using sdiv assms(1) by (simp add: resource2capacity_def Let_def int32_of_int64_def div_int64_def)
qed

text \<open>
  What \<open>Quantity.Value\<close> documents: a quantity of so many thousandths is rounded up to a whole number.
\<close>

definition roundsUp :: "'q quantities \<Rightarrow> ('q \<Rightarrow> int) \<Rightarrow> bool" where
  "roundsUp qa thousandths \<longleftrightarrow>
     (\<forall>q. 0 \<le> thousandths q \<and> thousandths q < 1000 * (2 ^ 63 - 1) \<longrightarrow>
       sint (qa_Value qa q) = (thousandths q + 999) div 1000)"

text \<open>The thousandths of a quota; one that does not parse counts as none.\<close>

definition quotaThousandths :: "'q quantities \<Rightarrow> ('q \<Rightarrow> int) \<Rightarrow> Quotas \<Rightarrow> string \<Rightarrow> int" where
  "quotaThousandths qa thousandths rq k =
     (case qa_ParseQuantity qa (gm_at '''' rq k) of Inl e \<Rightarrow> 0 | Inr q \<Rightarrow> thousandths q)"

definition wholeQuota :: "'q quantities \<Rightarrow> ('q \<Rightarrow> int) \<Rightarrow> Quotas \<Rightarrow> string \<Rightarrow> int" where
  "wholeQuota qa thousandths rq k = (quotaThousandths qa thousandths rq k + 999) div 1000"

text \<open>The value that the fields are made of, and the arithmetic on it.\<close>

definition quotaValue :: "'q quantities \<Rightarrow> Quotas \<Rightarrow> string \<Rightarrow> int64" where
  "quotaValue qa rq k = (case qa_ParseQuantity qa (gm_at '''' rq k) of Inl e \<Rightarrow> 0 | Inr q \<Rightarrow> qa_Value qa q)"

lemma int32_zero [simp]: "int32_of_int64 0 = 0"
  by (simp add: int32_of_int64_def)

lemma div_zero [simp]: "div_int64 0 k = 0"
  by (simp add: div_int64_def signed_divide_int_def)

lemma formatQuotas_fields:
  "formatQuotas qa rq =
     \<lparr>xq_CpuRequest = int32_of_int64 (quotaValue qa rq ''requestsCpu'') * 1000,
      xq_CpuLimit = int32_of_int64 (quotaValue qa rq ''limitsCpu'') * 1000,
      xq_MemoryRequest = int32_of_int64 (div_int64 (quotaValue qa rq ''requestsMemory'') (1024 * 1024)),
      xq_MemoryLimit = int32_of_int64 (div_int64 (quotaValue qa rq ''limitsMemory'') (1024 * 1024)),
      xq_PersistentVolumeClaims = int32_of_int64 (quotaValue qa rq ''persistentVolumeClaims''),
      xq_StorageRequest = int32_of_int64 (div_int64 (quotaValue qa rq ''requestsStorage'') (1024 * 1024 * 1024)),
      xq_GpuRequest = 0\<rparr>"
proof -
  have field: "withQuantity qa rq k f quota = f (quotaValue qa rq k) quota" if "f 0 quota = quota" for k f quota
    using that by (simp add: withQuantity_def quotaValue_def split: sum.split)
  show ?thesis unfolding formatQuotas_def Let_def by (simp add: field zeroResourceQuota_def)
qed

lemma quotaValue_whole:
  assumes "roundsUp qa thousandths" and "0 \<le> quotaThousandths qa thousandths rq k"
    and "wholeQuota qa thousandths rq k < 2 ^ 62"
  shows "sint (quotaValue qa rq k) = wholeQuota qa thousandths rq k" and "0 \<le> wholeQuota qa thousandths rq k"
proof -
  have "quotaThousandths qa thousandths rq k < 1000 * (2 ^ 63 - 1)"
    using assms(3) by (simp add: wholeQuota_def)
  with assms(1,2) show "sint (quotaValue qa rq k) = wholeQuota qa thousandths rq k"
    by (auto simp: roundsUp_def quotaValue_def wholeQuota_def quotaThousandths_def split: sum.splits)
  show "0 \<le> wholeQuota qa thousandths rq k"
    using assms(2) by (simp add: wholeQuota_def)
qed

lemma narrow_units:
  assumes "sint (v :: int64) = n" and "0 \<le> n" and "0 < k"
  shows "n < 2147483 \<Longrightarrow> sint (int32_of_int64 v * 1000) = 1000 * n"
    and "n < 2 ^ 31 \<Longrightarrow> sint (int32_of_int64 v) = n"
    and "n div k < 2 ^ 31 \<Longrightarrow> sint (int32_of_int64 (div_int64 v k)) = n div k"
    and "n div k < 2 ^ 32 \<Longrightarrow> uint (int32_of_int64 (div_int64 v k)) = n div k"
proof -
  have v: "v = word_of_int n" using assms(1) by (metis scast_eq scast_id)
  have d: "div_int64 v k = word_of_int (n div k)"
    using assms by (cases "n = 0") (simp_all add: div_int64_def signed_divide_int_def)
  have nk: "0 \<le> n div k" using assms(2,3) by (simp add: pos_imp_zdiv_nonneg_iff)
  have narrow: "int32_of_int64 (word_of_int m) = (word_of_int m :: int32)" for m
    by (simp add: int32_of_int64_def unsigned_of_int word_of_int_eq_iff take_bit_take_bit)
  have signed: "sint (word_of_int m :: int32) = m" if "0 \<le> m" "m < 2 ^ 31" for m
    using that by (simp add: sint_sbintrunc' signed_take_bit_int_eq_self)
  show "sint (int32_of_int64 v * 1000) = 1000 * n" if "n < 2147483"
  proof -
    have "int32_of_int64 v * 1000 = (word_of_int (1000 * n) :: int32)" by (simp add: v narrow)
    then show ?thesis using signed [of "1000 * n"] that assms(2) by simp
  qed
  show "sint (int32_of_int64 v) = n" if "n < 2 ^ 31" using signed [of n] that assms(2) by (simp add: v narrow)
  show "sint (int32_of_int64 (div_int64 v k)) = n div k" if "n div k < 2 ^ 31"
    using signed [OF nk that] by (simp add: d narrow)
  show "uint (int32_of_int64 (div_int64 v k)) = n div k" if "n div k < 2 ^ 32"
    using nk that by (simp add: d narrow uint_word_of_int)
qed


lemma capacity_units_witness:
  "sint (xc_Memory (resource2capacity demo_quantities [(''memory'', 8589934592000)])) = 8192"
  using capacity_units [of demo_quantities "[(''memory'', 8589934592000)]" "8 * 1024 ^ 3"]
  by (simp add: AsInt64_def demo_quantities_def gm_at_def)


lemma run_describeNodes:
  assumes "\<And>h n. fst (ku_node kube h (GetNode n)) \<noteq> None"
  shows "\<exists>ns. run_state (describeNodes kube nodes acc) h =
      (Ret (acc @ ns), h @ map (\<lambda>n. GetNode (no_Name n)) nodes) \<and> map xn_Name ns = map no_Name nodes"
proof (induction nodes arbitrary: acc h)
  case Nil
  then show ?case by simp
next
  case (Cons node nodes)
  obtain n err where n: "ku_node kube h (GetNode (no_Name node)) = (Some n, err)"
    using assms [of h "no_Name node"] by (metis fst_conv not_Some_eq prod.exhaust)
  let ?d = "describeNode (ku_quantities kube) node n"
  obtain ns where ns: "run_state (describeNodes kube nodes (acc @ [?d])) (h @ [GetNode (no_Name node)]) =
      (Ret ((acc @ [?d]) @ ns), (h @ [GetNode (no_Name node)]) @ map (\<lambda>n. GetNode (no_Name n)) nodes)"
    "map xn_Name ns = map no_Name nodes"
    using Cons.IH by blast
  with n show ?case by (intro exI [of _ "?d # ns"]) (simp add: describeNode_def)
qed

text \<open>
  C40: The description is made of what is available: when Rancher does not give the quotas, or a node
  cannot be read (the client then returns an empty object), the reply still lists every node once, in
  the order of the list, and only the quotas are missing.
\<close>

theorem cluster_described:
  assumes "\<And>h. fst (ku_nodes (px_kube proxy) h ListNodes) = Some items"
    and "\<And>h n. fst (ku_node (px_kube proxy) h (GetNode n)) \<noteq> None"
  shows "\<exists>d s'. run_state (GetClusterDescription proxy) s = (Ret d, s') \<and>
     map xn_Name (xd_Nodes d) = map no_Name items \<and>
     ps_kube s' = ps_kube s @ ListNodes # map (\<lambda>n. GetNode (no_Name n)) items \<and>
     (xd_Limit d = None \<longleftrightarrow> isl (fst (run_state
        (cl_GetProjectQuotas (px_rancherClient proxy) (px_clusterId proxy @ '':'' @ px_projectId proxy)) (ps_http s))))"
proof -
  obtain q h1 where quotas: "run_state (cl_GetProjectQuotas (px_rancherClient proxy)
      (px_clusterId proxy @ '':'' @ px_projectId proxy)) (ps_http s) = (q, h1)" by (metis prod.exhaust)
  obtain err where nodes: "ku_nodes (px_kube proxy) (ps_kube s) ListNodes = (Some items, err)"
    using assms(1) by (metis prod.collapse)
  obtain ns where ns: "run_state (describeNodes (px_kube proxy) items []) (ps_kube s @ [ListNodes]) =
      (Ret ns, (ps_kube s @ [ListNodes]) @ map (\<lambda>n. GetNode (no_Name n)) items)" "map xn_Name ns = map no_Name items"
    using run_describeNodes [OF assms(2), where nodes = items and acc = "[]" and h = "ps_kube s @ [ListNodes]"] by auto
  show ?thesis
    using ns by (cases q) (simp_all add: GetClusterDescription_def Let_def quotas [unfolded append_Cons append_Nil] nodes)
qed

definition demo_node :: "int KubeNode" where
  "demo_node = \<lparr>no_Name = ''n1'', no_Labels = [(''kubernetes.io/os'', ''linux'')], no_Unschedulable = False,
     no_Conditions = [], no_KernelVersion = ''5'', no_OSImage = ''u'', no_KubeletVersion = ''v1'',
     no_Capacity = [(''cpu'', 4000)], no_Allocatable = [(''cpu'', 4000)]\<rparr>"

theorem cluster_described_witness:
  "\<exists>d s'. run_state (GetClusterDescription (demo_proxy ((demo_kube (\<lambda>q. False) Map.empty Map.empty [demo_node])
      \<lparr>ku_node := \<lambda>h q. (Some demo_node, None)\<rparr>))) \<lparr>ps_http = [], ps_kube = []\<rparr> = (Ret d, s') \<and>
     map xn_Name (xd_Nodes d) = [''n1''] \<and> ps_kube s' = [ListNodes, GetNode ''n1'']"
proof -
  let ?kube = "(demo_kube (\<lambda>q. False) Map.empty Map.empty [demo_node])\<lparr>ku_node := \<lambda>h q. (Some demo_node, None)\<rparr>"
  have "fst (ku_nodes (px_kube (demo_proxy ?kube)) h ListNodes) = Some [demo_node]" for h
    by (simp add: demo_kube_def)
  moreover have "fst (ku_node (px_kube (demo_proxy ?kube)) h (GetNode n)) \<noteq> None" for h n by simp
  ultimately show ?thesis
    using cluster_described [of "demo_proxy ?kube" "[demo_node]" "\<lparr>ps_http = [], ps_kube = []\<rparr>"]
    by (auto simp: demo_node_def)
qed

section \<open>Properties of the start-up\<close>

text \<open>
  A proxy that starts has all its required variables, listens on the given port or on 50051, takes
  its project name from the project that the two identifiers name, and has only read Rancher at the
  given URL with the given token by then.
\<close>

lemma proxy_starts:
  assumes "run_state (proxy_main env boot Getenv) h = (Ret (Inr (port, conf)), h')"
  shows "Getenv ''RANCHER_CLUSTER_ID'' \<noteq> '''' \<and> Getenv ''RANCHER_PROJECT_ID'' \<noteq> '''' \<and>
     Getenv ''RANCHER_URL'' \<noteq> '''' \<and> Getenv ''RANCHER_TOKEN'' \<noteq> '''' \<and>
     port = (if Getenv ''LISTEN_PORT'' = '''' then '':50051'' else '':'' @ Getenv ''LISTEN_PORT'') \<and>
     getProjectID conf = Getenv ''RANCHER_CLUSTER_ID'' @ '':'' @ Getenv ''RANCHER_PROJECT_ID'' \<and>
     (\<exists>project t. run_state (cl_GetProjectDetail (px_rancherClient conf) (getProjectID conf)) h = (Inr project, h') \<and>
        px_projectName conf = p_Name project \<and>
        h' = h @ t \<and> list_all (reading (Getenv ''RANCHER_URL'') (Getenv ''RANCHER_TOKEN'')) t)"
proof -
  let ?c = "\<lparr>c_serverURL = Getenv ''RANCHER_URL'', c_token = Getenv ''RANCHER_TOKEN''\<rparr>"
  let ?pid = "Getenv ''RANCHER_CLUSTER_ID'' @ '':'' @ Getenv ''RANCHER_PROJECT_ID''"
  have sel: "cl_GetProjectDetail (NewClient env (Getenv ''RANCHER_URL'') (Getenv ''RANCHER_TOKEN'')) = GetProjectDetail env ?c"
    by (simp add: NewClient_def Let_def)
  have none: "envMissing Getenv = None" using assms by (auto simp: proxy_main_def split: option.splits)
  then have vars: "Getenv ''RANCHER_CLUSTER_ID'' \<noteq> ''''" "Getenv ''RANCHER_PROJECT_ID'' \<noteq> ''''"
    "Getenv ''RANCHER_URL'' \<noteq> ''''" "Getenv ''RANCHER_TOKEN'' \<noteq> ''''"
    by (auto simp: envMissing_def split: if_splits)
  from assms none obtain project where project: "run_state (GetProjectDetail env ?c ?pid) h = (Inr project, h')"
    and conf: "port = listenPort Getenv" "px_projectName conf = p_Name project"
      "px_clusterId conf = Getenv ''RANCHER_CLUSTER_ID''" "px_projectId conf = Getenv ''RANCHER_PROJECT_ID''"
      "px_rancherClient conf = NewClient env (Getenv ''RANCHER_URL'') (Getenv ''RANCHER_TOKEN'')"
    by (auto simp: proxy_main_def Let_def sel getProjectID_def split: option.splits prod.splits sum.splits)
  obtain t where t: "snd (run_state (GetProjectDetail env ?c ?pid) h) = h @ t"
      "list_all (reading (c_serverURL ?c) (c_token ?c)) t"
    using detail_reads by (rule extendsE)
  show ?thesis
    using vars project conf t by (auto simp: listenPort_def Let_def getProjectID_def sel)
qed

definition demo_getenv :: "string \<Rightarrow> string" where
  "demo_getenv k =
     (case map_of [(''RANCHER_CLUSTER_ID'', ''c''), (''RANCHER_PROJECT_ID'', ''p''), (''RANCHER_URL'', ''s''),
        (''RANCHER_TOKEN'', ''t'')] k of None \<Rightarrow> '''' | Some v \<Rightarrow> v)"

definition demo_rancher :: "jval rancher_env" where
  "demo_rancher = \<lparr>re_http = (\<lambda>h q. Inr \<lparr>rs_status = 200, rs_body = ''x''\<rparr>),
     re_gjson = table_gjson (\<lambda>b p. if p = ''name'' then JStr ''alice'' else JNull)\<rparr>"

definition demo_boot :: "int boot" where
  "demo_boot = \<lparr>bo_flag = None, bo_BuildConfig = (\<lambda>p. None), bo_NewClients = (\<lambda>i. None), bo_Listen = (\<lambda>p. None),
     bo_kube = (\<lambda>i. demo_kube (\<lambda>q. False) Map.empty Map.empty [])\<rparr>"

lemma proxy_starts_witness:
  "\<exists>conf h'. run_state (proxy_main demo_rancher demo_boot demo_getenv) [] = (Ret (Inr ('':50051'', conf)), h') \<and>
     getProjectID conf = ''c:p'' \<and> list_all (reading ''s'' ''t'') h'"
proof -
  have "\<exists>conf h'. run_state (proxy_main demo_rancher demo_boot demo_getenv) [] = (Ret (Inr ('':50051'', conf)), h')"
    by (simp add: proxy_main_def envMissing_def demo_getenv_def demo_boot_def Let_def NewClient_def
        GetProjectDetail_def reader_defs demo_rancher_def listenPort_def StatusOK_def)
  then obtain conf h' where run: "run_state (proxy_main demo_rancher demo_boot demo_getenv) [] = (Ret (Inr ('':50051'', conf)), h')"
    by blast
  from proxy_starts [OF run] run show ?thesis by (auto simp: demo_getenv_def)
qed

end
