(* ===== verification/Go_Threads.thy ===== *)
theory Go_Threads
  imports Go_Prelude
begin

text \<open>
  Goroutines that talk to an outside service: a thread asks the service and goes on with the answer, a
  server is a pool of threads to which calls arrive at any time and in which any thread may take the
  next turn. The theory proves what such a server guarantees: tenants that ask for their own objects
  only do not notice each other, the requests are bounded by those of the calls, and a call that is alone
  is its thread run without interruption.
\<close>

section \<open>Threads\<close>

datatype ('q, 'r, 'a) thread = Finished 'a | Asking 'q "'r \<Rightarrow> ('q, 'r, 'a) thread"

text \<open>A thread that runs without interruption.\<close>

primrec alone :: "('q, 'r) service \<Rightarrow> ('q, 'r, 'a) thread \<Rightarrow> ('q list, 'a) state" where
  "alone svc (Finished a) = State_Monad.return a"
| "alone svc (Asking q k) = State_Monad.bind (call svc q) (\<lambda>r. alone svc (k r))"

primrec asksOnly :: "('q \<Rightarrow> bool) \<Rightarrow> ('q, 'r, 'a) thread \<Rightarrow> bool" where
  "asksOnly P (Finished a) \<longleftrightarrow> True"
| "asksOnly P (Asking q k) \<longleftrightarrow> P q \<and> (\<forall>r. asksOnly P (k r))"

text \<open>
  One turn of a thread, and a server: calls arrive, threads take turns. The pool keeps a call beside
  its thread, and the history is that of all requests to the API server.
\<close>

inductive turn :: "('q, 'r) service \<Rightarrow> ('c \<times> ('q, 'r, 'a) thread) list \<times> 'q list
    \<Rightarrow> ('c \<times> ('q, 'r, 'a) thread) list \<times> 'q list \<Rightarrow> bool" for svc where
  turn: "turn svc (xs @ (c, Asking q k) # ys, h) (xs @ (c, k (svc h q)) # ys, h @ [q])"

inductive serving :: "('q, 'r) service \<Rightarrow> ('c \<Rightarrow> ('q, 'r, 'a) thread) \<Rightarrow> 'q list
    \<Rightarrow> ('c \<times> ('q, 'r, 'a) thread) list \<Rightarrow> 'q list \<Rightarrow> bool" for svc T h0 where
  start: "serving svc T h0 [] h0"
| arrive: "serving svc T h0 pool h \<Longrightarrow> serving svc T h0 (pool @ [(c, T c)]) h"
| go: "serving svc T h0 pool h \<Longrightarrow> turn svc (pool, h) (pool', h') \<Longrightarrow> serving svc T h0 pool' h'"

inductive_cases turnE: "turn svc (pool, h) (pool', h')"

section \<open>Tenants that share a server\<close>

text \<open>
  The contract of a server whose calls each belong to a tenant: a call's thread asks for its tenant's
  objects only, and, when the backend keeps tenants apart, the answer to a request depends only on the
  requests for the same tenant before it.
\<close>

locale sharing =
  fixes svc :: "('q, 'r) service"
    and T :: "'c \<Rightarrow> ('q, 'r, 'a) thread"
    and tenant :: "'c \<Rightarrow> string"
    and owned :: "string \<Rightarrow> 'q \<Rightarrow> bool"
    and apart :: bool
  assumes asks_own: "asksOnly (owned (tenant c)) (T c)"
    and owner_unique: "owned t q \<Longrightarrow> owned u q \<Longrightarrow> t = u"
    and answers_apart: "apart \<Longrightarrow> owned t q \<Longrightarrow> filter (owned t) h = filter (owned t) h' \<Longrightarrow> svc h q = svc h' q"
begin

lemma pool_asks_own:
  "serving svc T h0 pool h \<Longrightarrow> list_all (\<lambda>(c, p). asksOnly (owned (tenant c)) p) pool"
  by (induction rule: serving.induct) (auto simp: asks_own elim!: turnE)

lemma requests_owned:
  "serving svc T h0 pool h \<Longrightarrow> \<exists>t. h = h0 @ t \<and> list_all (\<lambda>q. \<exists>c \<in> fst ` set pool. owned (tenant c) q) t"
proof (induction rule: serving.induct)
  case start
  then show ?case by simp
next
  case (arrive pool h c)
  then obtain t where "h = h0 @ t" "list_all (\<lambda>q. \<exists>c \<in> fst ` set pool. owned (tenant c) q) t" by blast
  then show ?case by (intro exI [of _ t]) (auto simp: list_all_iff)
next
  case (go pool h pool' h')
  from go.hyps(2) obtain xs c q k ys where p: "pool = xs @ (c, Asking q k) # ys"
      "pool' = xs @ (c, k (svc h q)) # ys" "h' = h @ [q]"
    by (auto elim: turnE)
  from go.IH obtain t where t: "h = h0 @ t" "list_all (\<lambda>q. \<exists>c \<in> fst ` set pool. owned (tenant c) q) t" by blast
  have "owned (tenant c) q" using pool_asks_own [OF go.hyps(1)] p(1) by simp
  moreover have "fst ` set pool = fst ` set pool'" unfolding p by simp
  ultimately show ?case
    using t p by (intro exI [of _ "t @ [q]"]) simp
qed

text \<open>What one tenant sees of a run is a run of the server with that tenant's calls alone.\<close>

lemma serving_projected:
  assumes "apart" and "serving svc T h0 pool h"
  shows "serving svc T (filter (owned t) h0) (filter (\<lambda>(c, p). tenant c = t) pool) (filter (owned t) h)"
  using assms(2)
proof (induction rule: serving.induct)
  case start
  then show ?case by (simp add: serving.start)
next
  case (arrive pool h c)
  then show ?case using serving.arrive by auto
next
  case (go pool h pool' h')
  from go.hyps(2) obtain xs c q k ys where p: "pool = xs @ (c, Asking q k) # ys"
      "pool' = xs @ (c, k (svc h q)) # ys" "h' = h @ [q]"
    by (auto elim: turnE)
  have own: "owned (tenant c) q" using pool_asks_own [OF go.hyps(1)] p(1) by simp
  show ?case
  proof (cases "tenant c = t")
    case True
    have same: "svc (filter (owned t) h) q = svc h q"
      by (rule answers_apart [OF assms(1) own]) (simp add: True)
    let ?f = "filter (\<lambda>(c, p). tenant c = t)"
    from go.IH True have "serving svc T (filter (owned t) h0) (?f xs @ (c, Asking q k) # ?f ys) (filter (owned t) h)"
      by (simp add: p(1))
    from serving.go [OF this turn.turn] same own True show ?thesis by (simp add: p(2,3))
  next
    case False
    then have "\<not> owned t q" using own owner_unique by blast
    with go.IH False show ?thesis by (simp add: p)
  qed
qed

end

text \<open>A server with one call runs its thread alone.\<close>

lemma serving_one:
  assumes "serving svc T h0 pool h" and "pool = [(c, p)]"
  shows "run_state (alone svc p) h = run_state (alone svc (T c)) h0"
proof -
  have "(pool = [] \<longrightarrow> h = h0) \<and>
      (\<forall>c p. pool = [(c, p)] \<longrightarrow> run_state (alone svc p) h = run_state (alone svc (T c)) h0)"
    using assms(1)
  proof (induction rule: serving.induct)
    case start
    then show ?case by simp
  next
    case (arrive pool h c)
    then show ?case by (cases pool) auto
  next
    case (go pool h pool' h')
    from go.hyps(2) go.IH show ?case
      by (elim turnE) (auto simp: append_eq_Cons_conv)
  qed
  with assms(2) show ?thesis by blast
qed

section \<open>How many requests a call makes\<close>

text \<open>A thread that makes at most so many requests, whatever the service answers.\<close>

fun spends :: "('q, 'r) service \<Rightarrow> nat \<Rightarrow> ('q, 'r, 'a) thread \<Rightarrow> bool" where
  "spends svc n (Finished a) \<longleftrightarrow> True"
| "spends svc 0 (Asking q k) \<longleftrightarrow> False"
| "spends svc (Suc n) (Asking q k) \<longleftrightarrow> (\<forall>h. spends svc n (k (svc h q)))"

lemma spends_finished [simp]: "spends svc n (Finished a)"
  by (cases n) simp_all

lemma spends_mono: "spends svc m p \<Longrightarrow> m \<le> n \<Longrightarrow> spends svc n p"
proof (induction svc m p arbitrary: n rule: spends.induct)
  case (3 svc m q k)
  then show ?case by (cases n) auto
qed simp_all

lemma spends_zero: "spends svc 0 p \<Longrightarrow> \<exists>a. p = Finished a"
  by (cases p) simp_all

text \<open>Each call of a run is left with a part of its budget, and the requests made are the rest.\<close>

lemma serving_budget:
  assumes "serving svc T h0 pool h" and "\<And>c. spends svc (bound c) (T c)"
  shows "\<exists>ns. list_all2 (\<lambda>n (c, p). spends svc n p) ns pool \<and>
    length h + sum_list ns = length h0 + (\<Sum>c \<leftarrow> map fst pool. bound c)"
  using assms(1)
proof (induction rule: serving.induct)
  case start
  then show ?case by simp
next
  case (arrive pool h c)
  then obtain ns where "list_all2 (\<lambda>n (c, p). spends svc n p) ns pool"
    "length h + sum_list ns = length h0 + (\<Sum>c \<leftarrow> map fst pool. bound c)" by auto
  with assms(2) [of c] show ?case
    by (intro exI [of _ "ns @ [bound c]"]) (simp add: list_all2_appendI)
next
  case (go pool h pool' h')
  from go.hyps(2) obtain xs c q k ys where p: "pool = xs @ (c, Asking q k) # ys"
      "pool' = xs @ (c, k (svc h q)) # ys" "h' = h @ [q]"
    by (auto elim: turnE)
  from go.IH obtain ns where ns: "list_all2 (\<lambda>n (c, p). spends svc n p) ns pool"
    "length h + sum_list ns = length h0 + (\<Sum>c \<leftarrow> map fst pool. bound c)" by auto
  from ns(1) obtain us n vs where split: "ns = us @ n # vs" "list_all2 (\<lambda>n (c, p). spends svc n p) us xs"
    "spends svc n (Asking q k)" "list_all2 (\<lambda>n (c, p). spends svc n p) vs ys"
    by (auto simp: p(1) list_all2_append2 list_all2_Cons2)
  from split(3) obtain m where m: "n = Suc m" "spends svc m (k (svc h q))" by (cases n) auto
  show ?case
    using ns(2) split m p by (intro exI [of _ "us @ m # vs"]) (auto intro!: list_all2_appendI)
qed

lemma budgets_spent:
  "list_all2 (\<lambda>n (c, p). spends svc n p) ns pool \<Longrightarrow> \<forall>n \<in> set ns. n = 0 \<Longrightarrow>
     \<forall>(c, p) \<in> set pool. \<exists>a. p = Finished a"
  by (induction rule: list_all2_induct) (auto dest: spends_zero)

lemma serving_bounded:
  assumes "serving svc T h0 pool h" and "\<And>c. spends svc (bound c) (T c)"
  shows "length h \<le> length h0 + (\<Sum>c \<leftarrow> map fst pool. bound c)"
    and "length h = length h0 + (\<Sum>c \<leftarrow> map fst pool. bound c) \<Longrightarrow> \<forall>(c, p) \<in> set pool. \<exists>a. p = Finished a"
proof -
  from serving_budget [OF assms] obtain ns where ns: "list_all2 (\<lambda>n (c, p). spends svc n p) ns pool"
    and len: "length h + sum_list ns = length h0 + (\<Sum>c \<leftarrow> map fst pool. bound c)" by auto
  from len show "length h \<le> length h0 + (\<Sum>c \<leftarrow> map fst pool. bound c)" by simp
  show "\<forall>(c, p) \<in> set pool. \<exists>a. p = Finished a"
    if "length h = length h0 + (\<Sum>c \<leftarrow> map fst pool. bound c)"
    using budgets_spent [OF ns] that len by simp
qed

lemma turns_serve: "(turn svc)\<^sup>*\<^sup>* s s' \<Longrightarrow> serving svc T h0 (fst s) (snd s) \<Longrightarrow> serving svc T h0 (fst s') (snd s')"
  by (induction rule: rtranclp_induct) (auto intro: serving.go)

section \<open>Schedules\<close>

text \<open>A scheduler that gives the turns in the order of a list of positions.\<close>

fun schedule :: "('q, 'r) service \<Rightarrow> nat list \<Rightarrow> ('c \<times> ('q, 'r, 'a) thread) list \<Rightarrow> 'q list
    \<Rightarrow> ('c \<times> ('q, 'r, 'a) thread) list \<times> 'q list" where
  "schedule svc [] pool h = (pool, h)"
| "schedule svc (i # is) pool h =
     (if i < length pool then
        (case pool ! i of
           (c, Finished a) \<Rightarrow> schedule svc is pool h
         | (c, Asking q k) \<Rightarrow> schedule svc is (pool[i := (c, k (svc h q))]) (h @ [q]))
      else schedule svc is pool h)"

lemma turn_at: "i < length pool \<Longrightarrow> pool ! i = (c, Asking q k) \<Longrightarrow> turn svc (pool, h) (pool[i := (c, k (svc h q))], h @ [q])"
  using turn.turn [of svc "take i pool" c q k "drop (Suc i) pool" h] id_take_nth_drop [of i pool]
  by (simp add: upd_conv_take_nth_drop)

lemma serving_schedule:
  "serving svc T h0 pool h \<Longrightarrow> schedule svc is pool h = (pool', h') \<Longrightarrow> serving svc T h0 pool' h'"
proof (induction svc "is" pool h rule: schedule.induct)
  case (1 svc pool h)
  then show ?case by simp
next
  case (2 svc i "is" pool h)
  then show ?case
    by (auto split: if_splits prod.splits thread.splits intro: serving.go turn_at)
qed

lemma serving_calls: "serving svc T h (map (\<lambda>c. (c, T c)) cs) h"
  by (induction cs rule: rev_induct) (auto intro: serving.start serving.arrive)

end
