(* ===== verification/Proxy_Concurrent.thy ===== *)
theory Proxy_Concurrent
  imports Proxy_Cluster Go_Threads
begin

text \<open>
  The gRPC server runs every call in a goroutine of its own, so the requests that the handlers of
  \<open>cluster-proxy/server/main.go\<close> make to the API server interleave. The six handlers are written as
  threads here and proved equal to the handlers; the theorems about servers of threads then hold of the
  proxy. The handlers share only the configuration, which nothing writes once \<open>main\<close> serves.
\<close>

section \<open>The handlers as threads\<close>

text \<open>What the API server answers, by the client method a request is made through.\<close>

datatype 'q kube_answer =
    AnsNamespace "KubeNamespace option \<times> go_error option"
  | AnsDeployment "'q Deployment option \<times> go_error option"
  | AnsDone "go_error option"

fun kubeAnswer :: "'q kube \<Rightarrow> ('q kube_req, 'q kube_answer) service" where
  "kubeAnswer kube h (CreateNamespace n) = AnsNamespace (ku_namespace kube h (CreateNamespace n))"
| "kubeAnswer kube h (GetNamespace n) = AnsNamespace (ku_namespace kube h (GetNamespace n))"
| "kubeAnswer kube h (CreateDeployment ns d) = AnsDeployment (ku_deployment kube h (CreateDeployment ns d))"
| "kubeAnswer kube h (GetDeployment ns n) = AnsDeployment (ku_deployment kube h (GetDeployment ns n))"
| "kubeAnswer kube h q = AnsDone (ku_done kube h q)"

type_synonym 'q handler = "('q kube_req, 'q kube_answer, rpc_reply) thread"

definition askNamespace :: "'q kube_req \<Rightarrow> (KubeNamespace option \<Rightarrow> go_error option \<Rightarrow> 'q handler) \<Rightarrow> 'q handler" where
  "askNamespace q k = Asking q (\<lambda>r. case r of AnsNamespace (n, e) \<Rightarrow> k n e | _ \<Rightarrow> k None None)"

definition askDeployment :: "'q kube_req \<Rightarrow> ('q Deployment option \<Rightarrow> go_error option \<Rightarrow> 'q handler) \<Rightarrow> 'q handler" where
  "askDeployment q k = Asking q (\<lambda>r. case r of AnsDeployment (d, e) \<Rightarrow> k d e | _ \<Rightarrow> k None None)"

definition askDone :: "'q kube_req \<Rightarrow> (go_error option \<Rightarrow> 'q handler) \<Rightarrow> 'q handler" where
  "askDone q k = Asking q (\<lambda>r. case r of AnsDone e \<Rightarrow> k e | _ \<Rightarrow> k None)"

lemmas ask_defs = askNamespace_def askDeployment_def askDone_def

definition prepareThread :: "'q ClusterProxyConf \<Rightarrow> XWorkspace \<Rightarrow> 'q handler" where
  "prepareThread proxy msg = askNamespace (CreateNamespace (workspaceNamespace proxy msg)) (\<lambda>ret err.
     Finished (case err of
         Some e \<Rightarrow> respond ERROR e err
       | None \<Rightarrow>
           (case deref ret of
              Panic m \<Rightarrow> Panic m
            | Ret ns \<Rightarrow>
                if kn_Phase ns = ''Active'' then respond ACTIVE ''Active'' err
                else respond PENDING ''Pending'' err)))"

text \<open>How the status of a workspace is read from the answer to the one request.\<close>

definition workspaceStatus :: "KubeNamespace \<Rightarrow> rpc_reply" where
  "workspaceStatus ns =
     (if kn_Phase ns = ''Active'' then
        (case map_of (kn_Annotations ns) ''cattle.io/status'' of
           None \<Rightarrow> respond ACTIVE ''Active'' None
         | Some cattlestatus \<Rightarrow>
             (case map_of (parseStatus cattlestatus) ''Conditions'' of
                None \<Rightarrow> respond ACTIVE ''Active'' None
              | Some condarr \<Rightarrow>
                  (case quotaCondition condarr of
                     None \<Rightarrow> respond ACTIVE ''Active'' None
                   | Some message \<Rightarrow> respond ERROR message None)))
      else respond PENDING ''Pending'' None)"

definition checkWorkspaceThread :: "'q ClusterProxyConf \<Rightarrow> BatchId \<Rightarrow> 'q handler" where
  "checkWorkspaceThread proxy msg = askNamespace (GetNamespace (getNSNameForBatch proxy (bi_Id msg))) (\<lambda>ret err.
     Finished (case err of
         Some e \<Rightarrow> respond ERROR e err
       | None \<Rightarrow> (case deref ret of Panic m \<Rightarrow> Panic m | Ret ns \<Rightarrow> workspaceStatus ns)))"

definition purgeThread :: "'q ClusterProxyConf \<Rightarrow> BatchId \<Rightarrow> 'q handler" where
  "purgeThread proxy msg = askDone (DeleteNamespace (getNSNameForBatch proxy (bi_Id msg))) (\<lambda>err.
     Finished (case err of Some e \<Rightarrow> respond ERROR e err | None \<Rightarrow> respond NOT_FOUND ''Deleted'' err))"

fun createVolumesThread :: "'q kube \<Rightarrow> string \<Rightarrow> string \<Rightarrow> nat \<Rightarrow> XVolumeDescription list
    \<Rightarrow> VolumeMount list \<Rightarrow> Volume list \<Rightarrow> (go_error + VolumeMount list \<times> Volume list \<Rightarrow> 'q handler) \<Rightarrow> 'q handler" where
  "createVolumesThread kube namespace moduleId idx [] mounts volumes k = k (Inr (mounts, volumes))"
| "createVolumesThread kube namespace moduleId idx (vol # vols) mounts volumes k =
     askDone (CreatePVC namespace (volumeClaim (ku_quantities kube) namespace moduleId idx vol)) (\<lambda>err.
       case err of
         Some e \<Rightarrow> k (Inl e)
       | None \<Rightarrow> createVolumesThread kube namespace moduleId (Suc idx) vols
           (mounts @ [volumeMount moduleId idx vol]) (volumes @ [claimVolume moduleId idx]) k)"

definition deployThread :: "'q ClusterProxyConf \<Rightarrow> XBalticModuleBuild \<Rightarrow> VolumeMount list \<Rightarrow> Volume list \<Rightarrow> 'q handler" where
  "deployThread proxy msg mounts volumes =
     (let namespace = getNSNameForBatch proxy (mb_BatchId msg)
      in case moduleResources (ku_quantities (px_kube proxy)) (getResources msg) of
           Panic m \<Rightarrow> Finished (Panic m)
         | Ret (limits, requests) \<Rightarrow>
             askDeployment (CreateDeployment namespace
               (moduleDeployment namespace msg (moduleContainer msg mounts limits requests) volumes)) (\<lambda>result err.
               Finished (case deref result of
                   Panic m \<Rightarrow> Panic m
                 | Ret _ \<Rightarrow> respond PENDING (case err of None \<Rightarrow> ''pending'' | Some e \<Rightarrow> e) err)))"

definition runThread :: "'q ClusterProxyConf \<Rightarrow> XBalticModuleBuild \<Rightarrow> 'q handler" where
  "runThread proxy msg =
     (let kube = px_kube proxy;
          namespace = getNSNameForBatch proxy (mb_BatchId msg);
          moduleId = mb_ModuleId msg
      in createVolumesThread kube namespace moduleId 0 (mb_Volumes msg) [] [] (\<lambda>claimed.
           case claimed of
             Inl e \<Rightarrow> Finished (respond ERROR e (Some e))
           | Inr (mounts, volumes) \<Rightarrow>
               (let (data, mounts) = collectFiles moduleId 0 (mb_ConfigFiles msg) [] mounts;
                    volumes = (if length data > 0 then volumes @ [configVolume moduleId] else volumes);
                    service = askDone (CreateService namespace (moduleService namespace msg)) (\<lambda>failed.
                      case failed of
                        Some e \<Rightarrow> Finished (respond ERROR e (Some e))
                      | None \<Rightarrow> deployThread proxy msg mounts volumes)
                in if length data > 0 then
                     askDone (CreateConfigMap namespace (configMap namespace moduleId data)) (\<lambda>failed.
                       case failed of Some e \<Rightarrow> Finished (respond ERROR e (Some e)) | None \<Rightarrow> service)
                   else service)))"

definition checkModuleThread :: "'q ClusterProxyConf \<Rightarrow> Module \<Rightarrow> 'q handler" where
  "checkModuleThread proxy msg =
     askDeployment (GetDeployment (getNSNameForBatch proxy (mo_BatchId msg)) (mo_ModuleId msg)) (\<lambda>result err.
       Finished (case err of
           Some e \<Rightarrow> respond ERROR e err
         | None \<Rightarrow>
             (case deref result of
                Panic m \<Rightarrow> Panic m
              | Ret deployment \<Rightarrow>
                  (case conditionStatus (de_Conditions deployment) (PENDING, ''pending'') of
                     (status, message) \<Rightarrow> respond status message None))))"

fun disposeVolumesThread :: "string \<Rightarrow> Volume list \<Rightarrow> disposing \<Rightarrow> (disposing \<Rightarrow> 'q handler) \<Rightarrow> 'q handler" where
  "disposeVolumesThread namespace [] vars k = k vars"
| "disposeVolumesThread namespace (vol # vols) vars k =
     (if vo_PersistentVolumeClaim vol \<noteq> None then
        askDone (DeletePVC namespace (vo_Name vol)) (\<lambda>err.
          disposeVolumesThread namespace vols (noteFailure err vars) k)
      else if vo_ConfigMap vol \<noteq> None then
        askDone (DeleteConfigMap namespace (vo_Name vol)) (\<lambda>err.
          disposeVolumesThread namespace vols (noteFailure err vars) k)
      else disposeVolumesThread namespace vols vars k)"

definition disposeThread :: "'q ClusterProxyConf \<Rightarrow> Module \<Rightarrow> 'q handler" where
  "disposeThread proxy msg =
     (let namespace = getNSNameForBatch proxy (mo_BatchId msg)
      in askDeployment (GetDeployment namespace (mo_ModuleId msg)) (\<lambda>deployment err.
           let vars = noteFailure err (PENDING, ''pending'', err)
           in askDone (DeleteDeployment namespace (mo_ModuleId msg)) (\<lambda>err.
                let vars = noteFailure err vars
                in askDone (DeleteService namespace (getServiceName (mo_ModuleId msg))) (\<lambda>err.
                     let vars = noteFailure err vars
                     in case deref deployment of
                          Panic m \<Rightarrow> Finished (Panic m)
                        | Ret d \<Rightarrow> disposeVolumesThread namespace (de_Volumes d) vars (\<lambda>(status, message, retErr).
                            Finished (respond status message retErr))))))"

fun rpcThread :: "'q ClusterProxyConf \<Rightarrow> rpc \<Rightarrow> 'q handler" where
  "rpcThread proxy (RpcPrepareWorkspace msg) = prepareThread proxy msg"
| "rpcThread proxy (RpcCheckWorkspaceStatus msg) = checkWorkspaceThread proxy msg"
| "rpcThread proxy (RpcPurgeWorkspace msg) = purgeThread proxy msg"
| "rpcThread proxy (RpcRunBalticModule msg) = runThread proxy msg"
| "rpcThread proxy (RpcCheckBalticModuleStatus msg) = checkModuleThread proxy msg"
| "rpcThread proxy (RpcDisposeBalticModule msg) = disposeThread proxy msg"

section \<open>The run of a module as a plan\<close>

text \<open>Requests in order up to the first failure; the run of a module is its plan and the deployment.\<close>

fun tryThread :: "'q kube_req list \<Rightarrow> (go_error option \<Rightarrow> 'q handler) \<Rightarrow> 'q handler" where
  "tryThread [] k = k None"
| "tryThread (q # qs) k = askDone q (\<lambda>err. case err of Some e \<Rightarrow> k (Some e) | None \<Rightarrow> tryThread qs k)"

lemma tryThread_append:
  "tryThread (ps @ qs) k = tryThread ps (\<lambda>err. case err of Some e \<Rightarrow> k (Some e) | None \<Rightarrow> tryThread qs k)"
  by (induction ps) (simp_all cong: option.case_cong)

lemma createVolumes_tryThread:
  "createVolumesThread kube ns moduleId idx vols ms vs k =
     tryThread (claimPlan (ku_quantities kube) ns moduleId idx vols) (\<lambda>err.
       case err of Some e \<Rightarrow> k (Inl e)
       | None \<Rightarrow> k (Inr (ms @ claimMounts moduleId idx vols, vs @ claimVolumes moduleId idx (length vols))))"
proof (induction vols arbitrary: idx ms vs)
  case Nil
  then show ?case by (simp add: claimVolumes_def)
next
  case (Cons vol vols)
  then show ?case by (simp add: claimVolumes_Suc cong: option.case_cong)
qed

lemma runThread_plan:
  "runThread proxy msg =
     tryThread (modulePlan (ku_quantities (px_kube proxy)) (getNSNameForBatch proxy (mb_BatchId msg)) msg) (\<lambda>refused.
       case refused of
         Some e \<Rightarrow> Finished (respond ERROR e (Some e))
       | None \<Rightarrow> deployThread proxy msg (moduleMounts msg) (moduleVolumes msg))"
  by (simp add: runThread_def Let_def createVolumes_tryThread collected fileData_empty modulePlan_def filePlan_def
      tryThread_append moduleMounts_def moduleVolumes_def cong: option.case_cong)

section \<open>The threads are the handlers\<close>

lemma alone_asks:
  "run_state (alone (kubeAnswer kube) (askNamespace (CreateNamespace n) k)) h =
     (case ku_namespace kube h (CreateNamespace n) of (x, e) \<Rightarrow> run_state (alone (kubeAnswer kube) (k x e)) (h @ [CreateNamespace n]))"
  "run_state (alone (kubeAnswer kube) (askNamespace (GetNamespace m) k)) h =
     (case ku_namespace kube h (GetNamespace m) of (x, e) \<Rightarrow> run_state (alone (kubeAnswer kube) (k x e)) (h @ [GetNamespace m]))"
  "run_state (alone (kubeAnswer kube) (askDeployment (CreateDeployment ns d) k')) h =
     (case ku_deployment kube h (CreateDeployment ns d) of (x, e) \<Rightarrow>
        run_state (alone (kubeAnswer kube) (k' x e)) (h @ [CreateDeployment ns d]))"
  "run_state (alone (kubeAnswer kube) (askDeployment (GetDeployment ns m) k')) h =
     (case ku_deployment kube h (GetDeployment ns m) of (x, e) \<Rightarrow>
        run_state (alone (kubeAnswer kube) (k' x e)) (h @ [GetDeployment ns m]))"
  by (simp_all add: ask_defs split: prod.split)

definition doneRequest :: "'q kube_req \<Rightarrow> bool" where
  "doneRequest q \<longleftrightarrow> (case q of
       CreateNamespace _ \<Rightarrow> False | GetNamespace _ \<Rightarrow> False
     | CreateDeployment _ _ \<Rightarrow> False | GetDeployment _ _ \<Rightarrow> False | _ \<Rightarrow> True)"

lemma doneRequest_simps [simp]:
  "doneRequest (DeleteNamespace n)" "doneRequest (CreatePVC n p)" "doneRequest (DeletePVC n m)"
  "doneRequest (CreateConfigMap n c)" "doneRequest (DeleteConfigMap n m)" "doneRequest (CreateService n s)"
  "doneRequest (DeleteService n m)" "doneRequest (DeleteDeployment n m)"
  by (simp_all add: doneRequest_def)

lemma alone_askDone:
  "doneRequest q \<Longrightarrow> run_state (alone (kubeAnswer kube) (askDone q k)) h =
     run_state (alone (kubeAnswer kube) (k (ku_done kube h q))) (h @ [q])"
  by (cases q) (simp_all add: ask_defs doneRequest_def)

lemma alone_tryThread:
  "list_all doneRequest qs \<Longrightarrow> run_state (alone (kubeAnswer kube) (tryThread qs k)) h =
     (case run_state (tryAll (ku_done kube) qs) h of (r, h') \<Rightarrow> run_state (alone (kubeAnswer kube) (k r)) h')"
  by (induction qs arbitrary: h) (auto simp: alone_askDone split: option.split prod.split)

lemma modulePlan_done: "list_all doneRequest (modulePlan qa ns msg)"
proof -
  have "list_all doneRequest (claimPlan qa ns m idx vols)" for m idx vols
    by (induction vols arbitrary: idx) simp_all
  then show ?thesis by (simp add: modulePlan_def filePlan_def)
qed

lemma alone_disposeVolumes:
  "run_state (alone (kubeAnswer kube) (disposeVolumesThread ns vols vars k)) h =
     (case run_state (disposeVolumes kube ns vols vars) h of (v, h') \<Rightarrow> run_state (alone (kubeAnswer kube) (k v)) h')"
  by (induction vols arbitrary: vars h) (auto simp: alone_askDone)

lemma run_alone_rpcThread:
  "run_state (alone (kubeAnswer (px_kube proxy)) (rpcThread proxy c)) h = run_state (serveRpc proxy c) h"
proof (cases c)
  case (RpcRunBalticModule msg)
  then show ?thesis
    by (simp add: runThread_plan deployThread_def plannedDeployment_def RunBalticModule_runPlan runPlan_def Let_def
        alone_tryThread modulePlan_done alone_asks split: prod.split option.split outcome.split)
next
  case (RpcDisposeBalticModule msg)
  then show ?thesis
    by (simp add: disposeThread_def DisposeBalticModule_def Let_def alone_asks alone_askDone alone_disposeVolumes
        split: prod.split outcome.split)
qed (simp_all add: prepareThread_def PrepareWorkspace_def checkWorkspaceThread_def CheckWorkspaceStatus_def
    workspaceStatus_def purgeThread_def PurgeWorkspace_def checkModuleThread_def CheckBalticModuleStatus_def
    alone_asks alone_askDone split: prod.split option.split outcome.split)

section \<open>The threads share the API server\<close>

lemma asksOnly_asks [intro]:
  "P q \<Longrightarrow> (\<And>n e. asksOnly P (kn n e)) \<Longrightarrow> asksOnly P (askNamespace q kn)"
  "P q \<Longrightarrow> (\<And>d e. asksOnly P (kd d e)) \<Longrightarrow> asksOnly P (askDeployment q kd)"
  "P q \<Longrightarrow> (\<And>e. asksOnly P (k e)) \<Longrightarrow> asksOnly P (askDone q k)"
  by (auto simp: ask_defs split: kube_answer.split)

lemma asksOnly_tryThread:
  "list_all P qs \<Longrightarrow> (\<And>e. asksOnly P (k e)) \<Longrightarrow> asksOnly P (tryThread qs k)"
  by (induction qs) (auto split: option.split)

lemma asksOnly_disposeVolumes:
  "(\<And>n. P (DeletePVC ns n)) \<Longrightarrow> (\<And>n. P (DeleteConfigMap ns n)) \<Longrightarrow> (\<And>v. asksOnly P (k v)) \<Longrightarrow>
     asksOnly P (disposeVolumesThread ns vols vars k)"
proof (induction vols arbitrary: vars)
  case Nil
  then show ?case by simp
next
  case (Cons vol vols)
  have "asksOnly P (disposeVolumesThread ns vols v k)" for v
    by (rule Cons.IH [OF Cons.prems])
  then show ?case using Cons.prems by (simp add: asksOnly_asks)
qed

lemma rpcThread_asks: "asksOnly (inNamespace (getNSNameForBatch proxy (rpcBatch c))) (rpcThread proxy c)"
proof (cases c)
  have deploy: "inNamespace n (CreateDeployment n (moduleDeployment n msg c vs))" for n msg c vs
    by (simp add: inNamespace_def moduleDeployment_def)
  case (RpcRunBalticModule msg)
  then show ?thesis
    by (auto simp: runThread_plan deployThread_def Let_def deploy intro!: asksOnly_tryThread [OF modulePlan_confined] asksOnly_asks
        split: option.split outcome.split prod.split)
next
  case (RpcDisposeBalticModule msg)
  then show ?thesis
    by (auto simp: disposeThread_def Let_def inNamespace_def intro!: asksOnly_asks asksOnly_disposeVolumes split: outcome.split prod.split)
qed (auto simp: prepareThread_def checkWorkspaceThread_def purgeThread_def checkModuleThread_def inNamespace_def
    workspaceNamespace_def Let_def)

lemma kubeAnswer_separated:
  assumes "separated kube" and "inNamespace ns q" and "filter (inNamespace ns) h = filter (inNamespace ns) h'"
  shows "kubeAnswer kube h q = kubeAnswer kube h' q"
proof -
  have "ku_namespace kube h q = ku_namespace kube h' q" "ku_deployment kube h q = ku_deployment kube h' q"
    "ku_done kube h q = ku_done kube h' q"
    using assms unfolding separated_def by blast+
  then show ?thesis by (cases q) simp_all
qed

interpretation sh: sharing "kubeAnswer (px_kube proxy)" "rpcThread proxy" "\<lambda>c. getNSNameForBatch proxy (rpcBatch c)"
    inNamespace "separated (px_kube proxy)" for proxy :: "'q ClusterProxyConf"
proof unfold_locales
  show "asksOnly (inNamespace (getNSNameForBatch proxy (rpcBatch c))) (rpcThread proxy c)" for c
    by (rule rpcThread_asks)
  show "t = u" if "inNamespace t q" "inNamespace u q" for t u and q :: "'q kube_req"
    using that by (simp add: inNamespace_def)
  show "kubeAnswer (px_kube proxy) h q = kubeAnswer (px_kube proxy) h' q"
    if "separated (px_kube proxy)" "inNamespace t q" "filter (inNamespace t) h = filter (inNamespace t) h'" for t h h' q
    using that by (rule kubeAnswer_separated)
qed

section \<open>Properties of the concurrent server\<close>

text \<open>A run of the proxy: calls, threads and the API server's history.\<close>

definition proxyServes :: "'q ClusterProxyConf \<Rightarrow> 'q kube_req list \<Rightarrow> (rpc \<times> 'q handler) list \<Rightarrow> 'q kube_req list \<Rightarrow> bool" where
  "proxyServes proxy = serving (kubeAnswer (px_kube proxy)) (rpcThread proxy)"

text \<open>
  A thread that is not interrupted is its handler: for each of the six calls, the sequence of requests
  with what is done with every answer gives the handler's reply and history, for every API server.
\<close>

lemma thread_is_handler: "alone (kubeAnswer (px_kube proxy)) (rpcThread proxy c) = serveRpc proxy c"
  by (intro state_ext run_alone_rpcThread)

text \<open>
  C8: Batches do not interfere when calls are served concurrently. When the API server keeps namespaces
  apart, what the namespace of a batch sees of a run in which calls arrive at any time and their requests
  interleave in any way is itself a run of the proxy with the other batches' calls left out: the same
  threads in the same states, and the same requests in the same order.
\<close>

theorem concurrent_batches_isolated:
  assumes "separated (px_kube proxy)" and "proxyServes proxy h0 pool h"
  shows "proxyServes proxy (filter (inNamespace (px_projectName proxy @ ''-'' @ b)) h0)
    (filter (\<lambda>(c, p). rpcBatch c = b) pool) (filter (inNamespace (px_projectName proxy @ ''-'' @ b)) h)"
  using sh.serving_projected [OF assms(1) assms(2) [unfolded proxyServes_def], of "getNSNameForBatch proxy b"]
  by (simp only: proxyServes_def getNSNameForBatch_inj) (simp add: getNSNameForBatch_def)

text \<open>Two calls whose requests alternate: a module of one batch is disposed of while another batch is purged.\<close>

definition demo_racing :: "int kube" where
  "demo_racing = demo_kube (\<lambda>q. False) Map.empty [''m'' \<mapsto> \<lparr>de_Namespace = ''alice-b'', de_Name = ''m'', de_Labels = [],
     de_Replicas = 1, de_MatchLabels = [], de_PodLabels = [], de_Affinity = None, de_Containers = [],
     de_Volumes = [configVolume ''m''], de_Conditions = []\<rparr>] []"

definition demo_calls :: "rpc list" where
  "demo_calls = [RpcDisposeBalticModule \<lparr>mo_BatchId = ''b'', mo_ModuleId = ''m''\<rparr>, RpcPurgeWorkspace \<lparr>bi_Id = ''a''\<rparr>]"

definition demo_history :: "int kube_req list" where
  "demo_history = [GetDeployment ''alice-b'' ''m'', DeleteDeployment ''alice-b'' ''m'', DeleteNamespace ''alice-a'',
     DeleteService ''alice-b'' ''m'', DeleteConfigMap ''alice-b'' ''m'']"

lemma demo_racing_separated: "separated (px_kube (demo_proxy demo_racing))"
  by (simp add: separated_def demo_racing_def demo_kube_def)

lemma demo_schedule:
  "schedule (kubeAnswer (px_kube (demo_proxy demo_racing))) [0, 0, 1, 0, 0] (map (\<lambda>c. (c, rpcThread (demo_proxy demo_racing) c)) demo_calls) [] =
     ([(demo_calls ! 0, Finished (respond PENDING ''pending'' None)), (demo_calls ! 1, Finished (respond NOT_FOUND ''Deleted'' None))],
      demo_history)"
  by (simp add: demo_calls_def demo_history_def disposeThread_def purgeThread_def ask_defs Let_def demo_racing_def
      getNSNameForBatch_def getServiceName_def noteFailure_def configVolume_def)

lemma demo_concurrent:
  "proxyServes (demo_proxy demo_racing) [] [(demo_calls ! 0, Finished (respond PENDING ''pending'' None)),
     (demo_calls ! 1, Finished (respond NOT_FOUND ''Deleted'' None))] demo_history"
  unfolding proxyServes_def by (rule serving_schedule [OF serving_calls demo_schedule])

theorem concurrent_batches_isolated_witness:
  "proxyServes (demo_proxy demo_racing) [] [(demo_calls ! 1, Finished (respond NOT_FOUND ''Deleted'' None))] [DeleteNamespace ''alice-a'']"
  using concurrent_batches_isolated [OF demo_racing_separated demo_concurrent, of "''a''"]
  by (simp add: demo_calls_def demo_history_def inNamespace_def)

text \<open>
  A batch with one call in flight is served as if the proxy did nothing else: whatever the other
  batches' calls do in between, its reply is the handler's, and so is what its namespace sees.
\<close>

lemma lone_call_undisturbed:
  assumes "separated (px_kube proxy)" and "proxyServes proxy h0 pool h"
    and "filter (\<lambda>(c, p). rpcBatch c = rpcBatch c') pool = [(c', Finished r)]"
  shows "run_state (serveRpc proxy c') (filter (inNamespace (px_projectName proxy @ ''-'' @ rpcBatch c')) h0) =
    (r, filter (inNamespace (px_projectName proxy @ ''-'' @ rpcBatch c')) h)"
proof -
  let ?f = "filter (inNamespace (getNSNameForBatch proxy (rpcBatch c')))"
  have "serving (kubeAnswer (px_kube proxy)) (rpcThread proxy) (?f h0) [(c', Finished r)] (?f h)"
    using sh.serving_projected [OF assms(1) assms(2) [unfolded proxyServes_def], of "getNSNameForBatch proxy (rpcBatch c')"]
      assms(3) by (simp only: getNSNameForBatch_inj)
  from serving_one [OF this refl] show ?thesis
    by (simp add: run_alone_rpcThread getNSNameForBatch_def)
qed

lemma lone_call_undisturbed_witness:
  "run_state (serveRpc (demo_proxy demo_racing) (demo_calls ! 0)) [] =
    (respond PENDING ''pending'' None, [GetDeployment ''alice-b'' ''m'', DeleteDeployment ''alice-b'' ''m'',
       DeleteService ''alice-b'' ''m'', DeleteConfigMap ''alice-b'' ''m''])"
  using lone_call_undisturbed [OF demo_racing_separated demo_concurrent, of "demo_calls ! 0" "respond PENDING ''pending'' None"]
  by (simp add: demo_calls_def demo_history_def inNamespace_def)

section \<open>How many requests a call makes\<close>

text \<open>The volumes of a deployment that the API server shows are at most so many.\<close>

definition fewVolumes :: "nat \<Rightarrow> 'q kube \<Rightarrow> bool" where
  "fewVolumes n kube \<longleftrightarrow> (\<forall>h ns m d e. ku_deployment kube h (GetDeployment ns m) = (Some d, e) \<longrightarrow> length (de_Volumes d) \<le> n)"

fun callBound :: "nat \<Rightarrow> rpc \<Rightarrow> nat" where
  "callBound n (RpcRunBalticModule msg) = length (mb_Volumes msg) + (if mb_ConfigFiles msg = [] then 2 else 3)"
| "callBound n (RpcDisposeBalticModule m) = 3 + n"
| "callBound n _ = 1"

lemma spends_asks:
  "(\<And>n e. spends (kubeAnswer kube) b (kn n e)) \<Longrightarrow> spends (kubeAnswer kube) (Suc b) (askNamespace q kn)"
  "(\<And>e. spends (kubeAnswer kube) b (k e)) \<Longrightarrow> spends (kubeAnswer kube) (Suc b) (askDone q k)"
  "(\<And>e. spends (kubeAnswer kube) b (kd None e)) \<Longrightarrow>
     (\<And>h d e. ku_deployment kube h q = (Some d, e) \<Longrightarrow> spends (kubeAnswer kube) b (kd (Some d) e)) \<Longrightarrow>
     spends (kubeAnswer kube) (Suc b) (askDeployment q kd)"
proof -
  show "spends (kubeAnswer kube) (Suc b) (askDeployment q kd)"
    if none: "\<And>e. spends (kubeAnswer kube) b (kd None e)"
      and some: "\<And>h d e. ku_deployment kube h q = (Some d, e) \<Longrightarrow> spends (kubeAnswer kube) b (kd (Some d) e)"
  proof -
    have "spends (kubeAnswer kube) b (case kubeAnswer kube h q of AnsDeployment (d, e) \<Rightarrow> kd d e | _ \<Rightarrow> kd None None)" for h
    proof (cases "ku_deployment kube h q")
      case (Pair d e)
      then show ?thesis using none some [of h] by (cases q; cases d) auto
    qed
    then show ?thesis by (simp add: askDeployment_def)
  qed
qed (auto simp: ask_defs split: kube_answer.split)

lemma spends_tryThread:
  "(\<And>e. spends (kubeAnswer kube) b (k e)) \<Longrightarrow> spends (kubeAnswer kube) (length qs + b) (tryThread qs k)"
proof (induction qs)
  case (Cons q qs)
  have "spends (kubeAnswer kube) (length qs + b) (k e)" for e
    by (rule spends_mono [OF Cons.prems]) simp
  with Cons show ?case by (auto intro!: spends_asks split: option.split)
qed simp

lemma spends_disposeVolumes:
  "(\<And>v. spends (kubeAnswer kube) b (k v)) \<Longrightarrow>
     spends (kubeAnswer kube) (length vols + b) (disposeVolumesThread ns vols vars k)"
proof (induction vols arbitrary: vars)
  case (Cons vol vols)
  have ih: "spends (kubeAnswer kube) (length vols + b) (disposeVolumesThread ns vols v k)" for v
    by (rule Cons.IH [OF Cons.prems])
  then show ?case by (auto intro!: spends_asks spends_mono [OF ih])
qed simp

lemma claimPlan_length [simp]: "length (claimPlan qa ns m idx vols) = length vols"
  by (induction vols arbitrary: idx) simp_all

lemma rpcThread_spends:
  assumes "fewVolumes n (px_kube proxy)"
  shows "spends (kubeAnswer (px_kube proxy)) (callBound n c) (rpcThread proxy c)"
proof (cases c)
  case (RpcRunBalticModule msg)
  have "spends (kubeAnswer (px_kube proxy)) (Suc 0) (deployThread proxy msg ms vs)" for ms vs
    by (auto simp: deployThread_def Let_def intro!: spends_asks split: outcome.split prod.split)
  then have "spends (kubeAnswer (px_kube proxy)) (length (modulePlan (ku_quantities (px_kube proxy))
      (getNSNameForBatch proxy (mb_BatchId msg)) msg) + Suc 0) (runThread proxy msg)"
    unfolding runThread_plan by (intro spends_tryThread) (auto split: option.split)
  then show ?thesis using RpcRunBalticModule by (simp add: modulePlan_def filePlan_def numeral_3_eq_3 split: if_splits)
next
  case (RpcDisposeBalticModule m)
  have vols: "spends (kubeAnswer (px_kube proxy)) n (disposeVolumesThread ns (de_Volumes d) v
      (\<lambda>(status, message, retErr). Finished (respond status message retErr)))"
    if "ku_deployment (px_kube proxy) h (GetDeployment ns' m) = (Some d, e)" for ns ns' m d v h e
  proof -
    have "length (de_Volumes d) + 0 \<le> n" using assms [unfolded fewVolumes_def, rule_format, OF that] by simp
    then show ?thesis
      by (rule spends_mono [rotated]) (rule spends_disposeVolumes, simp split: prod.split)
  qed
  show ?thesis unfolding RpcDisposeBalticModule
    by (auto simp: disposeThread_def Let_def numeral_3_eq_3 intro!: spends_asks vols)
qed (auto simp: prepareThread_def checkWorkspaceThread_def purgeThread_def checkModuleThread_def intro!: spends_asks)

text \<open>
  C14: The requests that calls make are bounded, whatever the API server answers and however the calls
  interleave: one for a workspace call and for the status of a module, one for each volume, one for the
  files if there are any and two more for a run, three and one for each volume of a deployment for a
  disposal. No call tries a request again; and when the calls have made as many requests as this, all
  of them are answered.
\<close>

theorem requests_bounded:
  assumes "proxyServes proxy h0 pool h" and "fewVolumes n (px_kube proxy)"
  shows "length h \<le> length h0 + (\<Sum>c \<leftarrow> map fst pool. callBound n c) \<and>
    (length h = length h0 + (\<Sum>c \<leftarrow> map fst pool. callBound n c) \<longrightarrow> (\<forall>(c, p) \<in> set pool. \<exists>r. p = Finished r))"
  using serving_bounded [OF assms(1) [unfolded proxyServes_def] rpcThread_spends [OF assms(2)]] by simp

theorem requests_bounded_witness:
  "length demo_history \<le> (\<Sum>c \<leftarrow> demo_calls. callBound 1 c) \<and> (\<Sum>c \<leftarrow> demo_calls. callBound 1 c) = 5"
proof -
  have "fewVolumes 1 (px_kube (demo_proxy demo_racing))"
    by (auto simp: fewVolumes_def demo_racing_def demo_kube_def configVolume_def split: if_splits option.splits)
  from requests_bounded [OF demo_concurrent this] show ?thesis by (simp add: demo_calls_def)
qed

section \<open>Calls for the same module\<close>

lemma turn_asks:
  "doneRequest q \<Longrightarrow> turn (kubeAnswer kube) (xs @ (c, askDone q k) # ys, h) (xs @ (c, k (ku_done kube h q)) # ys, h @ [q])"
  "ku_deployment kube h (GetDeployment ns n) = (d, e) \<Longrightarrow>
     turn (kubeAnswer kube) (xs @ (c, askDeployment (GetDeployment ns n) kd) # ys, h) (xs @ (c, kd d e) # ys, h @ [GetDeployment ns n])"
  "ku_deployment kube h (CreateDeployment ns x) = (d, e) \<Longrightarrow>
     turn (kubeAnswer kube) (xs @ (c, askDeployment (CreateDeployment ns x) kd) # ys, h) (xs @ (c, kd d e) # ys, h @ [CreateDeployment ns x])"
proof -
  show "turn (kubeAnswer kube) (xs @ (c, askDone q k) # ys, h) (xs @ (c, k (ku_done kube h q)) # ys, h @ [q])"
    if "doneRequest q"
  proof -
    have "kubeAnswer kube h q = AnsDone (ku_done kube h q)"
      using that by (cases q) (simp_all add: doneRequest_def)
    with turn.turn [of "kubeAnswer kube" xs c q "\<lambda>r. case r of AnsDone e \<Rightarrow> k e | _ \<Rightarrow> k None" ys h]
    show ?thesis by (simp add: askDone_def)
  qed
  note dep = turn.turn [of "kubeAnswer kube" xs c _ "\<lambda>r. case r of AnsDeployment (d, e) \<Rightarrow> kd d e | _ \<Rightarrow> kd None None" ys h]
  show "turn (kubeAnswer kube) (xs @ (c, askDeployment (GetDeployment ns n) kd) # ys, h) (xs @ (c, kd d e) # ys, h @ [GetDeployment ns n])"
    if "ku_deployment kube h (GetDeployment ns n) = (d, e)"
    using that dep [of "GetDeployment ns n"] by (simp add: askDeployment_def)
  show "turn (kubeAnswer kube) (xs @ (c, askDeployment (CreateDeployment ns x) kd) # ys, h) (xs @ (c, kd d e) # ys, h @ [CreateDeployment ns x])"
    if "ku_deployment kube h (CreateDeployment ns x) = (d, e)"
    using that dep [of "CreateDeployment ns x"] by (simp add: askDeployment_def)
qed

lemma noteFailure_stays: "\<exists>s f. noteFailure e (ERROR, s', Some f') = (ERROR, s, Some f)"
  by (cases e) (simp_all add: noteFailure_def)

lemma turns_tryThread:
  assumes "list_all doneRequest qs" and "\<And>h q. q \<in> set qs \<Longrightarrow> ku_done kube h q = None"
  shows "(turn (kubeAnswer kube))\<^sup>*\<^sup>* (xs @ (c, tryThread qs k) # ys, h) (xs @ (c, k None) # ys, h @ qs)"
  using assms
proof (induction qs arbitrary: h)
  case Nil
  then show ?case by simp
next
  case (Cons q qs)
  have "turn (kubeAnswer kube) (xs @ (c, tryThread (q # qs) k) # ys, h) (xs @ (c, tryThread qs k) # ys, h @ [q])"
    using turn_asks(1) [of q kube xs c "\<lambda>err. case err of Some e \<Rightarrow> k (Some e) | None \<Rightarrow> tryThread qs k" ys h] Cons.prems
    by simp
  also have "(turn (kubeAnswer kube))\<^sup>*\<^sup>* \<dots> (xs @ (c, k None) # ys, (h @ [q]) @ qs)"
    using Cons.prems by (intro Cons.IH) auto
  finally show ?case by simp
qed

lemma modulePlan_no_deployment: "CreateDeployment n d \<notin> set (modulePlan qa ns msg)"
proof -
  have "list_all doneRequest (modulePlan qa ns msg)" by (rule modulePlan_done)
  then show ?thesis by (auto simp: list_all_iff doneRequest_def)
qed

text \<open>A run that has created everything but its deployment.\<close>

definition deployStep :: "'q ClusterProxyConf \<Rightarrow> string \<Rightarrow> 'q Deployment \<Rightarrow> 'q handler" where
  "deployStep proxy ns d = askDeployment (CreateDeployment ns d) (\<lambda>result err.
     Finished (case deref result of
         Panic m \<Rightarrow> Panic m
       | Ret _ \<Rightarrow> respond PENDING (case err of None \<Rightarrow> ''pending'' | Some e \<Rightarrow> e) err))"

lemma run_creates:
  fixes proxy :: "'q ClusterProxyConf"
  assumes "ns = getNSNameForBatch proxy (mb_BatchId msg)" and "plan = modulePlan (ku_quantities (px_kube proxy)) ns msg"
    and "moduleResources (ku_quantities (px_kube proxy)) (getResources msg) = Ret (limits, requests)"
    and "\<And>h q. q \<in> set plan \<Longrightarrow> ku_done (px_kube proxy) h q = None"
    and "serving (kubeAnswer (px_kube proxy)) T h0 (xs @ (c, runThread proxy msg) # ys) h"
  shows "serving (kubeAnswer (px_kube proxy)) T h0
    (xs @ (c, deployStep proxy ns (plannedDeployment ns msg limits requests)) # ys) (h @ plan)"
proof -
  let ?last = "deployStep proxy ns (plannedDeployment ns msg limits requests)"
  let ?next = "\<lambda>refused. case refused of Some e \<Rightarrow> Finished (respond ERROR e (Some e)) | None \<Rightarrow> ?last"
  have run: "runThread proxy msg = tryThread plan ?next"
    by (simp add: runThread_plan deployThread_def plannedDeployment_def Let_def assms(1,2) [symmetric] assms(3)
        deployStep_def cong: option.case_cong)
  have all_done: "list_all doneRequest plan"
    unfolding assms(2) by (rule modulePlan_done)
  have "(turn (kubeAnswer (px_kube proxy)))\<^sup>*\<^sup>* (xs @ (c, tryThread plan ?next) # ys, h) (xs @ (c, ?next None) # ys, h @ plan)"
    by (rule turns_tryThread [OF all_done assms(4)])
  from turns_serve [OF this] assms(5) show ?thesis by (simp add: run)
qed

text \<open>A disposal that finds no deployment deletes the deployment and the service by name, and no more.\<close>

lemma dispose_finds_nothing:
  fixes proxy :: "'q ClusterProxyConf"
  assumes "ns = getNSNameForBatch proxy (mo_BatchId m)"
    and "ku_deployment (px_kube proxy) h (GetDeployment ns (mo_ModuleId m)) = (Some d0, Some e)" and "de_Volumes d0 = []"
    and "serving (kubeAnswer (px_kube proxy)) T h0 (xs @ (c, disposeThread proxy m) # ys) h"
  shows "\<exists>message err. serving (kubeAnswer (px_kube proxy)) T h0
    (xs @ (c, Finished (respond ERROR message (Some err))) # ys)
    (h @ [GetDeployment ns (mo_ModuleId m), DeleteDeployment ns (mo_ModuleId m), DeleteService ns (mo_ModuleId m)])"
proof -
  let ?svc = "kubeAnswer (px_kube proxy)" and ?mid = "mo_ModuleId m"
  let ?h1 = "h @ [GetDeployment ns ?mid]"
  let ?h2 = "?h1 @ [DeleteDeployment ns ?mid]"
  obtain s1 f1 where v1: "noteFailure (ku_done (px_kube proxy) ?h1 (DeleteDeployment ns ?mid)) (ERROR, e, Some e) = (ERROR, s1, Some f1)"
    using noteFailure_stays by blast
  obtain s2 f2 where v2: "noteFailure (ku_done (px_kube proxy) ?h2 (DeleteService ns ?mid)) (ERROR, s1, Some f1) = (ERROR, s2, Some f2)"
    using noteFailure_stays by blast
  have v0: "noteFailure (Some e) (PENDING, ''pending'', Some e) = (ERROR, e, Some e)" by (simp add: noteFailure_def)
  let ?delete = "\<lambda>(dep :: 'q Deployment option) vars. askDone (DeleteDeployment ns ?mid) (\<lambda>err'.
    askDone (DeleteService ns ?mid) (\<lambda>err''. case deref dep of
        Panic m \<Rightarrow> Finished (Panic m)
      | Ret d \<Rightarrow> disposeVolumesThread ns (de_Volumes d) (noteFailure err'' (noteFailure err' vars))
          (\<lambda>(status, message, retErr). Finished (respond status message retErr))))"
  let ?got = "\<lambda>dep err. ?delete dep (noteFailure err (PENDING, ''pending'', err))"
  have start: "disposeThread proxy m = askDeployment (GetDeployment ns ?mid) ?got"
    by (simp add: disposeThread_def Let_def assms(1) [symmetric] getServiceName_def)
  from serving.go [OF assms(4) [unfolded start] turn_asks(2) [OF assms(2)]]
  have "serving ?svc T h0 (xs @ (c, ?delete (Some d0) (ERROR, e, Some e)) # ys) ?h1"
    by (simp only: v0)
  from serving.go [OF serving.go [OF this turn_asks(1)] turn_asks(1)]
  have "serving ?svc T h0 (xs @ (c, Finished (respond ERROR s2 (Some f2))) # ys) (?h2 @ [DeleteService ns ?mid])"
    by (simp add: v1 v2 [simplified] assms(3))
  then show ?thesis by auto
qed

text \<open>
  C26: Calls for the same module do interfere. A disposal that comes after a run has created the claims,
  the config map and the service and before it has created the deployment deletes the service only: it
  answers with an error, the run then creates the deployment and reports success, and the claims, the
  config map and a deployment without its service are left behind.
\<close>

theorem dispose_races_run:
  assumes "ns = px_projectName proxy @ ''-'' @ mb_BatchId msg"
    and "plan = modulePlan (ku_quantities (px_kube proxy)) ns msg"
    and "mo_BatchId m = mb_BatchId msg" and "mo_ModuleId m = mb_ModuleId msg"
    and "moduleResources (ku_quantities (px_kube proxy)) (getResources msg) = Ret (limits, requests)"
    and "\<And>h q. q \<in> set plan \<Longrightarrow> ku_done (px_kube proxy) h q = None"
    and "\<And>h d. fst (ku_deployment (px_kube proxy) h (CreateDeployment ns d)) = Some d \<and>
      snd (ku_deployment (px_kube proxy) h (CreateDeployment ns d)) = None"
    and "\<And>h n. (\<And>d. CreateDeployment ns d \<notin> set h) \<Longrightarrow>
      ku_deployment (px_kube proxy) h (GetDeployment ns n) = (Some d0, Some e)" and "de_Volumes d0 = []"
  shows "\<exists>message err. proxyServes proxy [] [(RpcRunBalticModule msg, Finished (respond PENDING ''pending'' None)),
      (RpcDisposeBalticModule m, Finished (respond ERROR message (Some err)))]
    (plan @ [GetDeployment ns (mb_ModuleId msg), DeleteDeployment ns (mb_ModuleId msg), DeleteService ns (mb_ModuleId msg),
       CreateDeployment ns (plannedDeployment ns msg limits requests)])"
proof -
  let ?svc = "kubeAnswer (px_kube proxy)" and ?run = "RpcRunBalticModule msg" and ?dis = "RpcDisposeBalticModule m"
  let ?d = "plannedDeployment ns msg limits requests"
  have ns: "ns = getNSNameForBatch proxy (mb_BatchId msg)" by (simp add: getNSNameForBatch_def assms(1))
  have arrived: "serving ?svc (rpcThread proxy) [] ([] @ (?run, runThread proxy msg) # [(?dis, disposeThread proxy m)]) []"
    using serving_calls [of ?svc "rpcThread proxy" "[]" "[?run, ?dis]"] by simp
  have created: "serving ?svc (rpcThread proxy) [] ([(?run, deployStep proxy ns ?d)] @ (?dis, disposeThread proxy m) # []) plan"
    using run_creates [OF ns assms(2,5,6) arrived] by simp
  have "ku_deployment (px_kube proxy) plan (GetDeployment ns (mo_ModuleId m)) = (Some d0, Some e)"
    by (rule assms(8)) (simp add: assms(2) modulePlan_no_deployment)
  from dispose_finds_nothing [OF _ this assms(9) created] obtain message err where
    "serving ?svc (rpcThread proxy) [] ([] @ (?run, deployStep proxy ns ?d) # [(?dis, Finished (respond ERROR message (Some err)))])
      (plan @ [GetDeployment ns (mo_ModuleId m), DeleteDeployment ns (mo_ModuleId m), DeleteService ns (mo_ModuleId m)])"
    by (auto simp: ns assms(3))
  from serving.go [OF this [unfolded deployStep_def] turn_asks(3) [of _ _ ns ?d "Some ?d" None]] assms(7)
  show ?thesis by (auto simp: proxyServes_def assms(4) prod_eq_iff)
qed

theorem dispose_races_run_witness:
  "\<exists>message err. proxyServes (demo_proxy demo_live) [] [(RpcRunBalticModule demo_module, Finished (respond PENDING ''pending'' None)),
      (RpcDisposeBalticModule \<lparr>mo_BatchId = ''b'', mo_ModuleId = ''m''\<rparr>, Finished (respond ERROR message (Some err)))]
    (modulePlan demo_quantities ''alice-b'' demo_module @ [GetDeployment ''alice-b'' ''m'', DeleteDeployment ''alice-b'' ''m'',
       DeleteService ''alice-b'' ''m'', CreateDeployment ''alice-b'' (plannedDeployment ''alice-b'' demo_module
         [(''cpu'', 250), (''memory'', 268435456000), (''nvidia.com/gpu'', 0)] [(''cpu'', 250), (''memory'', 268435456000)])])"
proof -
  have ns: "''alice-b'' = px_projectName (demo_proxy demo_live) @ ''-'' @ mb_BatchId demo_module"
    by (simp add: demo_module_def)
  have res: "moduleResources (ku_quantities (px_kube (demo_proxy demo_live))) (getResources demo_module) =
      Ret ([(''cpu'', 250), (''memory'', 268435456000), (''nvidia.com/gpu'', 0)], [(''cpu'', 250), (''memory'', 268435456000)])"
    unfolding demo_proxy_sel demo_live_sel by code_simp
  have ids: "mb_BatchId demo_module = ''b''" "mb_ModuleId demo_module = ''m''" by (simp_all add: demo_module_def)
  show ?thesis
    using dispose_races_run [OF ns refl _ _ res, of "\<lparr>mo_BatchId = ''b'', mo_ModuleId = ''m''\<rparr>" noDeployment "''not found''"]
    by (simp add: ids demo_live_sel createdDeployment_none noDeployment_def)
qed

end
