(* ===== verification/Proxy_Client.thy ===== *)
theory Proxy_Client
  imports Proxy_Concurrent
begin

text \<open>
  The command-line client of the cluster proxy (\<open>cluster-proxy/client/main.go\<close>): one command per process,
  each a fixed message for one batch and one module, sent over one connection. The connection, the
  formatting of messages and the JSON encoder are parameters; the theorems connect the client to the
  model of the server.
\<close>

section \<open>The messages\<close>

definition bid :: string where "bid = ''123e4567-e89b-12d3-a456-426655440000''"
definition mid :: string where "mid = ''b-344223ab-3344-a223-f223-fff223423553''"

definition clientWorkspace :: XWorkspace where
  "clientWorkspace =
     \<lparr>xw_BatchId = bid,
      xw_Quota = Some \<lparr>wq_Cpus = 1000, wq_Memory = 256, wq_Storage = 10, wq_Gpus = 1\<rparr>\<rparr>"

definition clientBatch :: BatchId where "clientBatch = \<lparr>bi_Id = bid\<rparr>"

definition clientModule :: Module where "clientModule = \<lparr>mo_BatchId = bid, mo_ModuleId = mid\<rparr>"

definition clientBuild :: XBalticModuleBuild where
  "clientBuild =
     \<lparr>mb_BatchId = bid, mb_ModuleId = mid, mb_Image = ''busybox'',
      mb_EnvironmentVariables =
        [\<lparr>ev_Key = ''ModuleManagerPort'', ev_Value = ''7301''\<rparr>,
         \<lparr>ev_Key = ''BatchManagerUrl'', ev_Value = ''https://host.docker.internal:7001''\<rparr>],
      mb_Command = ''/bin/sleep'', mb_CommandArguments = [''300''],
      mb_PortMappings = [\<lparr>pm_ContainerPort = 1234, pm_PublishedPort = 8888, pm_Protocol = TCP\<rparr>],
      mb_Volumes = [\<lparr>vd_Size = 1, vd_StorageClass = '''', vd_MountPath = ''/storage''\<rparr>],
      mb_Resources = Some \<lparr>rr_Cpus = 100, rr_Memory = 128,
        rr_Gpus = Some \<lparr>gr_Type = ''nvidia-gtx-1080ti'', gr_Quantity = 0\<rparr>\<rparr>,
      mb_ConfigFiles =
        [\<lparr>cf_Data = ''Lorem Ipsum'' @ [CHR 0x0A] @ ''Some more data...'', cf_MountPath = ''/conffile1''\<rparr>,
         \<lparr>cf_Data = ''Lorem Ipsum2'' @ [CHR 0x0A] @ ''Some more data2...'', cf_MountPath = ''/conffile2''\<rparr>],
      mb_Scope = CLUSTER\<rparr>"

section \<open>The commands\<close>

text \<open>
  The generated client of the service: a call gives an error or a reply, and may change the state of the
  world. Formatting with \<open>%+v\<close> and \<open>json.MarshalIndent\<close> are parameters.
\<close>

record 's rpc_client =
  rc_call :: "rpc \<Rightarrow> ('s, go_error + ClusterStatusResponse) state"
  rc_GetClusterDescription :: "('s, go_error + XClusterDescription) state"

record client_fmt =
  fm_reply :: "ClusterStatusResponse \<Rightarrow> string"
  fm_MarshalIndent :: "XClusterDescription \<Rightarrow> go_error + string"

text \<open>\<open>log.Fatalf\<close> ends the process; otherwise a command returns an error or nil, and has printed.\<close>

datatype command_end =
    Fatalf string
  | Returns "go_error option" "string list"

fun statusName :: "StatusCode \<Rightarrow> string" where
  "statusName ACTIVE = ''ACTIVE''"
| "statusName PENDING = ''PENDING''"
| "statusName ERROR = ''ERROR''"
| "statusName NOT_FOUND = ''NOT_FOUND''"

definition prepareWorkspace :: "client_fmt \<Rightarrow> 's rpc_client \<Rightarrow> ('s, command_end) state" where
  "prepareWorkspace fm rc = do {
     r \<leftarrow> rc_call rc (RpcPrepareWorkspace clientWorkspace);
     State_Monad.return (case r of
         Inl err \<Rightarrow> Fatalf (''PrepareWorkspace failed: '' @ err)
       | Inr r \<Rightarrow> Returns None [''Return: '' @ fm_reply fm r])
   }"

definition checkWorkspaceStatus :: "client_fmt \<Rightarrow> 's rpc_client \<Rightarrow> ('s, command_end) state" where
  "checkWorkspaceStatus fm rc = do {
     r \<leftarrow> rc_call rc (RpcCheckWorkspaceStatus clientBatch);
     State_Monad.return (case r of
         Inl err \<Rightarrow> Fatalf (''checkWorkspaceStatus failed: '' @ err)
       | Inr r \<Rightarrow> Returns None [''Return: '' @ fm_reply fm r])
   }"

definition purgeWorkspace :: "client_fmt \<Rightarrow> 's rpc_client \<Rightarrow> ('s, command_end) state" where
  "purgeWorkspace fm rc = do {
     r \<leftarrow> rc_call rc (RpcPurgeWorkspace clientBatch);
     State_Monad.return (case r of
         Inl err \<Rightarrow> Fatalf (''purgeWorkspace failed: '' @ err)
       | Inr r \<Rightarrow> Returns None [''purgeWorkspace returned: '' @ fm_reply fm r])
   }"

definition runBalticModule :: "client_fmt \<Rightarrow> 's rpc_client \<Rightarrow> ('s, command_end) state" where
  "runBalticModule fm rc = do {
     r \<leftarrow> rc_call rc (RpcRunBalticModule clientBuild);
     State_Monad.return (case r of
         Inl err \<Rightarrow> Fatalf (''RunBalticModule failed: '' @ err)
       | Inr r \<Rightarrow> Returns None [''RunBalticModule returned '' @ fm_reply fm r])
   }"

definition checkBalticModuleStatus :: "client_fmt \<Rightarrow> 's rpc_client \<Rightarrow> ('s, command_end) state" where
  "checkBalticModuleStatus fm rc = do {
     r \<leftarrow> rc_call rc (RpcCheckBalticModuleStatus clientModule);
     State_Monad.return (case r of
         Inl err \<Rightarrow> Fatalf (''checkBalticModuleStatus failed: '' @ err)
       | Inr r \<Rightarrow> Returns None
           [''checkBalticModuleStatus returned Status:'' @ statusName (cs_Status r) @ '' Message:'' @ cs_Message r])
   }"

definition disposeBalticModule :: "client_fmt \<Rightarrow> 's rpc_client \<Rightarrow> ('s, command_end) state" where
  "disposeBalticModule fm rc = do {
     r \<leftarrow> rc_call rc (RpcDisposeBalticModule clientModule);
     State_Monad.return (case r of
         Inl err \<Rightarrow> Fatalf (''disposeBalticModule failed: '' @ err)
       | Inr r \<Rightarrow> Returns None [''disposeBalticModule returned '' @ fm_reply fm r])
   }"

definition getClusterDescription :: "client_fmt \<Rightarrow> 's rpc_client \<Rightarrow> ('s, command_end) state" where
  "getClusterDescription fm rc = do {
     r \<leftarrow> rc_GetClusterDescription rc;
     State_Monad.return (case r of
         Inl err \<Rightarrow> Fatalf (''getClusterDescription failed: '' @ err)
       | Inr r \<Rightarrow>
           (case fm_MarshalIndent fm r of
              Inl err \<Rightarrow> Returns (Some err) []
            | Inr json \<Rightarrow> Returns None [''getClusterDescription returned: '' @ json]))
   }"

definition commands :: "(string, client_fmt \<Rightarrow> 's rpc_client \<Rightarrow> ('s, command_end) state) gomap" where
  "commands =
     [(''PrepareWorkspace'', prepareWorkspace),
      (''CheckWorkspaceStatus'', checkWorkspaceStatus),
      (''PurgeWorkspace'', purgeWorkspace),
      (''RunBalticModule'', runBalticModule),
      (''CheckBalticModuleStatus'', checkBalticModuleStatus),
      (''DisposeBalticModule'', disposeBalticModule),
      (''GetClusterDescription'', getClusterDescription)]"

text \<open>
  The process: a panic, or an exit code with the lines written to standard output and to the log. The
  order in which \<open>usage\<close> lists the commands is that of a map loop.
\<close>

datatype process = Crashed string | Exited nat "string list" "string list"

definition usage :: "(string list \<Rightarrow> string list) \<Rightarrow> string list \<Rightarrow> string list" where
  "usage ord args =
     [''Usage: '' @ hd args @ '' <address> <command>'', ''  Available commands: '']
       @ map (\<lambda>cmd. ''    '' @ cmd) (ord (gm_keys (commands :: (string, client_fmt \<Rightarrow> unit rpc_client \<Rightarrow> (unit, command_end) state) gomap)))
       @ ['''', ''  Example: '' @ hd args @ '' localhost:50051 GetClusterDescription'']"

text \<open>\<open>grpc.Dial\<close> blocks until the server answers, or fails.\<close>

definition client_main :: "(string list \<Rightarrow> string list) \<Rightarrow> client_fmt \<Rightarrow> (string \<Rightarrow> go_error option) \<Rightarrow> 's rpc_client
    \<Rightarrow> string list \<Rightarrow> ('s, process) state" where
  "client_main ord fm Dial rc args =
     (if length args = 1 then State_Monad.return (Exited 1 (usage ord args) [])
      else (case index_at args 1 of
          Panic m \<Rightarrow> State_Monad.return (Crashed m)
        | Ret addr \<Rightarrow>
            (case index_at args 2 of
               Panic m \<Rightarrow> State_Monad.return (Crashed m)
             | Ret cmd \<Rightarrow>
                 (case map_of commands cmd of
                    None \<Rightarrow> State_Monad.return (Exited 1
                      ((''Invalid command '' @ [CHR 0x22] @ cmd @ [CHR 0x22]) # usage ord args) [])
                  | Some command \<Rightarrow>
                      (case Dial addr of
                         Some err \<Rightarrow> State_Monad.return (Exited 1 [''Connecting to '' @ addr] [''did not connect: '' @ err])
                       | None \<Rightarrow> do {
                           ended \<leftarrow> command fm rc;
                           State_Monad.return (case ended of
                               Fatalf text \<Rightarrow> Exited 1 [''Connecting to '' @ addr] [text]
                             | Returns None out \<Rightarrow> Exited 0 ((''Connecting to '' @ addr) # out) []
                             | Returns (Some err) out \<Rightarrow> Exited 0 ((''Connecting to '' @ addr) # out)
                                 [''Error running command '' @ [CHR 0x22] @ cmd @ [CHR 0x22] @ '': '' @ err])
                         })))))"

section \<open>The client against the model of the server\<close>

text \<open>
  The connection to a proxy of the model: gRPC sends the reply or the error; the error the client sees
  carries the handler's text after gRPC's own. A handler that panics takes the server down, and the
  client sees the connection break.
\<close>

definition rpcError :: "go_error \<Rightarrow> go_error" where
  "rpcError e = ''rpc error: code = Unknown desc = '' @ e"

definition proxyClient :: "'q ClusterProxyConf \<Rightarrow> 'q pstate rpc_client" where
  "proxyClient proxy =
     \<lparr>rc_call = (\<lambda>c. do {
        r \<leftarrow> onKube (serveRpc proxy c);
        State_Monad.return (case wireReply r of
            Panic m \<Rightarrow> Inl ''rpc error: code = Unavailable desc = transport is closing''
          | Ret (Inl e) \<Rightarrow> Inl (rpcError e)
          | Ret (Inr resp) \<Rightarrow> Inr resp)
      }),
      rc_GetClusterDescription = do {
        r \<leftarrow> GetClusterDescription proxy;
        State_Monad.return (case r of
            Panic m \<Rightarrow> Inl ''rpc error: code = Unavailable desc = transport is closing''
          | Ret d \<Rightarrow> Inr d)
      }\<rparr>"

text \<open>The call behind each command for a batch.\<close>

definition clientRpc :: "string \<Rightarrow> rpc option" where
  "clientRpc = map_of
     [(''PrepareWorkspace'', RpcPrepareWorkspace clientWorkspace),
      (''CheckWorkspaceStatus'', RpcCheckWorkspaceStatus clientBatch),
      (''PurgeWorkspace'', RpcPurgeWorkspace clientBatch),
      (''RunBalticModule'', RpcRunBalticModule clientBuild),
      (''CheckBalticModuleStatus'', RpcCheckBalticModuleStatus clientModule),
      (''DisposeBalticModule'', RpcDisposeBalticModule clientModule)]"

lemmas command_defs = prepareWorkspace_def checkWorkspaceStatus_def purgeWorkspace_def runBalticModule_def
  checkBalticModuleStatus_def disposeBalticModule_def

text \<open>A command makes its call and nothing else, and fails with it.\<close>

lemma run_command:
  assumes "clientRpc cmd = Some c"
  shows "\<exists>command. map_of commands cmd = Some command \<and>
    (\<forall>s. \<exists>text out. run_state (command fm rc) s =
       (case run_state (rc_call rc c) s of
          (Inl e, s') \<Rightarrow> (Fatalf text, s') | (Inr r, s') \<Rightarrow> (Returns None out, s')))"
proof -
  from assms consider "cmd = ''PrepareWorkspace''" "c = RpcPrepareWorkspace clientWorkspace"
    | "cmd = ''CheckWorkspaceStatus''" "c = RpcCheckWorkspaceStatus clientBatch"
    | "cmd = ''PurgeWorkspace''" "c = RpcPurgeWorkspace clientBatch"
    | "cmd = ''RunBalticModule''" "c = RpcRunBalticModule clientBuild"
    | "cmd = ''CheckBalticModuleStatus''" "c = RpcCheckBalticModuleStatus clientModule"
    | "cmd = ''DisposeBalticModule''" "c = RpcDisposeBalticModule clientModule"
    by (auto simp: clientRpc_def split: if_splits)
  then show ?thesis
    by cases (simp_all add: commands_def command_defs split: prod.split sum.split)
qed

lemma run_proxyClient:
  "run_state (rc_call (proxyClient proxy) c) s =
     (case run_state (serveRpc proxy c) (ps_kube s) of (r, h) \<Rightarrow>
       (case wireReply r of
          Panic m \<Rightarrow> Inl ''rpc error: code = Unavailable desc = transport is closing''
        | Ret (Inl e) \<Rightarrow> Inl (rpcError e)
        | Ret (Inr resp) \<Rightarrow> Inr resp, s\<lparr>ps_kube := h\<rparr>))"
  by (simp add: proxyClient_def split: prod.split)

lemma run_client:
  assumes "clientRpc cmd = Some c" and "Dial addr = None"
    and "run_state (serveRpc proxy c) (ps_kube s) = (r, h)"
  shows "\<exists>p. run_state (client_main ord fm Dial (proxyClient proxy) [prog, addr, cmd]) s = (p, s\<lparr>ps_kube := h\<rparr>) \<and>
    (if \<exists>resp. r = Ret (resp, None) then \<exists>out. p = Exited 0 out [] else \<exists>out line. p = Exited 1 out [line])"
proof -
  obtain command line out where c: "map_of commands cmd = Some command"
    "run_state (command fm (proxyClient proxy)) s =
       (case run_state (rc_call (proxyClient proxy) c) s of
          (Inl e, s') \<Rightarrow> (Fatalf line, s') | (Inr r, s') \<Rightarrow> (Returns None out, s'))"
    using run_command [OF assms(1), of fm "proxyClient proxy"] by blast
  consider (ok) resp where "r = Ret (resp, None)" | (err) resp e where "r = Ret (resp, Some e)" | (panic) m where "r = Panic m"
    by (metis not_Some_eq outcome.exhaust surj_pair)
  then show ?thesis
    using c assms(2,3)
    by cases (simp_all add: client_main_def index_at_def run_proxyClient wireReply_def)
qed

section \<open>An API server that obliges\<close>

text \<open>
  Accepts every request about objects, and reads a deployment back as it was created last.
\<close>

definition obliging :: "'q kube \<Rightarrow> bool" where
  "obliging kube \<longleftrightarrow>
     (\<forall>h q. ku_done kube h q = None) \<and>
     (\<forall>h n. ku_namespace kube h (CreateNamespace n) = (Some n, None)) \<and>
     (\<forall>h ns d. ku_deployment kube h (CreateDeployment ns d) = (Some d, None)) \<and>
     (\<forall>h ns n d. createdDeployment ns n h = Some d \<longrightarrow> ku_deployment kube h (GetDeployment ns n) = (Some d, None))"

lemma created_last:
  "de_Name d = n \<Longrightarrow> createdDeployment ns n (h @ [CreateDeployment ns d]) = Some d"
  "de_Name d = n \<Longrightarrow> createdDeployment ns n (h @ [CreateDeployment ns d, GetDeployment ns k]) = Some d"
  by (simp_all add: createdDeployment_def)

lemma run_client_ok:
  assumes "clientRpc cmd = Some c" and "Dial addr = None" and "run_state (serveRpc proxy c) h = (Ret (resp, None), h')"
  shows "\<exists>out. run_state (client_main ord fm Dial (proxyClient proxy) [prog, addr, cmd]) (s\<lparr>ps_kube := h\<rparr>) =
    (Exited 0 out [], s\<lparr>ps_kube := h'\<rparr>)"
proof -
  have "run_state (serveRpc proxy c) (ps_kube (s\<lparr>ps_kube := h\<rparr>)) = (Ret (resp, None), h')"
    using assms(3) by simp
  from run_client [where ord = ord and fm = fm and prog = prog and Dial = Dial and addr = addr, OF assms(1,2) this]
  show ?thesis by (auto split: if_splits)
qed

lemma clientRpc_simps:
  "clientRpc ''PrepareWorkspace'' = Some (RpcPrepareWorkspace clientWorkspace)"
  "clientRpc ''RunBalticModule'' = Some (RpcRunBalticModule clientBuild)"
  "clientRpc ''CheckBalticModuleStatus'' = Some (RpcCheckBalticModuleStatus clientModule)"
  "clientRpc ''DisposeBalticModule'' = Some (RpcDisposeBalticModule clientModule)"
  "clientRpc ''PurgeWorkspace'' = Some (RpcPurgeWorkspace clientBatch)"
  by (simp_all add: clientRpc_def)

lemma obliging_run:
  assumes "obliging (px_kube proxy)" and "ns = getNSNameForBatch proxy (mb_BatchId msg)"
    and "moduleResources (ku_quantities (px_kube proxy)) (getResources msg) = Ret (limits, requests)"
  shows "run_state (RunBalticModule proxy msg) h =
    (respond PENDING ''pending'' None, h @ modulePlan (ku_quantities (px_kube proxy)) ns msg
       @ [CreateDeployment ns (plannedDeployment ns msg limits requests)])"
proof -
  have "run_state (tryAll (ku_done (px_kube proxy)) (modulePlan (ku_quantities (px_kube proxy)) ns msg)) h =
      (None, h @ modulePlan (ku_quantities (px_kube proxy)) ns msg)"
    by (rule run_tryAll_ok) (use assms(1) in \<open>simp add: obliging_def\<close>)
  then show ?thesis
    using assms unfolding RunBalticModule_runPlan
    by (simp add: runPlan_def Let_def obliging_def)
qed

lemma obliging_dispose:
  assumes "obliging (px_kube proxy)" and "ns = getNSNameForBatch proxy (mo_BatchId m)"
    and "createdDeployment ns (mo_ModuleId m) h = Some d"
  shows "run_state (DisposeBalticModule proxy m) h =
    (respond PENDING ''pending'' None, h @ GetDeployment ns (mo_ModuleId m) # disposePlan ns (mo_ModuleId m) (de_Volumes d))"
proof -
  have get: "ku_deployment (px_kube proxy) h (GetDeployment (getNSNameForBatch proxy (mo_BatchId m)) (mo_ModuleId m)) = (Some d, None)"
    using assms by (simp add: obliging_def)
  have "filter (\<lambda>e. e \<noteq> None) (map (\<lambda>i. ku_done (px_kube proxy) (f i) (g i)) is) = []" for f g and "is" :: "nat list"
    using assms(1) by (simp add: obliging_def filter_empty_conv)
  then show ?thesis
    by (simp add: run_DisposeBalticModule [OF get] run_callAll Let_def assms(2) [symmetric] fold_noteFailure noteFailure_def)
qed

lemma obliging_prepare:
  assumes "obliging (px_kube proxy)"
  shows "\<exists>resp. run_state (PrepareWorkspace proxy msg) h = (Ret (resp, None), h @ [CreateNamespace (workspaceNamespace proxy msg)])"
  using assms by (simp add: PrepareWorkspace_def obliging_def respond_def)

lemma obliging_purge:
  assumes "obliging (px_kube proxy)"
  shows "\<exists>resp. run_state (PurgeWorkspace proxy msg) h = (Ret (resp, None), h @ [DeleteNamespace (getNSNameForBatch proxy (bi_Id msg))])"
  using assms by (simp add: PurgeWorkspace_def obliging_def respond_def)

lemma obliging_check:
  assumes "obliging (px_kube proxy)" and "ns = getNSNameForBatch proxy (mo_BatchId m)"
    and "createdDeployment ns (mo_ModuleId m) h = Some d"
  shows "\<exists>resp. run_state (CheckBalticModuleStatus proxy m) h = (Ret (resp, None), h @ [GetDeployment ns (mo_ModuleId m)])"
proof -
  obtain status message where "conditionStatus (de_Conditions d) (PENDING, ''pending'') = (status, message)"
    by (metis prod.exhaust)
  then show ?thesis
    using assms by (simp add: CheckBalticModuleStatus_def obliging_def respond_def)
qed

lemma disposePlan_creates_nothing: "createdObjects (disposePlan ns m vols) = []"
  by (induction vols) (auto simp: disposePlan_def map_filter_simps split: if_splits)

lemma disposePlan_confined: "list_all (inNamespace ns) (disposePlan ns m vols)"
  by (induction vols) (auto simp: disposePlan_def map_filter_simps inNamespace_def)

lemma plan_deletes_nothing: "deletedObjects (modulePlan qa ns msg) = []"
proof -
  have "deletedObjects (claimPlan qa ns m idx vols) = []" for m idx vols
    by (induction vols arbitrary: idx) simp_all
  then show ?thesis by (simp add: modulePlan_def filePlan_def)
qed

text \<open>What a module's whole life asks of the API server.\<close>

lemma lifecycle_balanced:
  assumes "t = modulePlan qa ns msg @ [CreateDeployment ns (plannedDeployment ns msg limits requests)]
    @ [GetDeployment ns (mb_ModuleId msg), GetDeployment ns (mb_ModuleId msg)] @ disposePlan ns (mb_ModuleId msg) (moduleVolumes msg)"
  shows "list_all (inNamespace ns) t" and "set (createdObjects t) = set (deletedObjects t)"
proof -
  show "list_all (inNamespace ns) t"
    by (simp add: assms modulePlan_confined disposePlan_confined inNamespace_def plannedDeployment_def moduleDeployment_def)
  show "set (createdObjects t) = set (deletedObjects t)"
    by (simp add: assms plan_deletes_nothing disposePlan_creates_nothing created_deleted [of ns msg qa limits requests])
qed

section \<open>Properties of the client\<close>

text \<open>
  C34: The exit code tells whether the proxy did what was asked: a command for a batch makes one call, which
  has the effect of its handler on the API server and none on Rancher, and the process exits with 0
  exactly when the handler returned no error; otherwise it exits with 1 and one line in the log.
\<close>

theorem client_exit_code:
  assumes "clientRpc cmd = Some c" and "Dial addr = None"
    and "run_state (client_main ord fm Dial (proxyClient proxy) [prog, addr, cmd]) s = (p, s')"
  shows "ps_kube s' = snd (run_state (serveRpc proxy c) (ps_kube s)) \<and> ps_http s' = ps_http s \<and>
    ((\<exists>out. p = Exited 0 out []) \<longleftrightarrow> (\<exists>resp. fst (run_state (serveRpc proxy c) (ps_kube s)) = Ret (resp, None))) \<and>
    ((\<exists>out. p = Exited 0 out []) \<or> (\<exists>out line. p = Exited 1 out [line]))"
proof -
  obtain r h where run: "run_state (serveRpc proxy c) (ps_kube s) = (r, h)" by (metis prod.exhaust)
  obtain q where "run_state (client_main ord fm Dial (proxyClient proxy) [prog, addr, cmd]) s = (q, s\<lparr>ps_kube := h\<rparr>)"
    and "if \<exists>resp. r = Ret (resp, None) then \<exists>out. q = Exited 0 out [] else \<exists>out line. q = Exited 1 out [line]"
    using run_client [where ord = ord and fm = fm and prog = prog and Dial = Dial and addr = addr, OF assms(1,2) run] by blast
  with assms(3) run show ?thesis
    by (auto split: if_splits)
qed

text \<open>
  A command line that does not name a command reaches nobody: with no argument, or with an unknown
  command, the process exits with 1; with an address alone it crashes on the missing argument, because
  the check of the arguments only looks for an empty command line.
\<close>

lemma bad_command_line:
  assumes "length args < 3 \<or> map_of (commands :: (string, client_fmt \<Rightarrow> 's rpc_client \<Rightarrow> ('s, command_end) state) gomap) (args ! 2) = None"
  shows "snd (run_state (client_main ord fm Dial (rc :: 's rpc_client) args) s) = s \<and>
    (length args = 2 \<longrightarrow> fst (run_state (client_main ord fm Dial rc args) s) = Crashed ''index out of range'') \<and>
    (length args = 1 \<or> 2 < length args \<longrightarrow> (\<exists>out. fst (run_state (client_main ord fm Dial rc args) s) = Exited 1 out []))"
  using assms by (auto simp: client_main_def index_at_def Let_def split: option.splits)

text \<open>The names of the client's messages, and the requests of the five calls of a module's life.\<close>

lemma client_ids:
  "mb_BatchId clientBuild = bid" "mb_ModuleId clientBuild = mid" "mo_BatchId clientModule = bid"
  "mo_ModuleId clientModule = mid" "bi_Id clientBatch = bid" "xw_BatchId clientWorkspace = bid"
  by (simp_all add: clientBuild_def clientModule_def clientBatch_def clientWorkspace_def)

lemma lifecycle_served:
  assumes "obliging (px_kube proxy)" and "ns = getNSNameForBatch proxy bid"
    and "moduleResources (ku_quantities (px_kube proxy)) (getResources clientBuild) = Ret (limits, requests)"
    and "h1 = h @ [CreateNamespace (workspaceNamespace proxy clientWorkspace)]"
    and "h2 = h1 @ modulePlan (ku_quantities (px_kube proxy)) ns clientBuild
      @ [CreateDeployment ns (plannedDeployment ns clientBuild limits requests)]"
    and "h3 = h2 @ [GetDeployment ns mid]"
    and "h4 = h3 @ GetDeployment ns mid # disposePlan ns mid (moduleVolumes clientBuild)"
    and "h5 = h4 @ [DeleteNamespace ns]"
  shows "\<exists>r1 r2 r3 r4 r5.
      run_state (serveRpc proxy (RpcPrepareWorkspace clientWorkspace)) h = (Ret (r1, None), h1) \<and>
      run_state (serveRpc proxy (RpcRunBalticModule clientBuild)) h1 = (Ret (r2, None), h2) \<and>
      run_state (serveRpc proxy (RpcCheckBalticModuleStatus clientModule)) h2 = (Ret (r3, None), h3) \<and>
      run_state (serveRpc proxy (RpcDisposeBalticModule clientModule)) h3 = (Ret (r4, None), h4) \<and>
      run_state (serveRpc proxy (RpcPurgeWorkspace clientBatch)) h4 = (Ret (r5, None), h5)"
proof -
  let ?d = "plannedDeployment ns clientBuild limits requests"
  have d: "de_Name ?d = mid" "de_Volumes ?d = moduleVolumes clientBuild"
    by (simp_all add: plannedDeployment_def moduleDeployment_def client_ids)
  have read: "createdDeployment ns mid h2 = Some ?d" "createdDeployment ns mid h3 = Some ?d"
    using created_last [OF d(1), of ns "h1 @ modulePlan (ku_quantities (px_kube proxy)) ns clientBuild"]
    by (simp_all add: assms(5,6))
  show ?thesis
    using obliging_prepare [OF assms(1), of clientWorkspace h] obliging_run [OF assms(1) _ assms(3), of ns h1]
      obliging_check [OF assms(1), of ns clientModule h2 ?d] obliging_dispose [OF assms(1), of ns clientModule h3 ?d]
      obliging_purge [OF assms(1), of clientBatch h4] read
    by (simp add: client_ids d respond_def assms(2) [symmetric] assms(4) [symmetric] assms(5) [symmetric]
        assms(6) [symmetric] assms(7) [symmetric] assms(8) [symmetric])
qed

text \<open>
  C13: The client and the proxy together clean up after themselves. Five processes that prepare the
  workspace, run the module, check it, dispose of it and purge the workspace all exit with 0 against an
  API server that obliges; their requests stay in the batch's namespace, which the first creates and the
  last deletes, and every object created in it is deleted again.
\<close>

theorem client_lifecycle:
  assumes "obliging (px_kube proxy)" and "Dial addr = None"
    and "moduleResources (ku_quantities (px_kube proxy)) (getResources clientBuild) = Ret (limits, requests)"
  shows "\<exists>outs t n. run_state (session (\<lambda>cmd. client_main ord fm Dial (proxyClient proxy) [prog, addr, cmd])
        [''PrepareWorkspace'', ''RunBalticModule'', ''CheckBalticModuleStatus'', ''DisposeBalticModule'', ''PurgeWorkspace'']) s =
      (map (\<lambda>out. Exited 0 out []) outs, s\<lparr>ps_kube := ps_kube s @ CreateNamespace n # t @ [DeleteNamespace (kn_Name n)]\<rparr>) \<and>
    kn_Name n = px_projectName proxy @ ''-'' @ bid \<and>
    list_all (inNamespace (kn_Name n)) t \<and> set (createdObjects t) = set (deletedObjects t)"
proof -
  let ?ns = "getNSNameForBatch proxy bid" and ?n = "workspaceNamespace proxy clientWorkspace"
  let ?t = "modulePlan (ku_quantities (px_kube proxy)) ?ns clientBuild
    @ [CreateDeployment ?ns (plannedDeployment ?ns clientBuild limits requests)]
    @ [GetDeployment ?ns mid, GetDeployment ?ns mid] @ disposePlan ?ns mid (moduleVolumes clientBuild)"
  let ?client = "\<lambda>cmd. client_main ord fm Dial (proxyClient proxy) [prog, addr, cmd]"
  let ?cmds = "[''PrepareWorkspace'', ''RunBalticModule'', ''CheckBalticModuleStatus'', ''DisposeBalticModule'', ''PurgeWorkspace'']"
  have name: "kn_Name ?n = ?ns" by (simp add: workspaceNamespace_def Let_def client_ids)
  note ok = run_client_ok [where ord = ord and fm = fm and prog = prog and Dial = Dial and addr = addr and s = s, OF _ assms(2)]
  obtain r1 r2 r3 r4 r5 h1 h2 h3 h4 h5 where
    r: "run_state (serveRpc proxy (RpcPrepareWorkspace clientWorkspace)) (ps_kube s) = (Ret (r1, None), h1)"
      "run_state (serveRpc proxy (RpcRunBalticModule clientBuild)) h1 = (Ret (r2, None), h2)"
      "run_state (serveRpc proxy (RpcCheckBalticModuleStatus clientModule)) h2 = (Ret (r3, None), h3)"
      "run_state (serveRpc proxy (RpcDisposeBalticModule clientModule)) h3 = (Ret (r4, None), h4)"
      "run_state (serveRpc proxy (RpcPurgeWorkspace clientBatch)) h4 = (Ret (r5, None), h5)"
    and h5: "h5 = ps_kube s @ CreateNamespace ?n # ?t @ [DeleteNamespace (kn_Name ?n)]"
    using lifecycle_served [OF assms(1) refl assms(3) refl refl refl refl refl, of "ps_kube s"] by (auto simp: name)
  obtain o1 o2 o3 o4 o5 where outs:
    "run_state (?client ''PrepareWorkspace'') (s\<lparr>ps_kube := ps_kube s\<rparr>) = (Exited 0 o1 [], s\<lparr>ps_kube := h1\<rparr>)"
    "run_state (?client ''RunBalticModule'') (s\<lparr>ps_kube := h1\<rparr>) = (Exited 0 o2 [], s\<lparr>ps_kube := h2\<rparr>)"
    "run_state (?client ''CheckBalticModuleStatus'') (s\<lparr>ps_kube := h2\<rparr>) = (Exited 0 o3 [], s\<lparr>ps_kube := h3\<rparr>)"
    "run_state (?client ''DisposeBalticModule'') (s\<lparr>ps_kube := h3\<rparr>) = (Exited 0 o4 [], s\<lparr>ps_kube := h4\<rparr>)"
    "run_state (?client ''PurgeWorkspace'') (s\<lparr>ps_kube := h4\<rparr>) = (Exited 0 o5 [], s\<lparr>ps_kube := h5\<rparr>)"
    using ok [OF clientRpc_simps(1) r(1)] ok [OF clientRpc_simps(2) r(2)] ok [OF clientRpc_simps(3) r(3)]
      ok [OF clientRpc_simps(4) r(4)] ok [OF clientRpc_simps(5) r(5)] by blast
  have s: "s\<lparr>ps_kube := ps_kube s\<rparr> = s" by simp
  have "run_state (session ?client ?cmds) s = (map (\<lambda>out. Exited 0 out []) [o1, o2, o3, o4, o5], s\<lparr>ps_kube := h5\<rparr>)"
    by (simp only: session.simps outs [unfolded s] run_state_bind run_state_return prod.case list.map)
  moreover have "kn_Name ?n = px_projectName proxy @ ''-'' @ bid" by (simp add: name getNSNameForBatch_def)
  moreover have "list_all (inNamespace (kn_Name ?n)) ?t" "set (createdObjects ?t) = set (deletedObjects ?t)"
    using lifecycle_balanced [of ?t "ku_quantities (px_kube proxy)" ?ns clientBuild limits requests]
    by (simp_all only: name client_ids)
  ultimately show ?thesis unfolding h5 by metis
qed

definition demo_fmt :: client_fmt where
  "demo_fmt = \<lparr>fm_reply = (\<lambda>r. statusName (cs_Status r)), fm_MarshalIndent = (\<lambda>d. Inr ''{}'')\<rparr>"

lemma demo_live_obliging: "obliging demo_live"
  by (auto simp: obliging_def demo_live_def demo_kube_def)

lemma demo_client_resources:
  "moduleResources (ku_quantities (px_kube (demo_proxy demo_live))) (getResources clientBuild) =
     Ret ([(''cpu'', 100), (''memory'', 134217728000), (''nvidia.com/gpu'', 0)], [(''cpu'', 100), (''memory'', 134217728000)])"
  unfolding demo_proxy_sel demo_live_sel by code_simp

theorem client_lifecycle_witness:
  "\<exists>outs s'. run_state (session (\<lambda>cmd. client_main rev demo_fmt (\<lambda>addr. None) (proxyClient (demo_proxy demo_live)) [''client'', ''localhost:50051'', cmd])
        [''PrepareWorkspace'', ''RunBalticModule'', ''CheckBalticModuleStatus'', ''DisposeBalticModule'', ''PurgeWorkspace''])
        \<lparr>ps_http = [], ps_kube = []\<rparr> = (map (\<lambda>out. Exited 0 out []) outs, s')"
  using client_lifecycle [of "demo_proxy demo_live" "\<lambda>addr. None" "''localhost:50051''", OF _ refl demo_client_resources]
    demo_live_obliging by fastforce

theorem client_exit_code_witness:
  "\<exists>p s'. run_state (client_main rev demo_fmt (\<lambda>addr. None) (proxyClient (demo_proxy (demo_kube (\<lambda>q. True) Map.empty Map.empty [])))
      [''client'', ''localhost:50051'', ''PurgeWorkspace'']) \<lparr>ps_http = [], ps_kube = []\<rparr> = (p, s') \<and> \<not> (\<exists>out. p = Exited 0 out [])"
proof -
  let ?proxy = "demo_proxy (demo_kube (\<lambda>q. True) Map.empty Map.empty [])"
  let ?run = "run_state (client_main rev demo_fmt (\<lambda>addr. None) (proxyClient ?proxy) [''client'', ''localhost:50051'', ''PurgeWorkspace''])
    \<lparr>ps_http = [], ps_kube = []\<rparr>"
  obtain p s' where run: "?run = (p, s')" by (metis prod.exhaust)
  have "fst (run_state (serveRpc ?proxy (RpcPurgeWorkspace clientBatch)) []) \<noteq> Ret (resp, None)" for resp
    by (simp add: PurgeWorkspace_def respond_def)
  with client_exit_code [OF clientRpc_simps(5) _ run] run show ?thesis by auto
qed

lemma bad_command_line_witness:
  "fst (run_state (client_main rev demo_fmt (\<lambda>addr. None) (proxyClient (demo_proxy demo_live)) [''client'', ''localhost:50051'']) \<lparr>ps_http = [], ps_kube = []\<rparr>)
     = Crashed ''index out of range''"
  using bad_command_line [of "[''client'', ''localhost:50051'']" rev demo_fmt "\<lambda>addr. None" "proxyClient (demo_proxy demo_live)" "\<lparr>ps_http = [], ps_kube = []\<rparr>"]
  by simp

end
