(* ===== verification/Proxy_Store.thy ===== *)
theory Proxy_Store
  imports Proxy_Cluster
begin

text \<open>
  An API server that keeps objects: which objects there are is determined by the calls it answered.
  Sequences of creations and deletions on it, and the objects of a module.
\<close>

section \<open>A server that keeps objects\<close>

text \<open>
  An object is known by its kind, namespace and name; of a deployment the server keeps the volumes.
  Creating an object needs a free name in an existing namespace, deleting and reading need the
  object, and deleting a namespace deletes what is in it. A call that is not admitted changes
  nothing. Deletions are finished when the next call arrives.
\<close>

type_synonym objkey = "string \<times> string \<times> string"

type_synonym objects = "objkey \<rightharpoonup> Volume list"

fun keptVolumes :: "'q kube_req \<Rightarrow> Volume list" where
  "keptVolumes (CreateDeployment ns d) = de_Volumes d"
| "keptVolumes _ = []"

fun readObject :: "'q kube_req \<Rightarrow> objkey option" where
  "readObject (GetNamespace ns) = Some (''namespace'', ns, ns)"
| "readObject (GetDeployment ns n) = Some (''deployment'', ns, n)"
| "readObject _ = None"

definition mayCreate :: "objects \<Rightarrow> objkey \<Rightarrow> bool" where
  "mayCreate s k =
     (s k = None \<and> (fst k = ''namespace'' \<or> s (''namespace'', fst (snd k), fst (snd k)) \<noteq> None))"

definition admits :: "objects \<Rightarrow> 'q kube_req \<Rightarrow> bool" where
  "admits s q =
     (case createdObject q of
        Some k \<Rightarrow> mayCreate s k
      | None \<Rightarrow>
          (case deletedObject q of
             Some k \<Rightarrow> s k \<noteq> None
           | None \<Rightarrow> (case readObject q of Some k \<Rightarrow> s k \<noteq> None | None \<Rightarrow> True)))"

definition removeObject :: "objects \<Rightarrow> objkey \<Rightarrow> objects" where
  "removeObject s k =
     (if fst k = ''namespace'' then (\<lambda>j. if fst (snd j) = fst (snd k) then None else s j) else s(k := None))"

definition stepObjects :: "objects \<Rightarrow> 'q kube_req \<Rightarrow> objects" where
  "stepObjects s q =
     (if \<not> admits s q then s
      else case createdObject q of
          Some k \<Rightarrow> s(k \<mapsto> keptVolumes q)
        | None \<Rightarrow> (case deletedObject q of Some k \<Rightarrow> removeObject s k | None \<Rightarrow> s))"

definition objectsAfter :: "objects \<Rightarrow> 'q kube_req list \<Rightarrow> objects" where
  "objectsAfter s h = foldl stepObjects s h"

lemma objectsAfter_simps [simp]:
  "objectsAfter s [] = s"
  "objectsAfter s (q # h) = objectsAfter (stepObjects s q) h"
  "objectsAfter s (h @ g) = objectsAfter (objectsAfter s h) g"
  by (simp_all add: objectsAfter_def)

text \<open>The answers of such a server; a read that finds nothing gives an empty object with its error.\<close>

definition keepsObjects :: "'q kube \<Rightarrow> objects \<Rightarrow> bool" where
  "keepsObjects kube s \<longleftrightarrow>
     (\<forall>h q. ku_done kube h q = None \<longleftrightarrow> admits (objectsAfter s h) q) \<and>
     (\<forall>h q. fst (ku_namespace kube h q) \<noteq> None \<and>
        (snd (ku_namespace kube h q) = None \<longleftrightarrow> admits (objectsAfter s h) q)) \<and>
     (\<forall>h q. fst (ku_deployment kube h q) \<noteq> None \<and>
        (snd (ku_deployment kube h q) = None \<longleftrightarrow> admits (objectsAfter s h) q)) \<and>
     (\<forall>h ns n. de_Volumes (the (fst (ku_deployment kube h (GetDeployment ns n)))) =
        (case objectsAfter s h (''deployment'', ns, n) of None \<Rightarrow> [] | Some vols \<Rightarrow> vols))"

lemma keepsObjectsD:
  assumes "keepsObjects kube s"
  shows "ku_done kube h q = None \<longleftrightarrow> admits (objectsAfter s h) q"
    and "\<exists>n e. ku_namespace kube h q = (Some n, e) \<and> (e = None \<longleftrightarrow> admits (objectsAfter s h) q)"
    and "\<exists>d e. ku_deployment kube h q = (Some d, e) \<and> (e = None \<longleftrightarrow> admits (objectsAfter s h) q)"
proof -
  show "ku_done kube h q = None \<longleftrightarrow> admits (objectsAfter s h) q"
    using assms by (simp add: keepsObjects_def)
  show "\<exists>n e. ku_namespace kube h q = (Some n, e) \<and> (e = None \<longleftrightarrow> admits (objectsAfter s h) q)"
    using assms unfolding keepsObjects_def by (metis not_Some_eq prod.collapse)
  show "\<exists>d e. ku_deployment kube h q = (Some d, e) \<and> (e = None \<longleftrightarrow> admits (objectsAfter s h) q)"
    using assms unfolding keepsObjects_def by (metis not_Some_eq prod.collapse)
qed

lemma keepsObjects_read:
  assumes "keepsObjects kube s"
  obtains d e where "ku_deployment kube h (GetDeployment ns n) = (Some d, e)"
    and "e = None \<longleftrightarrow> objectsAfter s h (''deployment'', ns, n) \<noteq> None"
    and "de_Volumes d = (case objectsAfter s h (''deployment'', ns, n) of None \<Rightarrow> [] | Some vols \<Rightarrow> vols)"
proof -
  obtain d e where de: "ku_deployment kube h (GetDeployment ns n) = (Some d, e)"
      "e = None \<longleftrightarrow> admits (objectsAfter s h) (GetDeployment ns n :: 'a kube_req)"
    using keepsObjectsD(3) [OF assms] by blast
  have "de_Volumes (the (fst (ku_deployment kube h (GetDeployment ns n)))) =
      (case objectsAfter s h (''deployment'', ns, n) of None \<Rightarrow> [] | Some vols \<Rightarrow> vols)"
    using assms unfolding keepsObjects_def by blast
  with de show ?thesis by (intro that) (auto simp: admits_def)
qed

section \<open>Creating and deleting one after the other\<close>

text \<open>Creations of distinct new objects in one existing namespace are all accepted.\<close>

definition creates :: "string \<Rightarrow> 'q kube_req \<Rightarrow> bool" where
  "creates ns q \<longleftrightarrow> (\<exists>k n. createdObject q = Some (k, ns, n) \<and> k \<noteq> ''namespace'') \<and> keptVolumes q = []"

lemma tryAll_creates:
  assumes "keepsObjects kube s" and "list_all (creates ns) qs" and "distinct (createdObjects qs)"
    and "\<And>k. k \<in> set (createdObjects qs) \<Longrightarrow> objectsAfter s h k = None"
    and "objectsAfter s h (''namespace'', ns, ns) \<noteq> None"
  shows "run_state (tryAll (ku_done kube) qs) h = (None, h @ qs) \<and>
    objectsAfter s (h @ qs) = (\<lambda>k. if k \<in> set (createdObjects qs) then Some [] else objectsAfter s h k)"
  using assms(2-5)
proof (induction qs arbitrary: h)
  case Nil
  then show ?case by simp
next
  case (Cons q qs)
  obtain kind n where q: "createdObject q = Some (kind, ns, n)" "kind \<noteq> ''namespace''" "keptVolumes q = []"
    using Cons.prems(1) by (auto simp: creates_def)
  have adm: "admits (objectsAfter s h) q"
    using Cons.prems(3,4) q by (auto simp: admits_def mayCreate_def)
  then have ok: "ku_done kube h q = None" using keepsObjectsD(1) [OF assms(1)] by blast
  have step: "stepObjects (objectsAfter s h) q = (objectsAfter s h)((kind, ns, n) \<mapsto> [])"
    using adm q by (simp add: stepObjects_def)
  have "run_state (tryAll (ku_done kube) qs) (h @ [q]) = (None, (h @ [q]) @ qs) \<and>
    objectsAfter s ((h @ [q]) @ qs) =
      (\<lambda>k. if k \<in> set (createdObjects qs) then Some [] else objectsAfter s (h @ [q]) k)"
  proof (rule Cons.IH)
    show "objectsAfter s (h @ [q]) k = None" if "k \<in> set (createdObjects qs)" for k
      using that Cons.prems(2,3) q step by auto
    show "objectsAfter s (h @ [q]) (''namespace'', ns, ns) \<noteq> None"
      using Cons.prems(4) q step by simp
  qed (use Cons.prems q in auto)
  with ok q step show ?case by auto
qed

text \<open>Deletions of distinct objects that are there are all accepted.\<close>

definition deletes :: "'q kube_req \<Rightarrow> bool" where
  "deletes q \<longleftrightarrow> createdObject q = None \<and> (\<exists>k ns n. deletedObject q = Some (k, ns, n) \<and> k \<noteq> ''namespace'')"

lemma callAll_deletes:
  assumes "keepsObjects kube s" and "list_all deletes qs" and "distinct (deletedObjects qs)"
    and "\<And>k. k \<in> set (deletedObjects qs) \<Longrightarrow> objectsAfter s h k \<noteq> None"
  shows "run_state (callAll (ku_done kube) qs) h = (map (\<lambda>q. None) qs, h @ qs) \<and>
    objectsAfter s (h @ qs) = (\<lambda>k. if k \<in> set (deletedObjects qs) then None else objectsAfter s h k)"
  using assms(2-4)
proof (induction qs arbitrary: h)
  case Nil
  then show ?case by simp
next
  case (Cons q qs)
  obtain key where q: "createdObject q = None" "deletedObject q = Some key" "fst key \<noteq> ''namespace''"
    using Cons.prems(1) by (auto simp: deletes_def)
  have adm: "admits (objectsAfter s h) q"
    using Cons.prems(3) q by (auto simp: admits_def)
  then have ok: "ku_done kube h q = None" using keepsObjectsD(1) [OF assms(1)] by blast
  have step: "stepObjects (objectsAfter s h) q = (objectsAfter s h)(key := None)"
    using adm q by (simp add: stepObjects_def removeObject_def)
  have "run_state (callAll (ku_done kube) qs) (h @ [q]) = (map (\<lambda>q. None) qs, (h @ [q]) @ qs) \<and>
    objectsAfter s ((h @ [q]) @ qs) =
      (\<lambda>k. if k \<in> set (deletedObjects qs) then None else objectsAfter s (h @ [q]) k)"
  proof (rule Cons.IH)
    show "objectsAfter s (h @ [q]) k \<noteq> None" if "k \<in> set (deletedObjects qs)" for k
      using that Cons.prems(2,3) q step by auto
  qed (use Cons.prems q in auto)
  with ok q step show ?case by auto
qed

section \<open>The objects of a module\<close>

text \<open>What the objects of a module depend on: the number of its volumes and whether it has files.\<close>

type_synonym shape = "nat \<times> bool"

definition moduleShape :: "XBalticModuleBuild \<Rightarrow> shape" where
  "moduleShape msg = (length (mb_Volumes msg), mb_ConfigFiles msg \<noteq> [])"

definition moduleKeys :: "string \<Rightarrow> string \<Rightarrow> shape \<Rightarrow> objkey list" where
  "moduleKeys ns moduleId shape =
     map (\<lambda>i. (''persistentvolumeclaim'', ns, getVolumeName moduleId i)) [0 ..< fst shape]
       @ (if snd shape then [(''configmap'', ns, moduleId)] else [])
       @ [(''service'', ns, moduleId), (''deployment'', ns, moduleId)]"

definition shapeVolumes :: "string \<Rightarrow> shape \<Rightarrow> Volume list" where
  "shapeVolumes moduleId shape =
     claimVolumes moduleId 0 (fst shape) @ (if snd shape then [configVolume moduleId] else [])"

lemma moduleVolumes_shape: "moduleVolumes msg = shapeVolumes (mb_ModuleId msg) (moduleShape msg)"
  by (simp add: moduleVolumes_def shapeVolumes_def moduleShape_def)

lemma keys_created:
  "createdObjects (modulePlan qa ns msg) @ [(''deployment'', ns, mb_ModuleId msg)]
     = moduleKeys ns (mb_ModuleId msg) (moduleShape msg)"
  by (simp add: modulePlan_def moduleKeys_def moduleShape_def created_claims filePlan_def configMap_def
      moduleService_def getServiceName_def)

lemma modulePlan_creates: "list_all (creates ns) (modulePlan qa ns msg)"
  by (auto simp: modulePlan_def creates_def list_all_iff claimPlan_requests filePlan_def)

lemma keys_distinct: "distinct (moduleKeys ns moduleId shape)"
  by (auto simp: moduleKeys_def distinct_map inj_on_def getVolumeName_inj)

lemma fmt_nat_plain: "CHR ''-'' \<notin> set (fmt_d (int n))"
  using dec_digits_digits [of "CHR ''-''" n] minus_not_digit by (auto simp: fmt_d_def)

lemma getVolumeName_module: "getVolumeName m i = getVolumeName m' j \<Longrightarrow> m = m'"
proof -
  have last: "takeWhile (\<lambda>c. c \<noteq> CHR ''-'') (rev (getVolumeName k n)) = rev (fmt_d (int n))" for k n
    unfolding getVolumeName_def using fmt_nat_plain [of n] by (simp, subst takeWhile_append2) auto
  assume eq: "getVolumeName m i = getVolumeName m' j"
  then have "fmt_d (int i) = fmt_d (int j)" using last [of m i] last [of m' j] by simp
  with eq show "m = m'" by (simp add: getVolumeName_def)
qed

lemma keys_disjoint:
  "k \<in> set (moduleKeys ns m shape) \<Longrightarrow> k \<in> set (moduleKeys ns m' shape') \<Longrightarrow> m = m'"
  by (auto simp: moduleKeys_def dest: getVolumeName_module split: if_splits)

lemma keys_namespace: "(kind, ns', n) \<in> set (moduleKeys ns m shape) \<Longrightarrow> ns' = ns \<and> kind \<noteq> ''namespace''"
  by (auto simp: moduleKeys_def split: if_splits)

lemma keys_deployment [simp]:
  "(''deployment'', ns, n) \<in> set (moduleKeys ns m shape) \<longleftrightarrow> n = m"
  "(''service'', ns, n) \<in> set (moduleKeys ns m shape) \<longleftrightarrow> n = m"
  by (auto simp: moduleKeys_def)

lemma keys_deleted:
  fixes ns moduleId shape
  defines "plan \<equiv> disposePlan ns moduleId (shapeVolumes moduleId shape) :: 'q kube_req list"
  shows "set (deletedObjects plan) = set (moduleKeys ns moduleId shape)"
    and "distinct (deletedObjects plan)" and "list_all deletes plan"
proof -
  have files: "List.map_filter (volumeDelete ns) (if snd shape then [configVolume moduleId] else []) =
      (if snd shape then [DeleteConfigMap ns moduleId :: 'q kube_req] else [])"
    by (simp add: configVolume_def map_filter_simps)
  have objects: "deletedObjects plan =
      [(''deployment'', ns, moduleId), (''service'', ns, moduleId)]
        @ map (\<lambda>i. (''persistentvolumeclaim'', ns, getVolumeName moduleId i)) [0 ..< fst shape]
        @ (if snd shape then [(''configmap'', ns, moduleId)] else [])"
    by (simp add: plan_def disposePlan_def shapeVolumes_def map_filter_append files claimVolumes_def
        deleted_claims getServiceName_def)
  show "set (deletedObjects plan) = set (moduleKeys ns moduleId shape)"
    unfolding objects moduleKeys_def by auto
  show "distinct (deletedObjects plan)"
    unfolding objects by (auto simp: distinct_map inj_on_def getVolumeName_inj)
  have "list_all deletes (List.map_filter (volumeDelete ns) vols :: 'q kube_req list)" for vols
    by (induction vols) (auto simp: map_filter_simps deletes_def)
  then show "list_all deletes plan" by (simp add: plan_def disposePlan_def deletes_def)
qed

end
