(* ===== verification/Proxy_Manager.thy ===== *)
theory Proxy_Manager
  imports Proxy_Store
begin

text \<open>
  The calls of the cluster proxy, on a server that keeps objects, implement an abstract manager of
  workspaces whose state is the set of prepared batches and the set of running modules.
\<close>

section \<open>The workspace manager\<close>

text \<open>
  The abstract specification of the service: which batches are prepared and which modules run in
  them. A call succeeds or is refused, and a refused call changes nothing.
\<close>

record Workspaces =
  ws_batches :: "string set"
  ws_modules :: "(string \<times> string) set"

fun manage :: "rpc \<Rightarrow> Workspaces \<Rightarrow> bool \<times> Workspaces" where
  "manage (RpcPrepareWorkspace msg) w =
     (if xw_BatchId msg \<in> ws_batches w then (False, w)
      else (True, w\<lparr>ws_batches := insert (xw_BatchId msg) (ws_batches w)\<rparr>))"
| "manage (RpcCheckWorkspaceStatus msg) w = (bi_Id msg \<in> ws_batches w, w)"
| "manage (RpcPurgeWorkspace msg) w =
     (if bi_Id msg \<in> ws_batches w
      then (True, w\<lparr>ws_batches := ws_batches w - {bi_Id msg}, ws_modules := {bm \<in> ws_modules w. fst bm \<noteq> bi_Id msg}\<rparr>)
      else (False, w))"
| "manage (RpcRunBalticModule msg) w =
     (if mb_BatchId msg \<in> ws_batches w \<and> (mb_BatchId msg, mb_ModuleId msg) \<notin> ws_modules w
      then (True, w\<lparr>ws_modules := insert (mb_BatchId msg, mb_ModuleId msg) (ws_modules w)\<rparr>)
      else (False, w))"
| "manage (RpcCheckBalticModuleStatus msg) w = ((mo_BatchId msg, mo_ModuleId msg) \<in> ws_modules w, w)"
| "manage (RpcDisposeBalticModule msg) w =
     (if (mo_BatchId msg, mo_ModuleId msg) \<in> ws_modules w
      then (True, w\<lparr>ws_modules := ws_modules w - {(mo_BatchId msg, mo_ModuleId msg)}\<rparr>)
      else (False, w))"

definition succeeded :: "rpc_reply \<Rightarrow> bool" where
  "succeeded r = (case r of Ret (resp, None) \<Rightarrow> True | _ \<Rightarrow> False)"

lemma succeeded_simps [simp]:
  "succeeded (respond code m None)" "\<not> succeeded (respond code m (Some e))"
  "\<not> succeeded (Panic p)" "succeeded (Ret (resp, None))" "\<not> succeeded (Ret (resp, Some e))"
  by (simp_all add: succeeded_def respond_def)

text \<open>
  The objects represent a state when the batches have their namespaces, and what is in these
  namespaces are exactly the objects of the running modules, whose deployments show their volumes.
\<close>

abbreviation nsKey :: "'q ClusterProxyConf \<Rightarrow> string \<Rightarrow> objkey" where
  "nsKey proxy b \<equiv> (''namespace'', getNSNameForBatch proxy b, getNSNameForBatch proxy b)"

definition represents :: "'q ClusterProxyConf \<Rightarrow> (string \<times> string \<Rightarrow> shape) \<Rightarrow> objects \<Rightarrow> Workspaces \<Rightarrow> bool" where
  "represents proxy shape s w \<longleftrightarrow>
     (\<forall>b. s (nsKey proxy b) \<noteq> None \<longleftrightarrow> b \<in> ws_batches w) \<and>
     (\<forall>b k n. k \<noteq> ''namespace'' \<longrightarrow>
        (s (k, getNSNameForBatch proxy b, n) \<noteq> None \<longleftrightarrow>
         (\<exists>m. (b, m) \<in> ws_modules w \<and>
            (k, getNSNameForBatch proxy b, n) \<in> set (moduleKeys (getNSNameForBatch proxy b) m (shape (b, m)))))) \<and>
     (\<forall>b m. (b, m) \<in> ws_modules w \<longrightarrow> b \<in> ws_batches w \<and>
        s (''deployment'', getNSNameForBatch proxy b, m) = Some (shapeVolumes m (shape (b, m))))"

lemma representsI:
  assumes "\<And>b. s (nsKey proxy b) \<noteq> None \<longleftrightarrow> b \<in> ws_batches w"
    and "\<And>b k n. k \<noteq> ''namespace'' \<Longrightarrow> s (k, getNSNameForBatch proxy b, n) \<noteq> None \<longleftrightarrow>
         (\<exists>m. (b, m) \<in> ws_modules w \<and>
            (k, getNSNameForBatch proxy b, n) \<in> set (moduleKeys (getNSNameForBatch proxy b) m (shape (b, m))))"
    and "\<And>b m. (b, m) \<in> ws_modules w \<Longrightarrow> b \<in> ws_batches w \<and>
        s (''deployment'', getNSNameForBatch proxy b, m) = Some (shapeVolumes m (shape (b, m)))"
  shows "represents proxy shape s w"
  using assms unfolding represents_def by blast

lemma representsD:
  assumes "represents proxy shape s w"
  shows "s (nsKey proxy b) \<noteq> None \<longleftrightarrow> b \<in> ws_batches w"
    and "k \<noteq> ''namespace'' \<Longrightarrow> s (k, getNSNameForBatch proxy b, n) \<noteq> None \<longleftrightarrow>
         (\<exists>m. (b, m) \<in> ws_modules w \<and>
            (k, getNSNameForBatch proxy b, n) \<in> set (moduleKeys (getNSNameForBatch proxy b) m (shape (b, m))))"
    and "(b, m) \<in> ws_modules w \<Longrightarrow> b \<in> ws_batches w \<and>
        s (''deployment'', getNSNameForBatch proxy b, m) = Some (shapeVolumes m (shape (b, m)))"
  using assms unfolding represents_def by simp_all

lemma namespace_inj [simp]: "getNSNameForBatch proxy b = getNSNameForBatch proxy c \<longleftrightarrow> b = c"
  by (simp add: getNSNameForBatch_def)

lemma represents_prepare:
  assumes "represents proxy shape s w"
  shows "represents proxy shape (s(nsKey proxy b \<mapsto> vols)) (w\<lparr>ws_batches := insert b (ws_batches w)\<rparr>)"
  by (rule representsI) (use representsD [OF assms] in auto)

lemma represents_purge:
  assumes "represents proxy shape s w"
  shows "represents proxy shape (removeObject s (nsKey proxy b))
    (w\<lparr>ws_batches := ws_batches w - {b}, ws_modules := {bm \<in> ws_modules w. fst bm \<noteq> b}\<rparr>)"
    (is "represents proxy shape ?s ?w")
proof (rule representsI)
  fix c
  show "?s (nsKey proxy c) \<noteq> None \<longleftrightarrow> c \<in> ws_batches ?w"
    using representsD(1) [OF assms, of c] by (simp add: removeObject_def)
next
  fix c k n assume "k \<noteq> ''namespace''"
  from representsD(2) [OF assms this, of c n]
  show "?s (k, getNSNameForBatch proxy c, n) \<noteq> None \<longleftrightarrow>
      (\<exists>m. (c, m) \<in> ws_modules ?w \<and>
        (k, getNSNameForBatch proxy c, n) \<in> set (moduleKeys (getNSNameForBatch proxy c) m (shape (c, m))))"
    by (simp add: removeObject_def)
next
  fix c m assume "(c, m) \<in> ws_modules ?w"
  with representsD(3) [OF assms, of c m]
  show "c \<in> ws_batches ?w \<and> ?s (''deployment'', getNSNameForBatch proxy c, m) = Some (shapeVolumes m (shape (c, m)))"
    by (simp add: removeObject_def)
qed

lemma keys_of_batch:
  "(k, getNSNameForBatch proxy c, n) \<in> set (moduleKeys (getNSNameForBatch proxy b) m sh) \<longleftrightarrow>
    c = b \<and> (k, getNSNameForBatch proxy c, n) \<in> set (moduleKeys (getNSNameForBatch proxy c) m sh)"
  using keys_namespace [of k "getNSNameForBatch proxy c" n "getNSNameForBatch proxy b" m sh] by auto

lemma keys_of_batch_namespace: "nsKey proxy c \<notin> set (moduleKeys (getNSNameForBatch proxy b) m sh)"
  by (auto dest: keys_namespace)

lemma keys_of_batch_deployment:
  "(''deployment'', getNSNameForBatch proxy c, m') \<in> set (moduleKeys (getNSNameForBatch proxy b) m sh)
     \<longleftrightarrow> (c, m') = (b, m)"
  by (subst keys_of_batch) auto

lemma represents_run:
  assumes "represents proxy shape s w" and "b \<in> ws_batches w" and "(b, m) \<notin> ws_modules w"
    and s': "s' = (\<lambda>k. if k = (''deployment'', getNSNameForBatch proxy b, m) then Some (shapeVolumes m (shape (b, m)))
        else if k \<in> set (moduleKeys (getNSNameForBatch proxy b) m (shape (b, m))) then Some [] else s k)"
  shows "represents proxy shape s' (w\<lparr>ws_modules := insert (b, m) (ws_modules w)\<rparr>)" (is "represents proxy shape s' ?w")
proof (rule representsI)
  fix c
  show "s' (nsKey proxy c) \<noteq> None \<longleftrightarrow> c \<in> ws_batches ?w"
    using representsD(1) [OF assms(1), of c] keys_of_batch_namespace [of proxy c b m] s' by simp
next
  fix c :: string and k n :: string
  assume k: "k \<noteq> ''namespace''"
  let ?key = "(k, getNSNameForBatch proxy c, n) :: objkey" and ?keys = "set (moduleKeys (getNSNameForBatch proxy b) m (shape (b, m)))"
  have "s' ?key \<noteq> None \<longleftrightarrow> ?key \<in> ?keys \<or> s ?key \<noteq> None"
    using keys_of_batch_deployment [of proxy b m b m] by (auto simp: s')
  then show "s' ?key \<noteq> None \<longleftrightarrow> (\<exists>m'. (c, m') \<in> ws_modules ?w \<and>
      ?key \<in> set (moduleKeys (getNSNameForBatch proxy c) m' (shape (c, m'))))"
    unfolding representsD(2) [OF assms(1) k] keys_of_batch [of k proxy c n b] by (cases "c = b") (simp, blast, simp)
next
  fix c m' assume "(c, m') \<in> ws_modules ?w"
  then consider "c = b" "m' = m" | "(c, m') \<in> ws_modules w" "(c, m') \<noteq> (b, m)" by auto
  then show "c \<in> ws_batches ?w \<and>
      s' (''deployment'', getNSNameForBatch proxy c, m') = Some (shapeVolumes m' (shape (c, m')))"
  proof cases
    case 1
    then show ?thesis using assms(2) s' by simp
  next
    case 2
    then show ?thesis
      using representsD(3) [OF assms(1) 2(1)] keys_of_batch_deployment [of proxy c m' b m] unfolding s' by auto
  qed
qed

lemma represents_dispose:
  assumes "represents proxy shape s w" and "(b, m) \<in> ws_modules w"
    and s': "s' = (\<lambda>k. if k \<in> set (moduleKeys (getNSNameForBatch proxy b) m (shape (b, m))) then None else s k)"
  shows "represents proxy shape s' (w\<lparr>ws_modules := ws_modules w - {(b, m)}\<rparr>)" (is "represents proxy shape s' ?w")
proof (rule representsI)
  fix c
  show "s' (nsKey proxy c) \<noteq> None \<longleftrightarrow> c \<in> ws_batches ?w"
    using representsD(1) [OF assms(1), of c] keys_of_batch_namespace [of proxy c b m] s' by simp
next
  fix c :: string and k n :: string
  assume k: "k \<noteq> ''namespace''"
  let ?key = "(k, getNSNameForBatch proxy c, n) :: objkey" and ?keys = "set (moduleKeys (getNSNameForBatch proxy b) m (shape (b, m)))"
  have other: "m' = m" if "?key \<in> set (moduleKeys (getNSNameForBatch proxy c) m (shape (c, m)))"
      "?key \<in> set (moduleKeys (getNSNameForBatch proxy c) m' (shape (c, m')))" for m'
    using keys_disjoint [OF that(2,1)] .
  have "s' ?key \<noteq> None \<longleftrightarrow> ?key \<notin> ?keys \<and> s ?key \<noteq> None" by (simp add: s')
  then show "s' ?key \<noteq> None \<longleftrightarrow> (\<exists>m'. (c, m') \<in> ws_modules ?w \<and>
      ?key \<in> set (moduleKeys (getNSNameForBatch proxy c) m' (shape (c, m'))))"
    unfolding representsD(2) [OF assms(1) k] keys_of_batch [of k proxy c n b]
    using other by (cases "c = b") (simp, blast, simp)
next
  fix c m' assume "(c, m') \<in> ws_modules ?w"
  then have old: "(c, m') \<in> ws_modules w" "(c, m') \<noteq> (b, m)" by auto
  then show "c \<in> ws_batches ?w \<and>
      s' (''deployment'', getNSNameForBatch proxy c, m') = Some (shapeVolumes m' (shape (c, m')))"
    using representsD(3) [OF assms(1) old(1)] keys_of_batch_deployment [of proxy c m' b m] unfolding s' by simp
qed

section \<open>Each call implements its abstract call\<close>

text \<open>
  A call fits when its module always has the same shape and its resources can be written as
  quantities, which \<open>MustParse\<close> panics on otherwise.
\<close>

fun callFits :: "'q quantities \<Rightarrow> (string \<times> string \<Rightarrow> shape) \<Rightarrow> rpc \<Rightarrow> bool" where
  "callFits qa shape (RpcRunBalticModule msg) =
     (shape (mb_BatchId msg, mb_ModuleId msg) = moduleShape msg \<and>
      (case moduleResources qa (getResources msg) of Panic m \<Rightarrow> False | Ret r \<Rightarrow> True))"
| "callFits qa shape _ = True"

definition workspaceRel :: "'q ClusterProxyConf \<Rightarrow> (string \<times> string \<Rightarrow> shape) \<Rightarrow> objects
    \<Rightarrow> 'q kube_req list \<Rightarrow> Workspaces \<Rightarrow> bool" where
  "workspaceRel proxy shape s h w \<longleftrightarrow> keepsObjects (px_kube proxy) s \<and> represents proxy shape (objectsAfter s h) w"

definition simulates :: "'q ClusterProxyConf \<Rightarrow> (string \<times> string \<Rightarrow> shape) \<Rightarrow> objects
    \<Rightarrow> 'q kube_req list \<Rightarrow> Workspaces \<Rightarrow> rpc \<Rightarrow> bool" where
  "simulates proxy shape s h w c \<longleftrightarrow>
     succeeded (fst (run_state (serveRpc proxy c) h)) = fst (manage c w) \<and>
     represents proxy shape (objectsAfter s (snd (run_state (serveRpc proxy c) h))) (snd (manage c w))"

lemma workspace_calls_simulate:
  assumes kube: "keepsObjects (px_kube proxy) s" and rep: "represents proxy shape (objectsAfter s h) w"
  shows "simulates proxy shape s h w (RpcPrepareWorkspace msg)"
    and "simulates proxy shape s h w (RpcCheckWorkspaceStatus b)"
    and "simulates proxy shape s h w (RpcPurgeWorkspace b)"
proof -
  let ?n = "workspaceNamespace proxy msg"
  have name: "kn_Name ?n = getNSNameForBatch proxy (xw_BatchId msg)"
    by (simp add: workspaceNamespace_def Let_def)
  obtain x e where create: "ku_namespace (px_kube proxy) h (CreateNamespace ?n) = (Some x, e)"
      "e = None \<longleftrightarrow> admits (objectsAfter s h) (CreateNamespace ?n :: 'a kube_req)"
    using keepsObjectsD(2) [OF kube] by blast
  then have adm: "e = None \<longleftrightarrow> xw_BatchId msg \<notin> ws_batches w"
    using representsD(1) [OF rep, of "xw_BatchId msg"] by (auto simp: admits_def mayCreate_def name)
  then show "simulates proxy shape s h w (RpcPrepareWorkspace msg)"
    using create rep represents_prepare [OF rep, of "xw_BatchId msg"]
    by (cases e) (simp_all add: simulates_def PrepareWorkspace_def stepObjects_def name)
next
  let ?q = "GetNamespace (getNSNameForBatch proxy (bi_Id b)) :: 'a kube_req"
  obtain x e where get: "ku_namespace (px_kube proxy) h ?q = (Some x, e)" "e = None \<longleftrightarrow> admits (objectsAfter s h) ?q"
    using keepsObjectsD(2) [OF kube] by blast
  then have "e = None \<longleftrightarrow> bi_Id b \<in> ws_batches w"
    using representsD(1) [OF rep, of "bi_Id b"] by (simp add: admits_def)
  then show "simulates proxy shape s h w (RpcCheckWorkspaceStatus b)"
    using get(1) rep by (cases e)
      (simp_all add: simulates_def CheckWorkspaceStatus_def stepObjects_def split: option.split)
next
  let ?q = "DeleteNamespace (getNSNameForBatch proxy (bi_Id b)) :: 'a kube_req"
  have adm: "admits (objectsAfter s h) ?q \<longleftrightarrow> bi_Id b \<in> ws_batches w"
    using representsD(1) [OF rep, of "bi_Id b"] by (simp add: admits_def)
  then show "simulates proxy shape s h w (RpcPurgeWorkspace b)"
    using keepsObjectsD(1) [OF kube, of h ?q] rep represents_purge [OF rep, of "bi_Id b"]
    by (cases "ku_done (px_kube proxy) h ?q") (simp_all add: simulates_def PurgeWorkspace_def stepObjects_def)
qed

text \<open>Creating only adds objects, and a run that succeeds has found all its names free.\<close>

lemma creates_keep:
  "list_all (creates ns) qs \<Longrightarrow> s k \<noteq> None \<Longrightarrow> objectsAfter s qs k = s k"
proof (induction qs arbitrary: s)
  case Nil
  then show ?case by simp
next
  case (Cons q qs)
  then have "stepObjects s q k = s k"
    by (auto simp: stepObjects_def creates_def admits_def mayCreate_def)
  with Cons show ?case by simp
qed

lemma tryAll_free:
  assumes "keepsObjects kube s" and "list_all (creates ns) qs"
    and "fst (run_state (tryAll (ku_done kube) qs) h) = None" and "k \<in> set (createdObjects qs)"
  shows "objectsAfter s h k = None"
  using assms(2-4)
proof (induction qs arbitrary: h)
  case Nil
  then show ?case by simp
next
  case (Cons q qs)
  obtain key where key: "createdObject q = Some key" using Cons.prems(1) by (auto simp: creates_def)
  have ok: "ku_done kube h q = None" using Cons.prems(2) by (auto split: option.splits)
  then have "objectsAfter s h key = None"
    using keepsObjectsD(1) [OF assms(1), of h q] key by (simp add: admits_def mayCreate_def)
  moreover have "objectsAfter s h k = None" if "k \<in> set (createdObjects qs)"
  proof (rule ccontr)
    assume "objectsAfter s h k \<noteq> None"
    moreover have "list_all (creates ns) [q]" using Cons.prems(1) by simp
    ultimately have "objectsAfter (objectsAfter s h) [q] k \<noteq> None" using creates_keep by metis
    with Cons.IH [of "h @ [q]"] Cons.prems(1,2) ok that show False by simp
  qed
  ultimately show ?case using Cons.prems(3) key by auto
qed

lemma run_succeeds_free:
  assumes "keepsObjects (px_kube proxy) s" and "succeeded (fst (run_state (RunBalticModule proxy msg) h))"
    and "k \<in> set (createdObjects (modulePlan (ku_quantities (px_kube proxy)) (getNSNameForBatch proxy (mb_BatchId msg)) msg))"
  shows "objectsAfter s h k = None"
proof -
  let ?plan = "modulePlan (ku_quantities (px_kube proxy)) (getNSNameForBatch proxy (mb_BatchId msg)) msg"
  have "fst (run_state (tryAll (ku_done (px_kube proxy)) ?plan) h) = None"
    using assms(2) unfolding RunBalticModule_runPlan
    by (cases "run_state (tryAll (ku_done (px_kube proxy)) ?plan) h") (auto simp: runPlan_def Let_def split: option.splits)
  from tryAll_free [OF assms(1) modulePlan_creates this assms(3)] show ?thesis .
qed

text \<open>A run whose first object is refused changes nothing.\<close>

lemma run_refused:
  assumes kube: "keepsObjects (px_kube proxy) s"
    and refused: "\<And>k. k \<in> set (moduleKeys (getNSNameForBatch proxy (mb_BatchId msg)) (mb_ModuleId msg) (moduleShape msg))
      \<Longrightarrow> \<not> mayCreate (objectsAfter s h) k"
  shows "\<not> succeeded (fst (run_state (RunBalticModule proxy msg) h)) \<and>
    objectsAfter s (snd (run_state (RunBalticModule proxy msg) h)) = objectsAfter s h"
proof -
  let ?ns = "getNSNameForBatch proxy (mb_BatchId msg)"
  obtain q qs where plan: "modulePlan (ku_quantities (px_kube proxy)) ?ns msg = q # qs"
    by (cases "modulePlan (ku_quantities (px_kube proxy)) ?ns msg") (simp_all add: modulePlan_def)
  have "creates ?ns q" using modulePlan_creates [of ?ns "ku_quantities (px_kube proxy)" msg] plan by simp
  then obtain k where k: "createdObject q = Some k" by (auto simp: creates_def)
  then have "k \<in> set (createdObjects (modulePlan (ku_quantities (px_kube proxy)) ?ns msg) @ [(''deployment'', ?ns, mb_ModuleId msg)])"
    using plan by simp
  then have "\<not> admits (objectsAfter s h) q"
    using refused [of k] k unfolding keys_created by (simp add: admits_def)
  moreover from this obtain e where "ku_done (px_kube proxy) h q = Some e"
    using keepsObjectsD(1) [OF kube, of h q] by auto
  ultimately show ?thesis
    unfolding RunBalticModule_runPlan by (simp add: runPlan_def Let_def plan stepObjects_def)
qed

text \<open>The objects of a module that does not run are not there.\<close>

lemma module_free:
  assumes "represents proxy shape s w" and "(b, m) \<notin> ws_modules w"
    and "k \<in> set (moduleKeys (getNSNameForBatch proxy b) m sh)"
  shows "s k = None"
proof -
  obtain kind ns n where k: "k = (kind, ns, n)" by (metis prod.exhaust)
  with assms(3) have ns: "ns = getNSNameForBatch proxy b" "kind \<noteq> ''namespace''"
    by (auto dest: keys_namespace)
  have "s (kind, getNSNameForBatch proxy b, n) = None"
  proof (rule ccontr)
    assume "s (kind, getNSNameForBatch proxy b, n) \<noteq> None"
    then obtain m' where m': "(b, m') \<in> ws_modules w"
        "k \<in> set (moduleKeys (getNSNameForBatch proxy b) m' (shape (b, m')))"
      using representsD(2) [OF assms(1) ns(2)] k ns(1) by blast
    from keys_disjoint [OF assms(3) m'(2)] m'(1) assms(2) show False by simp
  qed
  with k ns show ?thesis by simp
qed

text \<open>The objects of a module that runs are there.\<close>

lemma module_present:
  assumes "represents proxy shape s w" and "(b, m) \<in> ws_modules w"
    and "k \<in> set (moduleKeys (getNSNameForBatch proxy b) m (shape (b, m)))"
  shows "s k \<noteq> None"
proof -
  obtain kind ns n where k: "k = (kind, ns, n)" by (metis prod.exhaust)
  with assms(3) have ns: "ns = getNSNameForBatch proxy b" "kind \<noteq> ''namespace''"
    by (auto dest: keys_namespace)
  show ?thesis
    unfolding k ns(1) representsD(2) [OF assms(1) ns(2)] using assms(2,3) k ns(1) by blast
qed

lemma run_simulates:
  assumes kube: "keepsObjects (px_kube proxy) s" and rep: "represents proxy shape (objectsAfter s h) w"
    and fits: "shape (mb_BatchId msg, mb_ModuleId msg) = moduleShape msg"
      "moduleResources (ku_quantities (px_kube proxy)) (getResources msg) = Ret (limits, requests)"
    and new: "mb_BatchId msg \<in> ws_batches w" "(mb_BatchId msg, mb_ModuleId msg) \<notin> ws_modules w"
  shows "simulates proxy shape s h w (RpcRunBalticModule msg)"
proof -
  let ?ns = "getNSNameForBatch proxy (mb_BatchId msg)" and ?m = "mb_ModuleId msg"
  let ?keys = "moduleKeys ?ns ?m (moduleShape msg)"
  let ?plan = "modulePlan (ku_quantities (px_kube proxy)) ?ns msg"
  let ?d = "plannedDeployment ?ns msg limits requests"
  let ?dep = "(''deployment'', ?ns, ?m)"
  note free = module_free [OF rep new(2)]
  have created: "createdObjects ?plan @ [?dep] = ?keys" by (rule keys_created)
  then have distinct: "distinct (createdObjects ?plan)" "?dep \<notin> set (createdObjects ?plan)"
    and keys: "set ?keys = insert ?dep (set (createdObjects ?plan))"
    using keys_distinct [of ?ns ?m "moduleShape msg"] by (metis distinct_append, auto simp flip: created)
  have ns: "objectsAfter s h (nsKey proxy (mb_BatchId msg)) \<noteq> None"
    using representsD(1) [OF rep] new(1) by blast
  have free_plan: "objectsAfter s h k = None" if "k \<in> set (createdObjects ?plan)" for k
    using free [of k "moduleShape msg"] that keys by blast
  have plan: "run_state (tryAll (ku_done (px_kube proxy)) ?plan) h = (None, h @ ?plan)"
    "objectsAfter s (h @ ?plan) = (\<lambda>k. if k \<in> set (createdObjects ?plan) then Some [] else objectsAfter s h k)"
    using tryAll_creates [OF kube modulePlan_creates distinct(1) free_plan ns] by blast+
  have d: "createdObject (CreateDeployment ?ns ?d) = Some ?dep" "keptVolumes (CreateDeployment ?ns ?d) = shapeVolumes ?m (moduleShape msg)"
    by (simp_all add: plannedDeployment_def moduleDeployment_def moduleVolumes_shape)
  have free_dep: "objectsAfter s (h @ ?plan) ?dep = None" and ns': "objectsAfter s (h @ ?plan) (nsKey proxy (mb_BatchId msg)) \<noteq> None"
    unfolding plan(2) using distinct(2) free [of ?dep "moduleShape msg"] ns free_plan by auto
  then have adm: "admits (objectsAfter s (h @ ?plan)) (CreateDeployment ?ns ?d)"
    using d(1) unfolding admits_def by (simp add: mayCreate_def)
  then obtain x where call: "ku_deployment (px_kube proxy) (h @ ?plan) (CreateDeployment ?ns ?d) = (Some x, None)"
    using keepsObjectsD(3) [OF kube] by metis
  have objs: "stepObjects (objectsAfter s (h @ ?plan)) (CreateDeployment ?ns ?d) =
      (\<lambda>k. if k = ?dep then Some (shapeVolumes ?m (shape (mb_BatchId msg, ?m)))
        else if k \<in> set (moduleKeys ?ns ?m (shape (mb_BatchId msg, ?m))) then Some [] else objectsAfter s h k)"
    unfolding stepObjects_def fits(1) keys unfolding plan(2) using adm d by (auto simp del: objectsAfter_simps simp: plan(2))
  have run: "run_state (RunBalticModule proxy msg) h =
      (respond PENDING ''pending'' None, (h @ ?plan) @ [CreateDeployment ?ns ?d])"
    unfolding RunBalticModule_runPlan by (simp add: runPlan_def Let_def plan(1) fits(2) call)
  show ?thesis
    using represents_run [OF rep new objs] new
    by (simp add: simulates_def run)
qed

lemma fold_noteFailure_error: "\<exists>m' e'. fold noteFailure errs (ERROR, m, Some e) = (ERROR, m', Some e')"
  by (induction errs arbitrary: m e) (auto simp: noteFailure_def split: option.split)

text \<open>Disposing of a module whose objects are all there deletes exactly them.\<close>

lemma dispose_deletes:
  fixes proxy :: "'q ClusterProxyConf"
  assumes kube: "keepsObjects (px_kube proxy) s" and ns: "ns = getNSNameForBatch proxy (mo_BatchId mo)"
    and dep: "objectsAfter s h (''deployment'', ns, mo_ModuleId mo) = Some (shapeVolumes (mo_ModuleId mo) sh)"
    and there: "\<And>k. k \<in> set (moduleKeys ns (mo_ModuleId mo) sh) \<Longrightarrow> objectsAfter s h k \<noteq> None"
  shows "\<exists>g. run_state (DisposeBalticModule proxy mo) h = (respond PENDING ''pending'' None, g) \<and>
    objectsAfter s g = (\<lambda>k. if k \<in> set (moduleKeys ns (mo_ModuleId mo) sh) then None else objectsAfter s h k)"
proof -
  let ?m = "mo_ModuleId mo"
  let ?g = "h @ [GetDeployment ns ?m]" and ?plan = "disposePlan ns ?m (shapeVolumes ?m sh) :: 'q kube_req list"
  obtain d e where get: "ku_deployment (px_kube proxy) h (GetDeployment ns ?m) = (Some d, e)"
    and e: "e = None \<longleftrightarrow> objectsAfter s h (''deployment'', ns, ?m) \<noteq> None"
    and vols: "de_Volumes d = (case objectsAfter s h (''deployment'', ns, ?m) of None \<Rightarrow> [] | Some vols \<Rightarrow> vols)"
    using kube by (rule keepsObjects_read)
  have g: "objectsAfter s ?g = objectsAfter s h" by (simp add: stepObjects_def)
  have there': "objectsAfter s ?g k \<noteq> None" if "k \<in> set (deletedObjects ?plan)" for k
    using that there unfolding g keys_deleted(1) by blast
  have plan: "run_state (callAll (ku_done (px_kube proxy)) ?plan) ?g = (map (\<lambda>q. None) ?plan, ?g @ ?plan)"
    "objectsAfter s (?g @ ?plan) = (\<lambda>k. if k \<in> set (moduleKeys ns ?m sh) then None else objectsAfter s h k)"
    using callAll_deletes [OF kube keys_deleted(3,2) there'] unfolding g keys_deleted(1) by blast+
  have "run_state (DisposeBalticModule proxy mo) h = (respond PENDING ''pending'' None, ?g @ ?plan)"
    using e vols dep plan(1)
    by (simp add: run_DisposeBalticModule [OF get [unfolded ns]] ns Let_def fold_noteFailure filter_empty_conv noteFailure_def)
  with plan(2) show ?thesis by blast
qed

lemma dispose_simulates:
  assumes kube: "keepsObjects (px_kube proxy) s" and rep: "represents proxy shape (objectsAfter s h) w"
  shows "simulates proxy shape s h w (RpcDisposeBalticModule mo)"
proof -
  let ?ns = "getNSNameForBatch proxy (mo_BatchId mo)" and ?m = "mo_ModuleId mo"
  let ?g = "h @ [GetDeployment ?ns ?m]" and ?bm = "(mo_BatchId mo, mo_ModuleId mo)"
  obtain d e where get: "ku_deployment (px_kube proxy) h (GetDeployment ?ns ?m) = (Some d, e)"
    and e: "e = None \<longleftrightarrow> objectsAfter s h (''deployment'', ?ns, ?m) \<noteq> None"
    and vols: "de_Volumes d = (case objectsAfter s h (''deployment'', ?ns, ?m) of None \<Rightarrow> [] | Some vols \<Rightarrow> vols)"
    using kube by (rule keepsObjects_read)
  have g: "objectsAfter s ?g = objectsAfter s h" by (simp add: stepObjects_def)
  show ?thesis
  proof (cases "?bm \<in> ws_modules w")
    case True
    then have dep: "objectsAfter s h (''deployment'', ?ns, ?m) = Some (shapeVolumes ?m (shape ?bm))"
      using representsD(3) [OF rep] by blast
    obtain g' where g': "run_state (DisposeBalticModule proxy mo) h = (respond PENDING ''pending'' None, g')"
      "objectsAfter s g' = (\<lambda>k. if k \<in> set (moduleKeys ?ns ?m (shape ?bm)) then None else objectsAfter s h k)"
      using dispose_deletes [OF kube refl dep module_present [OF rep True]] by blast
    with represents_dispose [OF rep True g'(2)] True show ?thesis by (simp add: simulates_def)
  next
    case False
    let ?plan = "[DeleteDeployment ?ns ?m, DeleteService ?ns ?m] :: 'a kube_req list"
    have free: "objectsAfter s h (''deployment'', ?ns, ?m) = None" "objectsAfter s h (''service'', ?ns, ?m) = None"
      using module_free [OF rep False, of _ "(0, False)"] by simp_all
    then obtain f where f: "e = Some f" using e by auto
    have plan: "disposePlan ?ns ?m (de_Volumes d) = ?plan"
      using free vols by (simp add: disposePlan_def getServiceName_def map_filter_simps)
    have same: "objectsAfter s (?g @ ?plan) = objectsAfter s h"
      using free g by (simp add: stepObjects_def admits_def)
    obtain errs where run: "run_state (callAll (ku_done (px_kube proxy)) ?plan) ?g = (errs, ?g @ ?plan)"
      by (simp add: run_callAll)
    obtain text' e' where "fold noteFailure errs (ERROR, f, Some f) = (ERROR, text', Some e')"
      using fold_noteFailure_error by blast
    then have "fst (run_state (DisposeBalticModule proxy mo) h) = respond ERROR text' (Some e')"
      unfolding run_DisposeBalticModule [OF get] Let_def plan run f by (simp add: noteFailure_def)
    moreover have "snd (run_state (DisposeBalticModule proxy mo) h) = ?g @ ?plan"
      unfolding run_DisposeBalticModule [OF get] Let_def plan run by (simp split: prod.split)
    ultimately show ?thesis using False rep same by (auto simp: simulates_def)
  qed
qed

lemma module_status_simulates:
  assumes kube: "keepsObjects (px_kube proxy) s" and rep: "represents proxy shape (objectsAfter s h) w"
  shows "simulates proxy shape s h w (RpcCheckBalticModuleStatus mo)"
proof -
  let ?ns = "getNSNameForBatch proxy (mo_BatchId mo)" and ?m = "mo_ModuleId mo"
  obtain d e where get: "ku_deployment (px_kube proxy) h (GetDeployment ?ns ?m) = (Some d, e)"
    and e: "e = None \<longleftrightarrow> objectsAfter s h (''deployment'', ?ns, ?m) \<noteq> None"
    using kube by (rule keepsObjects_read)
  have "objectsAfter s h (''deployment'', ?ns, ?m) \<noteq> None \<longleftrightarrow> (mo_BatchId mo, ?m) \<in> ws_modules w"
    using representsD(2) [OF rep, of "''deployment''" "mo_BatchId mo" ?m] by simp
  then show ?thesis
    using rep get e by (cases e)
      (simp_all add: simulates_def CheckBalticModuleStatus_def stepObjects_def split: prod.split)
qed

lemma call_simulates:
  assumes rel: "workspaceRel proxy shape s h w" and fits: "callFits (ku_quantities (px_kube proxy)) shape c"
  shows "simulates proxy shape s h w c"
proof -
  have kube: "keepsObjects (px_kube proxy) s" and rep: "represents proxy shape (objectsAfter s h) w"
    using rel by (simp_all add: workspaceRel_def)
  show ?thesis
  proof (cases c)
    case (RpcRunBalticModule msg)
    let ?bm = "(mb_BatchId msg, mb_ModuleId msg)"
    from fits RpcRunBalticModule obtain limits requests where
      fit: "shape ?bm = moduleShape msg" "moduleResources (ku_quantities (px_kube proxy)) (getResources msg) = Ret (limits, requests)"
      by (auto split: outcome.splits)
    show ?thesis
    proof (cases "mb_BatchId msg \<in> ws_batches w \<and> ?bm \<notin> ws_modules w")
      case True
      with run_simulates [OF kube rep fit] RpcRunBalticModule show ?thesis by blast
    next
      case False
      have "\<not> mayCreate (objectsAfter s h) k"
        if k: "k \<in> set (moduleKeys (getNSNameForBatch proxy (mb_BatchId msg)) (mb_ModuleId msg) (moduleShape msg))" for k
      proof (cases "?bm \<in> ws_modules w")
        case True
        with module_present [OF rep True] k fit(1) show ?thesis by (auto simp: mayCreate_def)
      next
        case notin: False
        with False have "objectsAfter s h (nsKey proxy (mb_BatchId msg)) = None"
          using representsD(1) [OF rep, of "mb_BatchId msg"] by auto
        moreover obtain kind ns n where "k = (kind, ns, n)" by (metis prod.exhaust)
        ultimately show ?thesis using k keys_namespace by (fastforce simp: mayCreate_def)
      qed
      from run_refused [OF kube this] rep False RpcRunBalticModule show ?thesis
        by (auto simp: simulates_def)
    qed
  qed (use workspace_calls_simulate [OF kube rep] dispose_simulates [OF kube rep] module_status_simulates [OF kube rep] in blast)+
qed

section \<open>Sessions refine the workspace manager\<close>

text \<open>A simulation of single calls is one of sessions.\<close>

locale simulation =
  fixes step :: "'c \<Rightarrow> ('s, 'a) state"
    and abstract_step :: "'c \<Rightarrow> 'w \<Rightarrow> 'b \<times> 'w"
    and observe :: "'a \<Rightarrow> 'b"
    and rel :: "'s \<Rightarrow> 'w \<Rightarrow> bool"
    and allowed :: "'c \<Rightarrow> bool"
  assumes step_simulates: "rel s w \<Longrightarrow> allowed c \<Longrightarrow>
      observe (fst (run_state (step c) s)) = fst (abstract_step c w) \<and>
      rel (snd (run_state (step c) s)) (snd (abstract_step c w))"
begin

lemma session_simulates:
  "rel s w \<Longrightarrow> list_all allowed cs \<Longrightarrow>
   map observe (fst (run_state (session step cs) s)) = fst (run_state (session (\<lambda>c. State (abstract_step c)) cs) w) \<and>
   rel (snd (run_state (session step cs) s)) (snd (run_state (session (\<lambda>c. State (abstract_step c)) cs) w))"
proof (induction cs arbitrary: s w)
  case Nil
  then show ?case by simp
next
  case (Cons c cs)
  obtain a s' where run: "run_state (step c) s = (a, s')" by (metis prod.exhaust)
  obtain b w' where abs: "abstract_step c w = (b, w')" by (metis prod.exhaust)
  have "observe a = b" "rel s' w'" using step_simulates [of s w c] Cons.prems run abs by simp_all
  with Cons.IH [of s' w'] Cons.prems run abs show ?case by (auto split: prod.splits)
qed

end

lemma call_simulates_rel:
  assumes "workspaceRel proxy shape s h w" and "callFits (ku_quantities (px_kube proxy)) shape c"
  shows "succeeded (fst (run_state (serveRpc proxy c) h)) = fst (manage c w) \<and>
    workspaceRel proxy shape s (snd (run_state (serveRpc proxy c) h)) (snd (manage c w))"
  using call_simulates [OF assms] assms(1) by (simp add: simulates_def workspaceRel_def)

interpretation manager: simulation "serveRpc proxy" manage succeeded "workspaceRel proxy shape s"
    "callFits (ku_quantities (px_kube proxy)) shape"
  for proxy shape s
  by unfold_locales (rule call_simulates_rel)

text \<open>
  C4: The calls of the proxy implement a manager of workspaces: against a server that keeps objects,
  every sequence of calls succeeds and is refused exactly as the manager says, and the objects in the
  batches' namespaces are at the end exactly the namespaces of the prepared batches and the claims,
  config maps, services and deployments of the running modules: nothing leaks and nothing is lost, as
  long as a module is always run with the same number of volumes and with or without files.
\<close>

theorem sessions_refine_manager:
  assumes "keepsObjects (px_kube proxy) s" and "represents proxy shape (objectsAfter s h) w"
    and "list_all (callFits (ku_quantities (px_kube proxy)) shape) cs"
  shows "map succeeded (fst (run_state (session (serveRpc proxy) cs) h)) = fst (run_state (session (\<lambda>c. State (manage c)) cs) w) \<and>
    represents proxy shape (objectsAfter s (snd (run_state (session (serveRpc proxy) cs) h)))
      (snd (run_state (session (\<lambda>c. State (manage c)) cs) w))"
  using manager.session_simulates [of proxy shape s h w cs] assms by (simp add: workspaceRel_def)

definition demo_store :: "int kube" where
  "demo_store =
     (let refusal = (\<lambda>h q. if admits (objectsAfter Map.empty h) q then None else Some ''refused'')
      in \<lparr>ku_namespace = (\<lambda>h q. (Some \<lparr>kn_Name = '''', kn_Annotations = [], kn_Phase = ''Active''\<rparr>, refusal h q)),
          ku_deployment = (\<lambda>h q. (Some (noDeployment\<lparr>de_Volumes := (case q of
              GetDeployment ns n \<Rightarrow> (case objectsAfter Map.empty h (''deployment'', ns, n) of None \<Rightarrow> [] | Some vols \<Rightarrow> vols)
            | _ \<Rightarrow> [])\<rparr>), refusal h q)),
          ku_nodes = (\<lambda>h q. (Some [], None)),
          ku_node = (\<lambda>h q. (None, Some ''not found'')),
          ku_done = refusal,
          ku_quantities = demo_quantities\<rparr>)"

lemma demo_store_keeps: "keepsObjects demo_store Map.empty"
  by (simp add: keepsObjects_def demo_store_def)

theorem sessions_refine_manager_witness:
  "map succeeded (fst (run_state (session (serveRpc (demo_proxy demo_store))
      [RpcPrepareWorkspace \<lparr>xw_BatchId = ''b'', xw_Quota = None\<rparr>, RpcRunBalticModule demo_module,
       RpcRunBalticModule demo_module, RpcDisposeBalticModule \<lparr>mo_BatchId = ''b'', mo_ModuleId = ''m''\<rparr>,
       RpcDisposeBalticModule \<lparr>mo_BatchId = ''b'', mo_ModuleId = ''m''\<rparr>, RpcPurgeWorkspace \<lparr>bi_Id = ''b''\<rparr>,
       RpcCheckWorkspaceStatus \<lparr>bi_Id = ''b''\<rparr>]) [])) = [True, True, False, True, False, True, False]"
proof -
  let ?cs = "[RpcPrepareWorkspace \<lparr>xw_BatchId = ''b'', xw_Quota = None\<rparr>, RpcRunBalticModule demo_module,
       RpcRunBalticModule demo_module, RpcDisposeBalticModule \<lparr>mo_BatchId = ''b'', mo_ModuleId = ''m''\<rparr>,
       RpcDisposeBalticModule \<lparr>mo_BatchId = ''b'', mo_ModuleId = ''m''\<rparr>, RpcPurgeWorkspace \<lparr>bi_Id = ''b''\<rparr>,
       RpcCheckWorkspaceStatus \<lparr>bi_Id = ''b''\<rparr>]"
  let ?shape = "\<lambda>bm. (2 :: nat, True)" and ?w = "\<lparr>ws_batches = {}, ws_modules = {}\<rparr>"
  have kube: "keepsObjects (px_kube (demo_proxy demo_store)) Map.empty" by (simp add: demo_store_keeps)
  have rep: "represents (demo_proxy demo_store) ?shape (objectsAfter Map.empty ([] :: int kube_req list)) ?w"
    by (simp add: represents_def)
  have "callFits demo_quantities ?shape (RpcRunBalticModule demo_module)" by code_simp
  then have fits: "list_all (callFits (ku_quantities (px_kube (demo_proxy demo_store))) ?shape) ?cs"
    by (simp add: demo_store_def)
  from sessions_refine_manager [OF kube rep fits] show ?thesis
    by (simp add: demo_module_def)
qed

section \<open>A module run with other volumes\<close>

text \<open>A run that finds a name taken fails in its plan, after its first object when that one was free.\<close>

lemma run_taken:
  fixes proxy :: "'q ClusterProxyConf"
  assumes kube: "keepsObjects (px_kube proxy) s" and ns: "ns = getNSNameForBatch proxy (mb_BatchId msg)"
    and plan: "modulePlan (ku_quantities (px_kube proxy)) ns msg = q # qs" "createdObject q = Some key"
    and taken: "k \<in> set (createdObjects (q # qs))" "objectsAfter s h k \<noteq> None"
    and free: "mayCreate (objectsAfter s h) key"
  shows "\<exists>e t. run_state (RunBalticModule proxy msg) h = (respond ERROR e (Some e), h @ q # t) \<and> list_all (creates ns) t"
proof -
  let ?kube = "ku_done (px_kube proxy)"
  have creates: "list_all (creates ns) (q # qs)" using modulePlan_creates [of ns "ku_quantities (px_kube proxy)" msg] unfolding plan(1) .
  have "fst (run_state (tryAll ?kube (q # qs)) h) \<noteq> None"
    by (rule contrapos_nn [OF taken(2)]) (rule tryAll_free [OF kube creates _ taken(1)])
  moreover have "?kube h q = None"
    using keepsObjectsD(1) [OF kube, of h q] plan(2) free by (simp add: admits_def)
  moreover obtain t where "snd (run_state (tryAll ?kube qs) (h @ [q])) = (h @ [q]) @ t" "list_all (creates ns) t"
  proof -
    have "list_all (creates ns) qs" using creates by simp
    then have "extends (creates ns) (tryAll ?kube qs)" by (rule extends_tryAll)
    then show ?thesis using that by (rule extendsE)
  qed
  ultimately obtain e where "run_state (tryAll ?kube (q # qs)) h = (Some e, h @ q # t)"
    by (cases "run_state (tryAll ?kube qs) (h @ [q])") auto
  then have "run_state (RunBalticModule proxy msg) h = (respond ERROR e (Some e), h @ q # t)"
    unfolding RunBalticModule_runPlan by (simp add: runPlan_def Let_def plan(1) del: tryAll.simps flip: ns)
  with \<open>list_all (creates ns) t\<close> show ?thesis by blast
qed

text \<open>
  C28: Running a module again with volumes when it runs without any is an error that leaks: the claim of
  the first volume is created before the service is refused, disposing of the module succeeds and
  leaves the claim, and from then on the module can no longer be run with volumes in its batch.
\<close>

theorem rerun_leaks_claim:
  assumes kube: "keepsObjects (px_kube proxy) s" and rep: "represents proxy shape (objectsAfter s h) w"
    and running: "(mb_BatchId msg, mb_ModuleId msg) \<in> ws_modules w" "fst (shape (mb_BatchId msg, mb_ModuleId msg)) = 0"
    and vols: "mb_Volumes msg \<noteq> []"
    and mo: "mo = \<lparr>mo_BatchId = mb_BatchId msg, mo_ModuleId = mb_ModuleId msg\<rparr>"
    and run: "run_state (RunBalticModule proxy msg) h = (r1, h1)"
    and dispose: "run_state (DisposeBalticModule proxy mo) h1 = (r2, h2)"
  shows "\<not> succeeded r1 \<and> succeeded r2 \<and>
    objectsAfter s h2 (''persistentvolumeclaim'', getNSNameForBatch proxy (mb_BatchId msg), getVolumeName (mb_ModuleId msg) 0) = Some [] \<and>
    \<not> succeeded (fst (run_state (RunBalticModule proxy msg) h2))"
proof -
  let ?b = "mb_BatchId msg" and ?m = "mb_ModuleId msg"
  let ?ns = "getNSNameForBatch proxy ?b" and ?qa = "ku_quantities (px_kube proxy)"
  let ?claim = "(''persistentvolumeclaim'', ?ns, getVolumeName ?m 0) :: objkey"
  let ?keys = "set (moduleKeys ?ns ?m (shape (?b, ?m)))"
  obtain q qs where plan: "modulePlan ?qa ?ns msg = q # qs" and q: "createdObject q = Some ?claim" "keptVolumes q = []"
    using vols by (cases "mb_Volumes msg") (simp_all add: modulePlan_def volumeClaim_def)
  have service: "(''service'', ?ns, ?m) \<in> set (createdObjects (q # qs))"
    using keys_created [of ?qa ?ns msg] unfolding plan by (auto simp: moduleKeys_def dest!: arg_cong [where f = set])
  have absent: "?claim \<notin> set (moduleKeys ?ns m (shape (?b, m)))" if "(?b, m) \<in> ws_modules w" for m
    using running(2) by (auto simp: moduleKeys_def dest!: getVolumeName_module split: if_splits)
  then have "objectsAfter s h ?claim = None" using representsD(2) [OF rep, of "''persistentvolumeclaim''" ?b "getVolumeName ?m 0"] by auto
  moreover have "objectsAfter s h (nsKey proxy ?b) \<noteq> None"
    using representsD(1) [OF rep] representsD(3) [OF rep running(1)] by blast
  ultimately have free: "mayCreate (objectsAfter s h) ?claim" by (simp add: mayCreate_def)
  have "objectsAfter s h (''service'', ?ns, ?m) \<noteq> None" by (rule module_present [OF rep running(1)]) simp
  from run_taken [OF kube refl plan q(1) service this free] run obtain e t where
    r1: "r1 = respond ERROR e (Some e)" "h1 = h @ q # t" "list_all (creates ?ns) t" by auto
  have "objectsAfter s (h @ [q]) = (objectsAfter s h)(?claim \<mapsto> [])"
    using q free by (simp add: stepObjects_def admits_def)
  then have h1: "objectsAfter s h1 k = (if k = ?claim then Some [] else objectsAfter s h k)"
    if "k = ?claim \<or> objectsAfter s h k \<noteq> None" for k
    using that creates_keep [OF r1(3), of "objectsAfter s (h @ [q])" k] r1(2) by auto
  have "(''deployment'', ?ns, ?m) \<noteq> ?claim" by simp
  then have dep: "objectsAfter s h1 (''deployment'', getNSNameForBatch proxy (mo_BatchId mo), mo_ModuleId mo)
      = Some (shapeVolumes (mo_ModuleId mo) (shape (?b, ?m)))"
    using h1 [of "(''deployment'', ?ns, ?m)"] representsD(3) [OF rep running(1)] mo by simp
  have there: "objectsAfter s h1 k \<noteq> None"
    if "k \<in> set (moduleKeys (getNSNameForBatch proxy (mo_BatchId mo)) (mo_ModuleId mo) (shape (?b, ?m)))" for k
    using that h1 [of k] module_present [OF rep running(1), of k] mo by simp
  from dispose_deletes [OF kube refl dep there] dispose have r2: "r2 = respond PENDING ''pending'' None"
    and h2: "objectsAfter s h2 = (\<lambda>k. if k \<in> ?keys then None else objectsAfter s h1 k)"
    using mo by auto
  have left: "objectsAfter s h2 ?claim = Some []" using h2 h1 [of ?claim] absent [OF running(1)] by simp
  have "?claim \<in> set (createdObjects (modulePlan ?qa ?ns msg))" using plan q by simp
  from run_succeeds_free [OF kube _ this] left have "\<not> succeeded (fst (run_state (RunBalticModule proxy msg) h2))" by auto
  with r1 r2 left show ?thesis by simp
qed

definition demo_plain :: XBalticModuleBuild where
  "demo_plain = demo_module\<lparr>mb_Volumes := [], mb_ConfigFiles := []\<rparr>"

theorem rerun_leaks_claim_witness:
  "\<exists>h r1 h1 r2 h2. run_state (RunBalticModule (demo_proxy demo_store) demo_module) h = (r1, h1) \<and>
    run_state (DisposeBalticModule (demo_proxy demo_store) \<lparr>mo_BatchId = ''b'', mo_ModuleId = ''m''\<rparr>) h1 = (r2, h2) \<and>
    \<not> succeeded r1 \<and> succeeded r2 \<and>
    objectsAfter Map.empty h2 (''persistentvolumeclaim'', ''alice-b'', ''m-0'') = Some []"
proof -
  let ?proxy = "demo_proxy demo_store" and ?shape = "\<lambda>bm. (0 :: nat, False)" and ?w = "\<lparr>ws_batches = {}, ws_modules = {}\<rparr>"
  let ?mo = "\<lparr>mo_BatchId = ''b'', mo_ModuleId = ''m''\<rparr>"
  let ?cs = "[RpcPrepareWorkspace \<lparr>xw_BatchId = ''b'', xw_Quota = None\<rparr>, RpcRunBalticModule demo_plain]"
  have ids: "mb_BatchId demo_plain = ''b''" "mb_ModuleId demo_plain = ''m''" "mb_BatchId demo_module = ''b''"
    "mb_ModuleId demo_module = ''m''" "mb_Volumes demo_module \<noteq> []"
    by (simp_all add: demo_plain_def demo_module_def)
  have kube: "keepsObjects (px_kube ?proxy) Map.empty" by (simp add: demo_store_keeps)
  then have rel: "workspaceRel ?proxy ?shape Map.empty [] ?w" by (simp add: workspaceRel_def represents_def)
  have "callFits demo_quantities ?shape (RpcRunBalticModule demo_plain)" by code_simp
  then have "list_all (callFits (ku_quantities (px_kube ?proxy)) ?shape) ?cs" by (simp add: demo_store_def)
  note sim = manager.session_simulates [OF rel this]
  have after: "snd (run_state (session (\<lambda>c. State (manage c)) ?cs) ?w) = \<lparr>ws_batches = {''b''}, ws_modules = {(''b'', ''m'')}\<rparr>"
    by (simp add: ids)
  obtain h :: "int kube_req list" where rep: "represents ?proxy ?shape (objectsAfter Map.empty h) \<lparr>ws_batches = {''b''}, ws_modules = {(''b'', ''m'')}\<rparr>"
    using sim unfolding after workspaceRel_def by blast
  obtain r1 h1 where run: "run_state (RunBalticModule ?proxy demo_module) h = (r1, h1)" by (metis prod.exhaust)
  obtain r2 h2 where dispose: "run_state (DisposeBalticModule ?proxy ?mo) h1 = (r2, h2)" by (metis prod.exhaust)
  have running: "(mb_BatchId demo_module, mb_ModuleId demo_module) \<in> ws_modules \<lparr>ws_batches = {''b''}, ws_modules = {(''b'', ''m'')}\<rparr>"
    "fst (?shape (mb_BatchId demo_module, mb_ModuleId demo_module)) = 0"
    by (simp_all add: ids)
  have mo: "?mo = \<lparr>mo_BatchId = mb_BatchId demo_module, mo_ModuleId = mb_ModuleId demo_module\<rparr>" by (simp add: ids)
  have name: "getVolumeName ''m'' 0 = ''m-0''" by code_simp
  show ?thesis
    by (rule exI [of _ h], rule exI [of _ r1], rule exI [of _ h1], rule exI [of _ r2], rule exI [of _ h2])
      (use rerun_leaks_claim [OF kube rep running ids(5) mo run dispose] run dispose name in \<open>simp add: ids\<close>)
qed

end
