(* ===== verification/Boogeyman.thy ===== *)
theory Boogeyman
  imports Go_Json
begin

text \<open>
  The fault injector of the tests (\<open>tests/boogeyman\<close>): a master goroutine that executes commands
  received over a channel, watchers that report the objects of a namespace to it, and the chaos
  monkeys that send deletions (their rounds are in \<open>Chaos_Monkey\<close>). The channel has no buffer, so a run of the program is the sequence of
  commands the master receives. The state holds the three sets of names, the calls made to the API
  server, and the numbers of \<open>range\<close> loops and random draws so far.
\<close>

section \<open>Commands\<close>

definition createPVC_cmd :: int where "createPVC_cmd = 0"
definition deploy_cmd :: int where "deploy_cmd = 1"
definition deleteAllPods_cmd :: int where "deleteAllPods_cmd = 2"
definition deleteRandomPod_cmd :: int where "deleteRandomPod_cmd = 3"
definition deleteAllDeployments_cmd :: int where "deleteAllDeployments_cmd = 4"
definition deleteRandomDeployment_cmd :: int where "deleteRandomDeployment_cmd = 5"
definition deploymentAdded :: int where "deploymentAdded = 6"
definition deploymentDeleted :: int where "deploymentDeleted = 7"
definition pvcAdded :: int where "pvcAdded = 8"
definition pvcDeleted :: int where "pvcDeleted = 9"
definition podAdded :: int where "podAdded = 10"
definition podDeleted :: int where "podDeleted = 11"

lemmas cmd_defs = createPVC_cmd_def deploy_cmd_def deleteAllPods_cmd_def deleteRandomPod_cmd_def
  deleteAllDeployments_cmd_def deleteRandomDeployment_cmd_def deploymentAdded_def deploymentDeleted_def
  pvcAdded_def pvcDeleted_def podAdded_def podDeleted_def

record command =
  co_cmdType :: int
  co_name :: string
  co_containerImage :: string
  co_instances :: int
  co_pvcName :: string
  co_pvcSize :: int
  co_force :: bool

definition newCreatewPVCCommand :: "string \<Rightarrow> int \<Rightarrow> command" where
  "newCreatewPVCCommand pvcName pvcSize =
     \<lparr>co_cmdType = createPVC_cmd, co_name = '''', co_containerImage = '''', co_instances = 0,
      co_pvcName = pvcName, co_pvcSize = pvcSize, co_force = False\<rparr>"

definition newDeployCommand :: "string \<Rightarrow> string \<Rightarrow> int \<Rightarrow> string \<Rightarrow> int \<Rightarrow> command" where
  "newDeployCommand name containerImage instances pvcName pvcSize =
     \<lparr>co_cmdType = deploy_cmd, co_name = name, co_containerImage = containerImage, co_instances = instances,
      co_pvcName = pvcName, co_pvcSize = pvcSize, co_force = False\<rparr>"

definition plainCommand :: "int \<Rightarrow> bool \<Rightarrow> command" where
  "plainCommand cmdType force =
     \<lparr>co_cmdType = cmdType, co_name = '''', co_containerImage = '''', co_instances = 0,
      co_pvcName = '''', co_pvcSize = 0, co_force = force\<rparr>"

definition newDeleteAllPodsCommand :: "bool \<Rightarrow> command" where
  "newDeleteAllPodsCommand force = plainCommand deleteAllPods_cmd force"

definition newDeleteRandomPodCommand :: "bool \<Rightarrow> int \<Rightarrow> command" where
  "newDeleteRandomPodCommand force instances =
     (plainCommand deleteRandomPod_cmd force)\<lparr>co_instances := instances\<rparr>"

definition newDeleteAllDeploymentsCommand :: "bool \<Rightarrow> command" where
  "newDeleteAllDeploymentsCommand force = plainCommand deleteAllDeployments_cmd force"

definition newDeleteRandomDeploymentCommand :: "bool \<Rightarrow> command" where
  "newDeleteRandomDeploymentCommand force = plainCommand deleteRandomDeployment_cmd force"

definition newUpdateCommand :: "int \<Rightarrow> string \<Rightarrow> command" where
  "newUpdateCommand cmdType name = (plainCommand cmdType False)\<lparr>co_name := name\<rparr>"

section \<open>The program and its state\<close>

text \<open>Group, version and resource of the dynamic client; options of a deletion.\<close>

type_synonym gvr = "string \<times> string \<times> string"

record DeleteOptions =
  do_GracePeriodSeconds :: "int option"
  do_PropagationPolicy :: string

datatype dyn_req =
    DynDelete gvr string string DeleteOptions
  | DynCreate gvr string jval

text \<open>
  The fixed part: the namespace, the API server, the order of map loops, and the random source, the
  \<open>k\<close>-th draw below a bound.
\<close>

record Boogeyman =
  bg_namespace :: string
  bg_client :: "(dyn_req, go_error option) service"
  bg_order :: range_order
  bg_Intn :: "nat \<Rightarrow> nat \<Rightarrow> nat"

record bstate =
  bs_deployments :: "(string, bool) gomap"
  bs_pvcs :: "(string, bool) gomap"
  bs_pods :: "(string, bool) gomap"
  bs_calls :: "dyn_req list"
  bs_loops :: nat
  bs_rands :: nat

type_synonym 'a haunting = "(bstate, 'a) state"

definition bget :: "(bstate \<Rightarrow> 'a) \<Rightarrow> 'a haunting" where
  "bget f = State (\<lambda>s. (f s, s))"

definition bput :: "(bstate \<Rightarrow> bstate) \<Rightarrow> unit haunting" where
  "bput f = State (\<lambda>s. ((), f s))"

definition bcall :: "Boogeyman \<Rightarrow> dyn_req \<Rightarrow> go_error option haunting" where
  "bcall bg q = zoom bs_calls (\<lambda>h s. s\<lparr>bs_calls := h\<rparr>) (call (bg_client bg) q)"

definition brange :: "Boogeyman \<Rightarrow> (string, bool) gomap \<Rightarrow> string list haunting" where
  "brange bg m = State (\<lambda>s. (bg_order bg (bs_loops s) (gm_keys m), s\<lparr>bs_loops := Suc (bs_loops s)\<rparr>))"

text \<open>\<open>rand.Intn(n)\<close> panics unless \<open>n\<close> is positive.\<close>

definition Intn :: "Boogeyman \<Rightarrow> nat \<Rightarrow> nat outcome haunting" where
  "Intn bg n = State (\<lambda>s.
     if n = 0 then (Panic ''invalid argument to Intn'', s)
     else (Ret (bg_Intn bg (bs_rands s) n), s\<lparr>bs_rands := Suc (bs_rands s)\<rparr>))"

lemma run_haunting [simp, io_simps]:
  "run_state (bget f) s = (f s, s)"
  "run_state (bput g) s = ((), g s)"
  "run_state (bcall bg q) s = (bg_client bg (bs_calls s) q, s\<lparr>bs_calls := bs_calls s @ [q]\<rparr>)"
  "run_state (brange bg m) s = (bg_order bg (bs_loops s) (gm_keys m), s\<lparr>bs_loops := Suc (bs_loops s)\<rparr>)"
  by (simp_all add: bget_def bput_def bcall_def brange_def)

lemma run_Intn [simp, io_simps]:
  "run_state (Intn bg 0) s = (Panic ''invalid argument to Intn'', s)"
  "0 < n \<Longrightarrow> run_state (Intn bg n) s = (Ret (bg_Intn bg (bs_rands s) n), s\<lparr>bs_rands := Suc (bs_rands s)\<rparr>)"
  by (simp_all add: Intn_def)

section \<open>Deleting\<close>

definition podResource :: gvr where "podResource = ('''', ''v1'', ''pods'')"
definition deploymentResource :: gvr where "deploymentResource = (''apps'', ''v1'', ''deployments'')"
definition pvcResource :: gvr where "pvcResource = ('''', ''v1'', ''persistentvolumeclaims'')"

definition deleteOptions :: "bool \<Rightarrow> DeleteOptions" where
  "deleteOptions force =
     \<lparr>do_GracePeriodSeconds = (if force then Some 0 else None), do_PropagationPolicy = ''Foreground''\<rparr>"

definition deleteObject :: "Boogeyman \<Rightarrow> gvr \<Rightarrow> bool \<Rightarrow> string \<Rightarrow> dyn_req" where
  "deleteObject bg res force name = DynDelete res (bg_namespace bg) name (deleteOptions force)"

text \<open>A loop of deletions; a failure is printed and the loop goes on.\<close>

fun deleteEach :: "Boogeyman \<Rightarrow> gvr \<Rightarrow> bool \<Rightarrow> string list \<Rightarrow> unit haunting" where
  "deleteEach bg res force [] = State_Monad.return ()"
| "deleteEach bg res force (name # names) = do {
     _ \<leftarrow> bcall bg (deleteObject bg res force name);
     deleteEach bg res force names
   }"

fun deleteRandomPods :: "Boogeyman \<Rightarrow> bool \<Rightarrow> nat \<Rightarrow> unit outcome haunting" where
  "deleteRandomPods bg force 0 = State_Monad.return (Ret ())"
| "deleteRandomPods bg force (Suc instances) = do {
     pods \<leftarrow> bget bs_pods;
     podList \<leftarrow> brange bg pods;
     idx \<leftarrow> Intn bg (length (gm_keys pods));
     case idx of
       Panic m \<Rightarrow> State_Monad.return (Panic m)
     | Ret randomPodIndex \<Rightarrow>
         (case index_at podList randomPodIndex of
            Panic m \<Rightarrow> State_Monad.return (Panic m)
          | Ret randomPod \<Rightarrow> do {
              _ \<leftarrow> bcall bg (deleteObject bg podResource force randomPod);
              deleteRandomPods bg force instances
            })
   }"

definition deleteRandomPod :: "Boogeyman \<Rightarrow> bool \<Rightarrow> int \<Rightarrow> unit outcome haunting" where
  "deleteRandomPod bg force instances = deleteRandomPods bg force (nat instances)"

definition deleteAllPods :: "Boogeyman \<Rightarrow> bool \<Rightarrow> unit haunting" where
  "deleteAllPods bg force = do {
     pods \<leftarrow> bget bs_pods;
     names \<leftarrow> brange bg pods;
     deleteEach bg podResource force names
   }"

definition deleteAllDeployments :: "Boogeyman \<Rightarrow> bool \<Rightarrow> unit haunting" where
  "deleteAllDeployments bg force = do {
     deployments \<leftarrow> bget bs_deployments;
     names \<leftarrow> brange bg deployments;
     _ \<leftarrow> deleteEach bg deploymentResource force names;
     pvcs \<leftarrow> bget bs_pvcs;
     names \<leftarrow> brange bg pvcs;
     deleteEach bg pvcResource force names
   }"

definition deleteRandomDeployment :: "Boogeyman \<Rightarrow> bool \<Rightarrow> unit outcome haunting" where
  "deleteRandomDeployment bg force = do {
     deployments \<leftarrow> bget bs_deployments;
     deploymentList \<leftarrow> brange bg deployments;
     idx \<leftarrow> Intn bg (length (gm_keys deployments));
     case idx of
       Panic m \<Rightarrow> State_Monad.return (Panic m)
     | Ret randomDeploymentIndex \<Rightarrow>
         (case index_at deploymentList randomDeploymentIndex of
            Panic m \<Rightarrow> State_Monad.return (Panic m)
          | Ret randomDeployment \<Rightarrow> do {
              _ \<leftarrow> bcall bg (deleteObject bg deploymentResource force randomDeployment);
              State_Monad.return (Ret ())
            })
   }"

definition Cleanup :: "Boogeyman \<Rightarrow> unit haunting" where
  "Cleanup bg = deleteAllDeployments bg True"

definition NumberOfPods :: "nat haunting" where
  "NumberOfPods = bget (\<lambda>s. length (gm_keys (bs_pods s)))"

definition NumberOfDeployments :: "nat haunting" where
  "NumberOfDeployments = bget (\<lambda>s. length (gm_keys (bs_deployments s)))"

section \<open>Creating\<close>

definition claimObject :: "string \<Rightarrow> int \<Rightarrow> jval" where
  "claimObject pvcName pvcSize =
     JObj [(''apiVersion'', JStr ''v1''), (''kind'', JStr ''PersistentVolumeClaim''),
       (''metadata'', JObj [(''name'', JStr pvcName)]),
       (''spec'', JObj [(''storageClassName'', JStr ''rook-ceph-fs''),
          (''accessModes'', JArr [JStr ''ReadWriteMany'']),
          (''resources'', JObj [(''requests'', JObj [(''storage'', JStr (fmt_d pvcSize @ ''Gi''))])])])]"

definition createPersistentVolumeClaim :: "Boogeyman \<Rightarrow> string \<Rightarrow> int \<Rightarrow> go_error option haunting" where
  "createPersistentVolumeClaim bg pvcName pvcSize =
     bcall bg (DynCreate pvcResource (bg_namespace bg) (claimObject pvcName pvcSize))"

definition deploymentObject :: "string \<Rightarrow> string \<Rightarrow> int \<Rightarrow> string \<Rightarrow> jval" where
  "deploymentObject name containerImage instances pvcClaimName =
     JObj [(''apiVersion'', JStr ''apps/v1''), (''kind'', JStr ''Deployment''),
       (''metadata'', JObj [(''name'', JStr (name @ ''-deployment''))]),
       (''spec'', JObj [(''replicas'', JInt instances),
          (''selector'', JObj [(''matchLabels'', JObj [(''app'', JStr name)])]),
          (''template'', JObj
             [(''metadata'', JObj [(''labels'', JObj [(''app'', JStr name)])]),
              (''spec'', JObj
                 [(''volumes'', JArr [JObj [(''name'', JStr ''storage''),
                     (''persistentVolumeClaim'', JObj [(''claimName'', JStr pvcClaimName)])]]),
                  (''containers'', JArr [JObj [(''name'', JStr name), (''image'', JStr containerImage),
                     (''volumeMounts'', JArr [JObj [(''name'', JStr ''storage''), (''mountPath'', JStr ''/storage'')]]),
                     (''env'', JArr [JObj [(''name'', JStr ''STORAGE_PATH''), (''value'', JStr ''/storage'')],
                                     JObj [(''name'', JStr ''FILE_SIZE''), (''value'', JStr ''1'')]])]])])])])]"

definition createDeployment :: "Boogeyman \<Rightarrow> string \<Rightarrow> string \<Rightarrow> int \<Rightarrow> string \<Rightarrow> go_error option haunting" where
  "createDeployment bg name containerImage instances pvcClaimName =
     bcall bg (DynCreate deploymentResource (bg_namespace bg) (deploymentObject name containerImage instances pvcClaimName))"

definition deploy :: "Boogeyman \<Rightarrow> string \<Rightarrow> string \<Rightarrow> int \<Rightarrow> string \<Rightarrow> go_error option haunting" where
  "deploy bg name containerImage instances pvcName = createDeployment bg name containerImage instances pvcName"

definition deployAndCreatePVC :: "Boogeyman \<Rightarrow> string \<Rightarrow> string \<Rightarrow> int \<Rightarrow> string \<Rightarrow> int \<Rightarrow> go_error option haunting" where
  "deployAndCreatePVC bg name containerImage instances pvcName pvcSize = do {
     let uniquePVCName = name @ ''-claim'';
     _ \<leftarrow> createPersistentVolumeClaim bg uniquePVCName pvcSize;
     createDeployment bg name containerImage instances uniquePVCName
   }"

section \<open>Starting\<close>

text \<open>
  What the start-up reads: the home directory, the \<open>-kubeconfig\<close> flag when given, the loaders of the
  client library (each either fails or gives a value), and the answer to opening a watch. The
  clientset is a pointer, nil (\<open>None\<close>) when it could not be built.
\<close>

record ('cfg, 'cs) haunt_env =
  he_HomeDir :: string
  he_flag :: "string option"
  he_BuildConfigFromFlags :: "string \<Rightarrow> go_error + 'cfg"
  he_NewDynamic :: "'cfg \<Rightarrow> go_error + (dyn_req, go_error option) service"
  he_NewClientset :: "'cfg \<Rightarrow> go_error + 'cs"
  he_Watch :: "'cs \<Rightarrow> gvr \<Rightarrow> string \<Rightarrow> go_error option"

definition setupClient ::
    "('cfg, 'cs) haunt_env \<Rightarrow> go_error + (dyn_req, go_error option) service \<times> 'cs option" where
  "setupClient env =
     (let kubeconfig = (case he_flag env of
          Some path \<Rightarrow> path
        | None \<Rightarrow> if he_HomeDir env \<noteq> '''' then he_HomeDir env @ ''/.kube/config'' else '''')
      in case he_BuildConfigFromFlags env kubeconfig of
           Inl e \<Rightarrow> Inl e
         | Inr config \<Rightarrow>
             (case he_NewDynamic env config of
                Inl e \<Rightarrow> Inl e
              | Inr client \<Rightarrow>
                  Inr (client, (case he_NewClientset env config of Inl _ \<Rightarrow> None | Inr cs \<Rightarrow> Some cs))))"

text \<open>Opening the watch on one resource; the clientset is dereferenced first.\<close>

definition startWatcher :: "('cfg, 'cs) haunt_env \<Rightarrow> 'cs option \<Rightarrow> string \<Rightarrow> gvr \<Rightarrow> go_error option outcome" where
  "startWatcher env clientset namespace res =
     (case deref clientset of
        Panic m \<Rightarrow> Panic m
      | Ret cs \<Rightarrow> Ret (he_Watch env cs res namespace))"

definition startState :: bstate where
  "startState = \<lparr>bs_deployments = [], bs_pvcs = [], bs_pods = [], bs_calls = [], bs_loops = 0, bs_rands = 0\<rparr>"

definition NewBoogeyman ::
    "('cfg, 'cs) haunt_env \<Rightarrow> range_order \<Rightarrow> (nat \<Rightarrow> nat \<Rightarrow> nat) \<Rightarrow> string \<Rightarrow>
      (go_error + Boogeyman \<times> bstate) outcome" where
  "NewBoogeyman env ord rnd namespace =
     (case setupClient env of
        Inl e \<Rightarrow> Ret (Inl e)
      | Inr (client, clientset) \<Rightarrow>
          (case startWatcher env clientset namespace deploymentResource of
             Panic m \<Rightarrow> Panic m
           | Ret (Some e) \<Rightarrow> Ret (Inl e)
           | Ret None \<Rightarrow>
               (case startWatcher env clientset namespace pvcResource of
                  Panic m \<Rightarrow> Panic m
                | Ret (Some e) \<Rightarrow> Ret (Inl e)
                | Ret None \<Rightarrow>
                    (case startWatcher env clientset namespace podResource of
                       Panic m \<Rightarrow> Panic m
                     | Ret (Some e) \<Rightarrow> Ret (Inl e)
                     | Ret None \<Rightarrow>
                         Ret (Inr (\<lparr>bg_namespace = namespace, bg_client = client, bg_order = ord, bg_Intn = rnd\<rparr>,
                           startState))))))"

section \<open>The master and the watchers\<close>

text \<open>One round of \<open>masterWorker\<close>: errors are printed, a panic ends the process.\<close>

definition ignoring :: "'a haunting \<Rightarrow> unit outcome haunting" where
  "ignoring m = do { _ \<leftarrow> m; State_Monad.return (Ret ()) }"

definition masterRound :: "Boogeyman \<Rightarrow> command \<Rightarrow> unit outcome haunting" where
  "masterRound bg cmd =
     (if co_cmdType cmd = createPVC_cmd then
        ignoring (createPersistentVolumeClaim bg (co_pvcName cmd) (co_pvcSize cmd))
      else if co_cmdType cmd = deploy_cmd then
        (if co_pvcName cmd = '''' then
           ignoring (deployAndCreatePVC bg (co_name cmd) (co_containerImage cmd) (co_instances cmd)
             (co_pvcName cmd) (co_pvcSize cmd))
         else ignoring (deploy bg (co_name cmd) (co_containerImage cmd) (co_instances cmd) (co_pvcName cmd)))
      else if co_cmdType cmd = deleteAllPods_cmd then ignoring (deleteAllPods bg (co_force cmd))
      else if co_cmdType cmd = deleteRandomPod_cmd then deleteRandomPod bg (co_force cmd) (co_instances cmd)
      else if co_cmdType cmd = deleteAllDeployments_cmd then ignoring (deleteAllDeployments bg (co_force cmd))
      else if co_cmdType cmd = deleteRandomDeployment_cmd then deleteRandomDeployment bg (co_force cmd)
      else if co_cmdType cmd = deploymentAdded then
        ignoring (bput (\<lambda>s. s\<lparr>bs_deployments := gm_set (bs_deployments s) (co_name cmd) True\<rparr>))
      else if co_cmdType cmd = deploymentDeleted then
        ignoring (bput (\<lambda>s. s\<lparr>bs_deployments := gm_delete (bs_deployments s) (co_name cmd)\<rparr>))
      else if co_cmdType cmd = pvcAdded then
        ignoring (bput (\<lambda>s. s\<lparr>bs_pvcs := gm_set (bs_pvcs s) (co_name cmd) True\<rparr>))
      else if co_cmdType cmd = pvcDeleted then
        ignoring (bput (\<lambda>s. s\<lparr>bs_pvcs := gm_delete (bs_pvcs s) (co_name cmd)\<rparr>))
      else if co_cmdType cmd = podAdded then
        ignoring (bput (\<lambda>s. s\<lparr>bs_pods := gm_set (bs_pods s) (co_name cmd) True\<rparr>))
      else if co_cmdType cmd = podDeleted then
        ignoring (bput (\<lambda>s. s\<lparr>bs_pods := gm_delete (bs_pods s) (co_name cmd)\<rparr>))
      else State_Monad.return (Ret ()))"

text \<open>The master's loop on the commands it receives; the process dies with the first panic.\<close>

fun masterWorker :: "Boogeyman \<Rightarrow> command list \<Rightarrow> unit outcome haunting" where
  "masterWorker bg [] = State_Monad.return (Ret ())"
| "masterWorker bg (cmd # cmds) = do {
     r \<leftarrow> masterRound bg cmd;
     case r of Panic m \<Rightarrow> State_Monad.return (Panic m) | Ret _ \<Rightarrow> masterWorker bg cmds
   }"

text \<open>
  An event of a watch: its type and the name of the object, absent when the object is not of the
  watched type (the type assertion then gives a nil pointer).
\<close>

record watchEvent =
  we_Type :: string
  we_Object :: "string option"

definition watcherRound :: "int \<Rightarrow> int \<Rightarrow> watchEvent \<Rightarrow> (command option) outcome" where
  "watcherRound added deleted event =
     (if we_Type event = ''ADDED'' then
        (case deref (we_Object event) of Panic m \<Rightarrow> Panic m | Ret name \<Rightarrow> Ret (Some (newUpdateCommand added name)))
      else if we_Type event = ''DELETED'' then
        (case deref (we_Object event) of Panic m \<Rightarrow> Panic m | Ret name \<Rightarrow> Ret (Some (newUpdateCommand deleted name)))
      else Ret None)"

definition deploymentWatcher :: "watchEvent \<Rightarrow> (command option) outcome" where
  "deploymentWatcher event = watcherRound deploymentAdded deploymentDeleted event"

definition pvcWatcher :: "watchEvent \<Rightarrow> (command option) outcome" where
  "pvcWatcher event = watcherRound pvcAdded pvcDeleted event"

definition podWatcher :: "watchEvent \<Rightarrow> (command option) outcome" where
  "podWatcher event = watcherRound podAdded podDeleted event"

text \<open>The commands the exported methods send; the fresh identifier of a deployment is a parameter.\<close>

definition DeleteRandomPod :: "bool \<Rightarrow> int \<Rightarrow> command" where
  "DeleteRandomPod force instances = newDeleteRandomPodCommand force instances"

definition DeleteAllPods :: "bool \<Rightarrow> command" where
  "DeleteAllPods force = newDeleteAllPodsCommand force"

definition DeleteAllDeployments :: "bool \<Rightarrow> command" where
  "DeleteAllDeployments force = newDeleteAllDeploymentsCommand force"

definition DeleteRandomDeployment :: "bool \<Rightarrow> command" where
  "DeleteRandomDeployment force = newDeleteRandomDeploymentCommand force"

definition Deploy :: "string \<Rightarrow> string \<Rightarrow> int \<Rightarrow> int \<Rightarrow> command" where
  "Deploy guid containerImage instances pvcSize =
     newDeployCommand (''boogeyman'' @ ''-'' @ guid) containerImage instances '''' pvcSize"

definition DeploySharedPVC :: "string \<Rightarrow> string \<Rightarrow> int \<Rightarrow> string \<Rightarrow> command" where
  "DeploySharedPVC guid containerImage instances pvcName =
     newDeployCommand (''boogeyman'' @ ''-'' @ guid) containerImage instances pvcName 0"

definition CreatePersistentVolumeClaim :: "string \<Rightarrow> int \<Rightarrow> command" where
  "CreatePersistentVolumeClaim pvcName pvcSize = newCreatewPVCCommand pvcName pvcSize"

section \<open>Runs\<close>

text \<open>The commands the master has received so far, and the state they lead to without a panic.\<close>

inductive haunts :: "Boogeyman \<Rightarrow> command list \<Rightarrow> bstate \<Rightarrow> bool" for bg where
  started: "haunts bg [] startState"
| received: "haunts bg cmds s \<Longrightarrow> run_state (masterRound bg cmd) s = (Ret (), t) \<Longrightarrow>
    haunts bg (cmds @ [cmd]) t"

inductive_cases haunts_nilE: "haunts bg [] s"
inductive_cases haunts_snocE: "haunts bg (cmds @ [cmd]) s"

code_pred haunts .

section \<open>What the rounds do\<close>

text \<open>
  The contract of a set kept up to date by announcements: a step adds what it announces, removes what
  it retracts, and leaves the others. Then the set holds exactly the names whose announcement was not
  followed by a retraction.
\<close>

locale tracker =
  fixes run :: "'c list \<Rightarrow> 's \<Rightarrow> bool"
    and step :: "'s \<Rightarrow> 'c \<Rightarrow> 's \<Rightarrow> bool"
    and tracked :: "'s \<Rightarrow> string set"
    and adds :: "'c \<Rightarrow> string \<Rightarrow> bool"
    and removes :: "'c \<Rightarrow> string \<Rightarrow> bool"
  assumes run_nil: "run [] s \<Longrightarrow> tracked s = {}"
    and run_snoc: "run (cs @ [c]) t \<Longrightarrow> \<exists>s. run cs s \<and> step s c t"
    and step_tracked: "step s c t \<Longrightarrow> tracked t = {n. adds c n \<or> n \<in> tracked s \<and> \<not> removes c n}"
    and adds_not_removes: "adds c n \<Longrightarrow> \<not> removes c n"
begin

lemma tracked_announced:
  "run cs s \<Longrightarrow> tracked s =
     {n. \<exists>pre c post. cs = pre @ c # post \<and> adds c n \<and> list_all (\<lambda>d. \<not> removes d n) post}"
proof (induction cs arbitrary: s rule: rev_induct)
  case Nil
  then show ?case using run_nil by simp
next
  case (snoc c cs)
  from run_snoc [OF snoc.prems] obtain t where t: "run cs t" "step t c s" by blast
  have split: "(\<exists>pre d post. cs @ [c] = pre @ d # post \<and> adds d n \<and> list_all (\<lambda>d. \<not> removes d n) post) \<longleftrightarrow>
      adds c n \<or> (\<exists>pre d post. cs = pre @ d # post \<and> adds d n \<and> list_all (\<lambda>d. \<not> removes d n) post) \<and> \<not> removes c n"
    (is "?L \<longleftrightarrow> ?R") for n
  proof
    assume ?L
    then obtain pre d post where d: "cs @ [c] = pre @ d # post" "adds d n" "list_all (\<lambda>d. \<not> removes d n) post"
      by blast
    then show ?R by (cases post rule: rev_cases) auto
  next
    assume ?R
    then show ?L
    proof (elim disjE conjE exE)
      assume "adds c n"
      then show ?L by (intro exI [of _ cs] exI [of _ c] exI [of _ "[]"]) simp
    next
      fix pre d post
      assume "cs = pre @ d # post" "adds d n" "list_all (\<lambda>d. \<not> removes d n) post" "\<not> removes c n"
      then show ?L by (intro exI [of _ pre] exI [of _ d] exI [of _ "post @ [c]"]) simp
    qed
  qed
  show ?case
    by (simp add: step_tracked [OF t(2)] snoc.IH [OF t(1)] split)
qed

end

text \<open>A command that announces a name, and the names announced and not retracted since.\<close>

definition says :: "int \<Rightarrow> string \<Rightarrow> command \<Rightarrow> bool" where
  "says kind n cmd \<longleftrightarrow> co_cmdType cmd = kind \<and> co_name cmd = n"

definition announced :: "int \<Rightarrow> int \<Rightarrow> command list \<Rightarrow> string set" where
  "announced added deleted cmds =
     {n. \<exists>pre c post. cmds = pre @ c # post \<and> says added n c \<and> list_all (\<lambda>d. \<not> says deleted n d) post}"

definition names :: "(string, bool) gomap \<Rightarrow> string set" where
  "names m = set (gm_keys m)"

lemma names_simps [simp]:
  "names [] = {}"
  "names (gm_set m k v) = insert k (names m)"
  "names (gm_delete m k) = names m - {k}"
  by (simp_all add: names_def) (simp add: gm_keys_def)

text \<open>Everything but the updates leaves the maps alone.\<close>

definition sameMaps :: "bstate \<Rightarrow> bstate \<Rightarrow> bool" where
  "sameMaps s t \<longleftrightarrow> bs_deployments t = bs_deployments s \<and> bs_pvcs t = bs_pvcs s \<and> bs_pods t = bs_pods s"

lemma sameMaps_simps [simp]:
  "sameMaps s s"
  "sameMaps s (t\<lparr>bs_calls := c\<rparr>) = sameMaps s t"
  "sameMaps s (t\<lparr>bs_loops := l\<rparr>) = sameMaps s t"
  "sameMaps s (t\<lparr>bs_rands := r\<rparr>) = sameMaps s t"
  "sameMaps (s\<lparr>bs_calls := c\<rparr>) t = sameMaps s t"
  "sameMaps (s\<lparr>bs_loops := l\<rparr>) t = sameMaps s t"
  "sameMaps (s\<lparr>bs_rands := r\<rparr>) t = sameMaps s t"
  by (simp_all add: sameMaps_def)

lemma deleteEach_run:
  "run_state (deleteEach bg res force ns) s =
     ((), s\<lparr>bs_calls := bs_calls s @ map (deleteObject bg res force) ns\<rparr>)"
  by (induction ns arbitrary: s) simp_all

lemma deleteAllPods_run:
  "run_state (deleteAllPods bg force) s =
     ((), s\<lparr>bs_loops := Suc (bs_loops s), bs_calls := bs_calls s @
        map (deleteObject bg podResource force) (bg_order bg (bs_loops s) (gm_keys (bs_pods s)))\<rparr>)"
  by (simp add: deleteAllPods_def deleteEach_run)

lemma deleteAllDeployments_run:
  "run_state (deleteAllDeployments bg force) s =
     ((), s\<lparr>bs_loops := Suc (Suc (bs_loops s)), bs_calls := bs_calls s @
        map (deleteObject bg deploymentResource force) (bg_order bg (bs_loops s) (gm_keys (bs_deployments s))) @
        map (deleteObject bg pvcResource force) (bg_order bg (Suc (bs_loops s)) (gm_keys (bs_pvcs s)))\<rparr>)"
  by (simp add: deleteAllDeployments_def deleteEach_run)

lemma keeps_haunting [simp, intro]:
  "keeps (sameMaps s) (bget f)"
  "keeps (sameMaps s) (bcall bg q)"
  "keeps (sameMaps s) (brange bg m)"
  by (auto intro!: keepsI)

lemma keeps_Intn [simp, intro]: "keeps (sameMaps s) (Intn bg n)"
  by (cases "n = 0") (auto intro!: keepsI)

lemma keeps_case:
  "(\<And>x. keeps I (f x)) \<Longrightarrow> (\<And>m. keeps I (g m)) \<Longrightarrow> keeps I (case x of Ret y \<Rightarrow> f y | Panic m \<Rightarrow> g m)"
  by (cases x) auto

lemmas keeps_rules = keeps_bind keeps_case keeps_haunting keeps_Intn keeps_return

lemma keeps_deleteEach [intro]: "keeps (sameMaps s) (deleteEach bg res force ns)"
  by (induction ns) auto

lemma keeps_deleteRandomPods [intro]: "keeps (sameMaps s) (deleteRandomPods bg force k)"
  by (induction k) (auto intro!: keeps_rules)

lemma keeps_deletions [intro]:
  "keeps (sameMaps s) (deleteAllPods bg force)"
  "keeps (sameMaps s) (deleteAllDeployments bg force)"
  "keeps (sameMaps s) (deleteRandomPod bg force n)"
  "keeps (sameMaps s) (deleteRandomDeployment bg force)"
  by (auto simp: deleteAllPods_def deleteAllDeployments_def deleteRandomPod_def deleteRandomDeployment_def
      intro!: keeps_rules keeps_deleteEach keeps_deleteRandomPods)

lemma keeps_creations [intro]:
  "keeps (sameMaps s) (createPersistentVolumeClaim bg p z)"
  "keeps (sameMaps s) (deploy bg n i k p)"
  "keeps (sameMaps s) (deployAndCreatePVC bg n i k p z)"
  by (auto simp: createPersistentVolumeClaim_def deploy_def deployAndCreatePVC_def createDeployment_def Let_def
      intro!: keeps_rules)

lemma keeps_ignoring [intro]: "keeps I m \<Longrightarrow> keeps I (ignoring m)"
  by (auto simp: ignoring_def)

lemma keepsE: "keeps (sameMaps s) m \<Longrightarrow> run_state m s = (a, t) \<Longrightarrow> sameMaps s t"
  using keepsD [of "sameMaps s" m s a t] by simp

lemma run_ignoring [simp]: "run_state (ignoring m) s = (Ret (), snd (run_state m s))"
  by (simp add: ignoring_def split: prod.split)

text \<open>A round either leaves the maps alone or is the update it was sent for.\<close>

definition updates :: "int list" where
  "updates = [deploymentAdded, deploymentDeleted, pvcAdded, pvcDeleted, podAdded, podDeleted]"

lemma masterRound_maps:
  assumes "co_cmdType cmd \<notin> set updates" and "run_state (masterRound bg cmd) s = (r, t)"
  shows "sameMaps s t"
proof (rule keepsE [OF _ assms(2)])
  show "keeps (sameMaps s) (masterRound bg cmd)"
    using assms(1) by (auto simp: masterRound_def updates_def)
qed

lemma masterRound_update:
  "co_cmdType cmd = deploymentAdded \<Longrightarrow> run_state (masterRound bg cmd) s =
     (Ret (), s\<lparr>bs_deployments := gm_set (bs_deployments s) (co_name cmd) True\<rparr>)"
  "co_cmdType cmd = deploymentDeleted \<Longrightarrow> run_state (masterRound bg cmd) s =
     (Ret (), s\<lparr>bs_deployments := gm_delete (bs_deployments s) (co_name cmd)\<rparr>)"
  "co_cmdType cmd = pvcAdded \<Longrightarrow> run_state (masterRound bg cmd) s =
     (Ret (), s\<lparr>bs_pvcs := gm_set (bs_pvcs s) (co_name cmd) True\<rparr>)"
  "co_cmdType cmd = pvcDeleted \<Longrightarrow> run_state (masterRound bg cmd) s =
     (Ret (), s\<lparr>bs_pvcs := gm_delete (bs_pvcs s) (co_name cmd)\<rparr>)"
  "co_cmdType cmd = podAdded \<Longrightarrow> run_state (masterRound bg cmd) s =
     (Ret (), s\<lparr>bs_pods := gm_set (bs_pods s) (co_name cmd) True\<rparr>)"
  "co_cmdType cmd = podDeleted \<Longrightarrow> run_state (masterRound bg cmd) s =
     (Ret (), s\<lparr>bs_pods := gm_delete (bs_pods s) (co_name cmd)\<rparr>)"
  by (simp_all add: masterRound_def cmd_defs)

lemma masterRound_names:
  assumes "run_state (masterRound bg cmd) s = (r, t)"
  shows "names (bs_deployments t) =
      {n. says deploymentAdded n cmd \<or> n \<in> names (bs_deployments s) \<and> \<not> says deploymentDeleted n cmd}"
    and "names (bs_pvcs t) =
      {n. says pvcAdded n cmd \<or> n \<in> names (bs_pvcs s) \<and> \<not> says pvcDeleted n cmd}"
    and "names (bs_pods t) =
      {n. says podAdded n cmd \<or> n \<in> names (bs_pods s) \<and> \<not> says podDeleted n cmd}"
proof -
  consider "sameMaps s t" "co_cmdType cmd \<notin> set updates" | "co_cmdType cmd \<in> set updates"
    using masterRound_maps [OF _ assms] by blast
  then have "names (bs_deployments t) =
        {n. says deploymentAdded n cmd \<or> n \<in> names (bs_deployments s) \<and> \<not> says deploymentDeleted n cmd} \<and>
      names (bs_pvcs t) = {n. says pvcAdded n cmd \<or> n \<in> names (bs_pvcs s) \<and> \<not> says pvcDeleted n cmd} \<and>
      names (bs_pods t) = {n. says podAdded n cmd \<or> n \<in> names (bs_pods s) \<and> \<not> says podDeleted n cmd}"
  proof cases
    case 1
    then show ?thesis by (auto simp: sameMaps_def says_def updates_def)
  next
    case 2
    then show ?thesis
      using assms unfolding updates_def
      by (auto simp: masterRound_update says_def) (auto simp: cmd_defs)
  qed
  then show "names (bs_deployments t) =
      {n. says deploymentAdded n cmd \<or> n \<in> names (bs_deployments s) \<and> \<not> says deploymentDeleted n cmd}"
    "names (bs_pvcs t) = {n. says pvcAdded n cmd \<or> n \<in> names (bs_pvcs s) \<and> \<not> says pvcDeleted n cmd}"
    "names (bs_pods t) = {n. says podAdded n cmd \<or> n \<in> names (bs_pods s) \<and> \<not> says podDeleted n cmd}"
    by simp_all
qed

text \<open>The rounds that delete.\<close>

lemma master_deletes:
  "masterRound bg (DeleteAllPods force) = ignoring (deleteAllPods bg force)"
  "masterRound bg (DeleteAllDeployments force) = ignoring (deleteAllDeployments bg force)"
  "masterRound bg (DeleteRandomPod force n) = deleteRandomPod bg force n"
  "masterRound bg (DeleteRandomDeployment force) = deleteRandomDeployment bg force"
  by (simp_all add: masterRound_def DeleteAllPods_def newDeleteAllPodsCommand_def DeleteAllDeployments_def
      newDeleteAllDeploymentsCommand_def DeleteRandomPod_def newDeleteRandomPodCommand_def
      DeleteRandomDeployment_def newDeleteRandomDeploymentCommand_def plainCommand_def cmd_defs)

text \<open>The relation and the loop describe the same runs.\<close>

lemma masterWorker_snoc:
  "run_state (masterWorker bg (cmds @ [cmd])) s = (Ret (), u) \<longleftrightarrow>
     (\<exists>t. run_state (masterWorker bg cmds) s = (Ret (), t) \<and> run_state (masterRound bg cmd) t = (Ret (), u))"
  by (induction cmds arbitrary: s) (auto split: prod.splits outcome.splits)

lemma haunts_iff_masterWorker: "haunts bg cmds s \<longleftrightarrow> run_state (masterWorker bg cmds) startState = (Ret (), s)"
proof (induction cmds arbitrary: s rule: rev_induct)
  case Nil
  then show ?case by (auto elim: haunts_nilE intro: haunts.started)
next
  case (snoc cmd cmds)
  then show ?case by (auto simp: masterWorker_snoc elim!: haunts_snocE intro: haunts.received)
qed

text \<open>The three maps are trackers of the three pairs of updates.\<close>

lemma tracker_intro:
  assumes "\<And>s. s = startState \<Longrightarrow> tracked s = {}"
    and "\<And>s cmd r t. run_state (masterRound bg cmd) s = (r, t) \<Longrightarrow>
      tracked t = {n. says added n cmd \<or> n \<in> tracked s \<and> \<not> says deleted n cmd}"
    and "added \<noteq> deleted"
  shows "tracker (haunts bg) (\<lambda>s cmd t. run_state (masterRound bg cmd) s = (Ret (), t)) tracked
    (\<lambda>cmd n. says added n cmd) (\<lambda>cmd n. says deleted n cmd)"
  using assms by unfold_locales (auto elim: haunts_nilE haunts_snocE simp: says_def)

interpretation td: tracker "haunts bg" "\<lambda>s cmd t. run_state (masterRound bg cmd) s = (Ret (), t)"
    "\<lambda>s. names (bs_deployments s)" "\<lambda>cmd n. says deploymentAdded n cmd" "\<lambda>cmd n. says deploymentDeleted n cmd"
  for bg
  by (rule tracker_intro) (simp add: startState_def, rule masterRound_names, assumption, simp add: cmd_defs)

interpretation tv: tracker "haunts bg" "\<lambda>s cmd t. run_state (masterRound bg cmd) s = (Ret (), t)"
    "\<lambda>s. names (bs_pvcs s)" "\<lambda>cmd n. says pvcAdded n cmd" "\<lambda>cmd n. says pvcDeleted n cmd"
  for bg
  by (rule tracker_intro) (simp add: startState_def, rule masterRound_names, assumption, simp add: cmd_defs)

interpretation tp: tracker "haunts bg" "\<lambda>s cmd t. run_state (masterRound bg cmd) s = (Ret (), t)"
    "\<lambda>s. names (bs_pods s)" "\<lambda>cmd n. says podAdded n cmd" "\<lambda>cmd n. says podDeleted n cmd"
  for bg
  by (rule tracker_intro) (simp add: startState_def, rule masterRound_names, assumption, simp add: cmd_defs)

lemma tracked_names:
  assumes "haunts bg cmds s"
  shows "names (bs_deployments s) = announced deploymentAdded deploymentDeleted cmds"
    and "names (bs_pvcs s) = announced pvcAdded pvcDeleted cmds"
    and "names (bs_pods s) = announced podAdded podDeleted cmds"
  unfolding announced_def
  by (rule td.tracked_announced tv.tracked_announced tp.tracked_announced, rule assms)+

text \<open>Every name is once in a map.\<close>

definition mapsOk :: "bstate \<Rightarrow> bool" where
  "mapsOk s \<longleftrightarrow> gm_ok (bs_deployments s) \<and> gm_ok (bs_pvcs s) \<and> gm_ok (bs_pods s)"

lemma masterRound_ok: "mapsOk s \<Longrightarrow> run_state (masterRound bg cmd) s = (r, t) \<Longrightarrow> mapsOk t"
proof (cases "co_cmdType cmd \<in> set updates")
  case True
  assume "mapsOk s" "run_state (masterRound bg cmd) s = (r, t)"
  with True show ?thesis
    unfolding updates_def by (auto simp: masterRound_update mapsOk_def)
next
  case False
  assume "mapsOk s" "run_state (masterRound bg cmd) s = (r, t)"
  with masterRound_maps [OF False] show ?thesis by (auto simp: sameMaps_def mapsOk_def)
qed

lemma haunts_ok: "haunts bg cmds s \<Longrightarrow> mapsOk s"
proof (induction rule: haunts.induct)
  case started
  then show ?case by (simp add: mapsOk_def startState_def)
next
  case received
  then show ?case by (rule_tac masterRound_ok)
qed

lemma ok_keys: "gm_ok m \<Longrightarrow> mset (gm_keys m) = mset_set (names m)"
  by (simp add: names_def mset_set_set gm.keys_distinct)

lemma ok_length: "gm_ok m \<Longrightarrow> length (gm_keys m) = card (names m)"
  by (simp add: names_def distinct_card gm.keys_distinct)

lemma names_empty: "names m = {} \<longleftrightarrow> gm_keys m = []"
  by (simp add: names_def)

text \<open>What is assumed of \<open>rand.Intn\<close>: the draw is below the bound.\<close>

definition is_rand :: "(nat \<Rightarrow> nat \<Rightarrow> nat) \<Rightarrow> bool" where
  "is_rand rnd \<longleftrightarrow> (\<forall>k n. 0 < n \<longrightarrow> rnd k n < n)"

lemma draw_in_range:
  assumes "is_order ord" and "is_rand rnd" and "ks \<noteq> []"
  obtains p where "index_at (ord l ks) (rnd k (length ks)) = Ret p" and "p \<in> set ks"
proof -
  have i: "rnd k (length ks) < length (ord l ks)"
    using assms by (simp add: is_rand_def)
  with assms(1) have "ord l ks ! rnd k (length ks) \<in> set ks"
    by (metis is_order_set nth_mem)
  with i show thesis by (intro that) (simp_all add: index_at_def)
qed

lemma deleteRandomPods_run:
  assumes "is_order (bg_order bg)" and "is_rand (bg_Intn bg)" and "gm_keys (bs_pods s) \<noteq> []"
  shows "\<exists>ps t. run_state (deleteRandomPods bg force k) s = (Ret (), t) \<and> length ps = k \<and>
    set ps \<subseteq> names (bs_pods s) \<and> bs_calls t = bs_calls s @ map (deleteObject bg podResource force) ps"
  using assms(3)
proof (induction k arbitrary: s)
  case 0
  then show ?case by simp
next
  case (Suc k)
  obtain p where p: "index_at (bg_order bg (bs_loops s) (gm_keys (bs_pods s)))
      (bg_Intn bg (bs_rands s) (length (gm_keys (bs_pods s)))) = Ret p" "p \<in> names (bs_pods s)"
    using draw_in_range [OF assms(1,2) Suc.prems] by (auto simp: names_def)
  let ?s = "s\<lparr>bs_loops := Suc (bs_loops s), bs_rands := Suc (bs_rands s),
    bs_calls := bs_calls s @ [deleteObject bg podResource force p]\<rparr>"
  from Suc.IH [of ?s] Suc.prems obtain ps t where "run_state (deleteRandomPods bg force k) ?s = (Ret (), t)"
    "length ps = k" "set ps \<subseteq> names (bs_pods s)"
    "bs_calls t = bs_calls ?s @ map (deleteObject bg podResource force) ps"
    by auto
  with p Suc.prems show ?case
    by (intro exI [of _ "p # ps"] exI [of _ t]) simp
qed

lemma deleteRandomPods_none:
  "gm_keys (bs_pods s) = [] \<Longrightarrow> 0 < k \<Longrightarrow>
     run_state (deleteRandomPods bg force k) s = (Panic ''invalid argument to Intn'', s\<lparr>bs_loops := Suc (bs_loops s)\<rparr>)"
  by (cases k) simp_all

lemma deleteRandomDeployment_run:
  assumes "is_order (bg_order bg)" and "is_rand (bg_Intn bg)"
  shows "gm_keys (bs_deployments s) \<noteq> [] \<Longrightarrow> \<exists>d t. run_state (deleteRandomDeployment bg force) s = (Ret (), t) \<and>
      d \<in> names (bs_deployments s) \<and> bs_calls t = bs_calls s @ [deleteObject bg deploymentResource force d]"
    and "gm_keys (bs_deployments s) = [] \<Longrightarrow> run_state (deleteRandomDeployment bg force) s =
      (Panic ''invalid argument to Intn'', s\<lparr>bs_loops := Suc (bs_loops s)\<rparr>)"
proof -
  assume "gm_keys (bs_deployments s) \<noteq> []"
  then show "\<exists>d t. run_state (deleteRandomDeployment bg force) s = (Ret (), t) \<and>
      d \<in> names (bs_deployments s) \<and> bs_calls t = bs_calls s @ [deleteObject bg deploymentResource force d]"
    by (rule_tac draw_in_range [OF assms, of "gm_keys (bs_deployments s)" "bs_loops s" "bs_rands s"])
      (auto simp: deleteRandomDeployment_def names_def)
next
  assume "gm_keys (bs_deployments s) = []"
  then show "run_state (deleteRandomDeployment bg force) s =
      (Panic ''invalid argument to Intn'', s\<lparr>bs_loops := Suc (bs_loops s)\<rparr>)"
    by (simp add: deleteRandomDeployment_def)
qed

section \<open>Properties\<close>

definition demo_boogeyman :: Boogeyman where
  "demo_boogeyman = \<lparr>bg_namespace = ''play'', bg_client = (\<lambda>h q. None), bg_order = reverse_order,
     bg_Intn = (\<lambda>k n. n - 1)\<rparr>"

definition demo_cmds :: "command list" where
  "demo_cmds = [newUpdateCommand podAdded ''a'', newUpdateCommand deploymentAdded ''d'',
     newUpdateCommand podAdded ''b'', newUpdateCommand podDeleted ''a'', newUpdateCommand pvcAdded ''v'']"

definition demo_haunted :: bstate where
  "demo_haunted = startState\<lparr>bs_deployments := [(''d'', True)], bs_pods := [(''b'', True)], bs_pvcs := [(''v'', True)]\<rparr>"

lemma demo_haunts: "haunts demo_boogeyman demo_cmds demo_haunted"
  unfolding haunts_iff_masterWorker by code_simp

lemma demo_rand: "is_order (bg_order demo_boogeyman)" "is_rand (bg_Intn demo_boogeyman)"
  by (simp_all add: demo_boogeyman_def is_rand_def)

text \<open>
  C22: The master's three sets hold exactly the names whose Added event was not followed by a Deleted
  event, whatever other commands it received in between, and the counts it reports are their sizes.
\<close>

theorem boogeyman_tracks:
  assumes "haunts bg cmds s"
  shows "names (bs_deployments s) = announced deploymentAdded deploymentDeleted cmds \<and>
    names (bs_pvcs s) = announced pvcAdded pvcDeleted cmds \<and>
    names (bs_pods s) = announced podAdded podDeleted cmds \<and>
    fst (run_state NumberOfPods s) = card (announced podAdded podDeleted cmds) \<and>
    fst (run_state NumberOfDeployments s) = card (announced deploymentAdded deploymentDeleted cmds)"
  using tracked_names [OF assms] haunts_ok [OF assms]
  by (simp add: NumberOfPods_def NumberOfDeployments_def mapsOk_def ok_length)

theorem boogeyman_tracks_witness:
  "announced podAdded podDeleted demo_cmds = {''b''} \<and> fst (run_state NumberOfPods demo_haunted) = 1"
proof -
  have b: "names (bs_pods demo_haunted) = {''b''}"
    by (simp add: demo_haunted_def names_def gm_keys_def)
  from boogeyman_tracks [OF demo_haunts]
  have "announced podAdded podDeleted demo_cmds = {''b''}"
    and "fst (run_state NumberOfPods demo_haunted) = card (announced podAdded podDeleted demo_cmds)"
    unfolding b by simp_all
  then show ?thesis by simp
qed

text \<open>
  C39: Deleting everything issues one deletion for each pod announced and not retracted, and for the
  deployments one for each of them followed by one for each volume claim, with a zero grace period when
  forced; failures of single deletions stop nothing.
\<close>

theorem delete_all_complete:
  assumes "haunts bg cmds s" and "is_order (bg_order bg)"
  shows "(\<exists>t ps. run_state (masterRound bg (DeleteAllPods force)) s = (Ret (), t) \<and>
      bs_calls t = bs_calls s @ map (deleteObject bg podResource force) ps \<and>
      distinct ps \<and> set ps = announced podAdded podDeleted cmds) \<and>
    (\<exists>t ds vs. run_state (masterRound bg (DeleteAllDeployments force)) s = (Ret (), t) \<and>
      bs_calls t = bs_calls s @ map (deleteObject bg deploymentResource force) ds @ map (deleteObject bg pvcResource force) vs \<and>
      distinct ds \<and> set ds = announced deploymentAdded deploymentDeleted cmds \<and>
      distinct vs \<and> set vs = announced pvcAdded pvcDeleted cmds)"
proof -
  have keys: "distinct (gm_keys (bs_pods s))" "distinct (gm_keys (bs_deployments s))" "distinct (gm_keys (bs_pvcs s))"
    using haunts_ok [OF assms(1)] by (simp_all add: mapsOk_def gm.keys_distinct)
  note run = master_deletes deleteAllPods_run deleteAllDeployments_run
    tracked_names [OF assms(1), symmetric] names_def
  have "\<exists>t. run_state (masterRound bg (DeleteAllPods force)) s = (Ret (), t) \<and>
      bs_calls t = bs_calls s @ map (deleteObject bg podResource force) (bg_order bg (bs_loops s) (gm_keys (bs_pods s)))"
    and "\<exists>t. run_state (masterRound bg (DeleteAllDeployments force)) s = (Ret (), t) \<and>
      bs_calls t = bs_calls s @
        map (deleteObject bg deploymentResource force) (bg_order bg (bs_loops s) (gm_keys (bs_deployments s))) @
        map (deleteObject bg pvcResource force) (bg_order bg (Suc (bs_loops s)) (gm_keys (bs_pvcs s)))"
    by (simp_all add: run)
  moreover have "set (bg_order bg k (gm_keys (bs_pods s))) = announced podAdded podDeleted cmds"
    "set (bg_order bg k (gm_keys (bs_deployments s))) = announced deploymentAdded deploymentDeleted cmds"
    "set (bg_order bg k (gm_keys (bs_pvcs s))) = announced pvcAdded pvcDeleted cmds" for k
    using assms(2) by (simp_all add: run)
  ultimately show ?thesis
    using keys assms(2) by (meson is_order_distinct)
qed

theorem delete_all_complete_witness:
  "\<exists>t ps. run_state (masterRound demo_boogeyman (DeleteAllPods True)) demo_haunted = (Ret (), t) \<and>
     bs_calls t = map (deleteObject demo_boogeyman podResource True) ps \<and> distinct ps \<and>
     set ps = announced podAdded podDeleted demo_cmds"
  using delete_all_complete [OF demo_haunts demo_rand(1), of True]
  by (simp add: demo_haunted_def startState_def)

lemma random_pod_deletion:
  assumes "haunts bg cmds s" and "is_order (bg_order bg)" and "is_rand (bg_Intn bg)"
  shows "\<exists>t ps. run_state (masterRound bg (DeleteRandomPod force n)) s =
        (if 0 < n \<and> announced podAdded podDeleted cmds = {} then Panic ''invalid argument to Intn'' else Ret (), t) \<and>
      bs_calls t = bs_calls s @ map (deleteObject bg podResource force) ps \<and>
      set ps \<subseteq> announced podAdded podDeleted cmds \<and>
      length ps = (if announced podAdded podDeleted cmds = {} then 0 else nat n)"
proof (cases "gm_keys (bs_pods s) = []")
  case True
  then show ?thesis
    by (cases "0 < n") (simp_all add: master_deletes deleteRandomPod_def deleteRandomPods_none
        tracked_names [OF assms(1), symmetric] names_empty)
next
  case False
  with deleteRandomPods_run [OF assms(2,3), of s force "nat n"] show ?thesis
    by (auto simp: master_deletes deleteRandomPod_def tracked_names [OF assms(1), symmetric] names_empty)
qed

lemma random_deployment_deletion:
  assumes "haunts bg cmds s" and "is_order (bg_order bg)" and "is_rand (bg_Intn bg)"
  shows "\<exists>t ds. run_state (masterRound bg (DeleteRandomDeployment force)) s =
        (if announced deploymentAdded deploymentDeleted cmds = {} then Panic ''invalid argument to Intn'' else Ret (), t) \<and>
      bs_calls t = bs_calls s @ map (deleteObject bg deploymentResource force) ds \<and>
      set ds \<subseteq> announced deploymentAdded deploymentDeleted cmds \<and>
      length ds = (if announced deploymentAdded deploymentDeleted cmds = {} then 0 else 1)"
proof (cases "gm_keys (bs_deployments s) = []")
  case True
  then show ?thesis
    by (simp add: master_deletes deleteRandomDeployment_run(2) [OF assms(2,3)]
        tracked_names [OF assms(1), symmetric] names_empty)
next
  case False
  then obtain d t where "run_state (deleteRandomDeployment bg force) s = (Ret (), t)"
    "d \<in> names (bs_deployments s)" "bs_calls t = bs_calls s @ [deleteObject bg deploymentResource force d]"
    using deleteRandomDeployment_run(1) [OF assms(2,3)] by blast
  with False show ?thesis
    by (intro exI [of _ t] exI [of _ "[d]"])
      (simp add: master_deletes tracked_names [OF assms(1), symmetric] names_empty)
qed

text \<open>
  A random pod deletion for n instances panics the master exactly when n is positive and no pod is
  announced, and otherwise issues n deletions of announced pods, possibly the same one several times; a
  random deployment deletion panics when no deployment is announced and otherwise deletes one of them.
\<close>

lemma random_deletions:
  assumes "haunts bg cmds s" and "is_order (bg_order bg)" and "is_rand (bg_Intn bg)"
  shows "(\<exists>t ps. run_state (masterRound bg (DeleteRandomPod force n)) s =
        (if 0 < n \<and> announced podAdded podDeleted cmds = {} then Panic ''invalid argument to Intn'' else Ret (), t) \<and>
      bs_calls t = bs_calls s @ map (deleteObject bg podResource force) ps \<and>
      set ps \<subseteq> announced podAdded podDeleted cmds \<and>
      length ps = (if announced podAdded podDeleted cmds = {} then 0 else nat n)) \<and>
    (\<exists>t ds. run_state (masterRound bg (DeleteRandomDeployment force)) s =
        (if announced deploymentAdded deploymentDeleted cmds = {} then Panic ''invalid argument to Intn'' else Ret (), t) \<and>
      bs_calls t = bs_calls s @ map (deleteObject bg deploymentResource force) ds \<and>
      set ds \<subseteq> announced deploymentAdded deploymentDeleted cmds \<and>
      length ds = (if announced deploymentAdded deploymentDeleted cmds = {} then 0 else 1))"
  by (intro conjI random_pod_deletion random_deployment_deletion assms)

lemma random_deletions_witness:
  "(\<exists>t. run_state (masterRound demo_boogeyman (DeleteRandomDeployment False)) startState =
      (Panic ''invalid argument to Intn'', t)) \<and>
   (\<exists>t ps. run_state (masterRound demo_boogeyman (DeleteRandomPod True 3)) demo_haunted = (Ret (), t) \<and>
      length ps = 3 \<and> set ps \<subseteq> {''b''})"
proof
  have none: "announced deploymentAdded deploymentDeleted [] = {}"
    by (simp add: announced_def)
  from random_deletions [OF haunts.started demo_rand, of False 0] none
  show "\<exists>t. run_state (masterRound demo_boogeyman (DeleteRandomDeployment False)) startState =
      (Panic ''invalid argument to Intn'', t)" by auto
  have b: "announced podAdded podDeleted demo_cmds = {''b''}"
    using tracked_names(3) [OF demo_haunts] by (simp add: demo_haunted_def names_def gm_keys_def)
  from random_deletions [OF demo_haunts demo_rand, of True 3]
  show "\<exists>t ps. run_state (masterRound demo_boogeyman (DeleteRandomPod True 3)) demo_haunted = (Ret (), t) \<and>
      length ps = 3 \<and> set ps \<subseteq> {''b''}"
    unfolding b by auto
qed

text \<open>
  Starting panics with a nil dereference, after the dynamic client was built, exactly when the
  clientset could not be built: its error is dropped, and every other failure is returned.
\<close>

lemma start_panics_iff:
  "(\<exists>m. NewBoogeyman env ord rnd namespace = Panic m) \<longleftrightarrow>
     (\<exists>client. setupClient env = Inr (client, None))"
  by (auto simp: NewBoogeyman_def startWatcher_def deref_def split: sum.splits option.splits outcome.splits)

end
