(* ===== verification/Chaos_Monkey.thy ===== *)
theory Chaos_Monkey
  imports Boogeyman
begin

text \<open>
  The chaos monkeys of the tests (\<open>tests/boogeyman/chaos_monkey.go\<close>): goroutines that wake up at random
  and send deletions to the master of the boogeyman. The draws are parameters of a round; sleeping only decides what the master receives in
  between, which is a parameter too. The theorem says when a monkey takes the test process down.
\<close>

section \<open>The monkeys\<close>

text \<open>The floating-point operations a round uses; \<open>fl_int\<close> is the conversion to \<open>int\<close>.\<close>

record 'f float64 =
  fl_of_int :: "int \<Rightarrow> 'f"
  fl_times :: "'f \<Rightarrow> 'f \<Rightarrow> 'f"
  fl_plus :: "'f \<Rightarrow> 'f \<Rightarrow> 'f"
  fl_half :: 'f
  fl_int :: "'f \<Rightarrow> int"

definition podsToKill :: "'f float64 \<Rightarrow> 'f \<Rightarrow> nat \<Rightarrow> 'f \<Rightarrow> int" where
  "podsToKill fl fractionOfPodsToKill numberOfPods normal =
     (let mu = fl_times fl (fl_of_int fl (int numberOfPods)) fractionOfPodsToKill;
          sigma = fl_times fl mu (fl_half fl)
      in fl_int fl (fl_plus fl (fl_times fl normal sigma) mu))"

text \<open>
  A round of the pod monkey: it counts the pods, computes how many to kill and sends the command; the
  master may receive other commands between the two.
\<close>

definition podMonkeyRound :: "Boogeyman \<Rightarrow> 'f float64 \<Rightarrow> 'f \<Rightarrow> 'f \<Rightarrow> bool \<Rightarrow> command list \<Rightarrow> unit outcome haunting" where
  "podMonkeyRound bg fl fractionOfPodsToKill normal force between = do {
     numberOfPods \<leftarrow> NumberOfPods;
     r \<leftarrow> masterWorker bg between;
     case r of
       Panic m \<Rightarrow> State_Monad.return (Panic m)
     | Ret _ \<Rightarrow> masterRound bg (DeleteRandomPod force (podsToKill fl fractionOfPodsToKill numberOfPods normal))
   }"

definition deploymentMonkeyRound :: "Boogeyman \<Rightarrow> bool \<Rightarrow> unit outcome haunting" where
  "deploymentMonkeyRound bg force = masterRound bg (DeleteRandomDeployment force)"

section \<open>What the monkeys do\<close>

lemma haunts_worker:
  "haunts bg cmds s \<Longrightarrow> run_state (masterWorker bg between) s = (Ret (), t) \<Longrightarrow> haunts bg (cmds @ between) t"
proof (induction between arbitrary: cmds s)
  case Nil
  then show ?case by simp
next
  case (Cons cmd between)
  from Cons.prems(2) obtain s' where s': "run_state (masterRound bg cmd) s = (Ret (), s')"
    "run_state (masterWorker bg between) s' = (Ret (), t)"
    by (auto split: prod.splits outcome.splits)
  from Cons.IH [OF haunts.received [OF Cons.prems(1) s'(1)] s'(2)] show ?case by simp
qed

text \<open>
  C36: When the chaos monkeys end the test process. The pod monkey panics the master exactly when it drew a
  positive number of pods and no pod is left by the time the master receives its command; so never
  when the master receives nothing in between, since of no pods it kills none. The deployment monkey
  counts nothing and panics the master whenever no deployment is known.
\<close>

theorem chaos_monkeys_panic:
  assumes "haunts bg cmds s" and "is_order (bg_order bg)" and "is_rand (bg_Intn bg)"
    and "run_state (masterWorker bg between) s = (Ret (), t)" and "podsToKill fl fractionOfPodsToKill 0 normal = 0"
  shows "((\<exists>m. fst (run_state (podMonkeyRound bg fl fractionOfPodsToKill normal force between) s) = Panic m) \<longleftrightarrow>
      0 < podsToKill fl fractionOfPodsToKill (length (gm_keys (bs_pods s))) normal \<and>
      announced podAdded podDeleted (cmds @ between) = {}) \<and>
    (between = [] \<longrightarrow> fst (run_state (podMonkeyRound bg fl fractionOfPodsToKill normal force between) s) = Ret ()) \<and>
    ((\<exists>m. fst (run_state (deploymentMonkeyRound bg force) s) = Panic m) \<longleftrightarrow>
      announced deploymentAdded deploymentDeleted cmds = {})"
proof -
  let ?n = "podsToKill fl fractionOfPodsToKill (length (gm_keys (bs_pods s))) normal"
  have later: "haunts bg (cmds @ between) t" by (rule haunts_worker [OF assms(1,4)])
  obtain t' where pods: "run_state (masterRound bg (DeleteRandomPod force ?n)) t =
      (if 0 < ?n \<and> announced podAdded podDeleted (cmds @ between) = {} then Panic ''invalid argument to Intn'' else Ret (), t')"
    using random_pod_deletion [OF later assms(2,3)] by blast
  have none: "?n = 0" if "announced podAdded podDeleted cmds = {}"
    using that assms(5) tracked_names(3) [OF assms(1)] by (simp add: names_empty)
  obtain t2 where deployments: "run_state (masterRound bg (DeleteRandomDeployment force)) s =
      (if announced deploymentAdded deploymentDeleted cmds = {} then Panic ''invalid argument to Intn'' else Ret (), t2)"
    using random_deployment_deletion [OF assms(1-3)] by blast
  have round: "run_state (podMonkeyRound bg fl fractionOfPodsToKill normal force between) s =
      run_state (masterRound bg (DeleteRandomPod force ?n)) t"
    using assms(4) by (simp add: podMonkeyRound_def NumberOfPods_def)
  show ?thesis
    unfolding round deploymentMonkeyRound_def pods deployments using none by auto
qed

text \<open>A monkey that kills every pod it counts, on integers: the last pod goes away before its command.\<close>

definition demo_fl :: "int float64" where
  "demo_fl = \<lparr>fl_of_int = (\<lambda>n. n), fl_times = (*), fl_plus = (+), fl_half = 0, fl_int = (\<lambda>x. x)\<rparr>"

theorem chaos_monkeys_panic_witness:
  "\<exists>m. fst (run_state (podMonkeyRound demo_boogeyman demo_fl 1 2 True [newUpdateCommand podDeleted ''b'']) demo_haunted) = Panic m"
proof -
  let ?gone = "[newUpdateCommand podDeleted ''b'']"
  let ?t = "demo_haunted\<lparr>bs_pods := gm_delete (bs_pods demo_haunted) ''b''\<rparr>"
  have worker: "run_state (masterWorker demo_boogeyman ?gone) demo_haunted = (Ret (), ?t)"
    by (simp add: masterRound_def newUpdateCommand_def plainCommand_def cmd_defs ignoring_def)
  have zero: "podsToKill demo_fl 1 0 2 = 0" by (simp add: podsToKill_def demo_fl_def)
  have gone: "announced podAdded podDeleted (demo_cmds @ ?gone) = {}"
    using tracked_names(3) [OF haunts_worker [OF demo_haunts worker]]
    by (simp add: demo_haunted_def names_def gm_keys_def gm_delete_def)
  have one: "0 < podsToKill demo_fl 1 (length (gm_keys (bs_pods demo_haunted))) 2"
    by (simp add: podsToKill_def demo_fl_def demo_haunted_def gm_keys_def)
  from chaos_monkeys_panic [OF demo_haunts demo_rand worker zero, of True] one gone show ?thesis by blast
qed

end
