(* ===== verification/Spec2Isabelle.thy ===== *)
theory Spec2Isabelle
  imports Patch_Effect Admission_Concurrent Proxy_Client Proxy_Manager Chaos_Monkey
begin

text \<open>
  A verification development of the BalticLSC platform components (Go): the Rancher client, the admission
  webhook with its project resolver, the cluster proxy with its test client, and the fault injector of the
  tests.

  \<^bold>\<open>The program and how its parts interact.\<close> A computing cluster is managed by Rancher and by the Kubernetes
  API server. The \<^emph>\<open>cluster proxy\<close> (\<open>cluster-proxy/server/main.go\<close>) serves the gRPC interface of
  \<open>clusterproxy.proto\<close> to the BalticLSC master: it creates a namespace for every batch, runs, checks and
  disposes of modules in it, and describes the cluster. The \<^emph>\<open>webhook\<close> (\<open>namespace-controller\<close>) reviews
  what is created: the API server sends it every new namespace, which it puts into the requester's Rancher
  project, and every new pod, which must ask for resources and gets its limits. For that it keeps, in the
  \<^emph>\<open>project resolver\<close>, a cache of Rancher's projects, which it also publishes to the policy agent (OPA).
  Both talk to Rancher through the \<^emph>\<open>Rancher client\<close> (\<open>upstream/rancher-go/client\<close>). The \<^emph>\<open>test client\<close>
  (\<open>cluster-proxy/client/main.go\<close>) makes one call of the proxy per process. The \<^emph>\<open>boogeyman\<close>
  (\<open>tests/boogeyman\<close>) creates objects in a namespace and deletes them at random.

  \<^bold>\<open>Effects.\<close> An operation that talks to the outside is a state monad over the list of the requests made so
  far; the outside is a parameter, a function of that list and the request (\<open>service\<close> in
  \<open>Go_Prelude\<close>). The list is at the same time the trace, so a theorem for every service covers every
  behaviour of Rancher, of the API server and of the agent, including one that changes over time. Go's
  panics are values of \<open>outcome\<close> (\<open>Ret\<close> or \<open>Panic\<close>), an error result is an \<open>option\<close> or the left side of a
  sum, pointers are options, Go maps are lists of entries without repeated keys (\<open>gomap\<close>), and the order of
  a \<open>range\<close> loop over a map is a parameter, a permutation that may differ from loop to loop. Integers of the
  interface are words of their width; strings are lists of bytes.

  \<^bold>\<open>Theories.\<close>
  \<^item> \<open>Go_Prelude\<close>: panics, services, traces and invariants of effects, strings, numbers, maps, loop orders.
  \<^item> \<open>Go_Json\<close>, \<open>Json_Roundtrip\<close>, \<open>Json_Fuel\<close>: the encoder and the parser of \<open>encoding/json\<close>; what is
    encoded is parsed back; the parser's fuel is enough.
  \<^item> \<open>Go_Threads\<close>, \<open>Go_Tasks\<close>: goroutines. A thread asks an outside service and any thread may take the next
    turn (locale \<open>sharing\<close>: tenants that ask for their own objects do not notice each other; the requests
    of a call are bounded). A task is a sequence of blocks on shared memory (locale \<open>shared_state\<close>: an
    invariant that every block keeps holds in every interleaving; locale \<open>justified\<close>: an answer rests on
    states that the run went through).
  \<^item> \<open>Rancher_Types\<close> (\<open>types.go\<close>, \<open>parsers.go\<close>, \<open>yaml.go\<close>), \<open>Rancher_Client\<close> (\<open>client.go\<close>): members,
    projects, the comparison of members with the locale \<open>list_sync\<close>, the parsers, and every method of the
    client with its requests; the locale \<open>project_source\<close> is what the resolver needs of the client.
  \<^item> \<open>Project_Resolver\<close> (\<open>project_resolver.go\<close>): the cache, its refresh \<open>UpdateCache\<close> and the three
    queries; the record \<open>rstate\<close> holds the requests, the cache and the number of loops run.
    \<open>Resolver_Concurrent\<close> cuts the same methods into blocks, for the reviews that share the cache.
  \<^item> \<open>Admission_Controller\<close> (\<open>admission_controller.go\<close>, \<open>http_server.go\<close>, \<open>namespace-controller/main.go\<close>):
    the two kinds of review, the handler, the routing and the process; the locale \<open>resolver_contract\<close> is
    what the webhook needs of the resolver. \<open>Admission_Patch\<close>: the patch as the API server reads it.
    \<open>Patch_Effect\<close>: what the patch does to the object, by the rules of JSON Patch (RFC 6901 and 6902).
    \<open>Admission_Concurrent\<close>: the handler as a task, and reviews that run at the same time.
  \<^item> \<open>Kube_Types\<close> (\<open>clusterproxy.proto\<close> and the objects the proxy sends), \<open>Proxy_Workspace\<close>, \<open>Proxy_Module\<close>,
    \<open>Proxy_Cluster\<close> (\<open>cluster-proxy/server/main.go\<close>): the workspace calls, the module calls, the description,
    the dispatch of calls, sessions and the start-up. \<open>Proxy_Concurrent\<close> writes the handlers as threads.
    \<open>Proxy_Store\<close>: an API server that keeps objects. \<open>Proxy_Manager\<close>: on such a server the calls refine
    an abstract manager of batches and modules (locale \<open>simulation\<close>).
  \<^item> \<open>Proxy_Client\<close> (\<open>cluster-proxy/client/main.go\<close>): the commands, the command line, the exit codes, and the
    client connected to the model of the server.
  \<^item> \<open>Boogeyman\<close>, \<open>Chaos_Monkey\<close> (\<open>tests/boogeyman\<close>): the master's commands, the watchers, the monkeys.
  \<^item> \<open>Spec2Isabelle\<close>: the proxy's namespaces and pods under the webhook's review.

  \<^bold>\<open>What is shown.\<close> Of the webhook: in every reachable state a namespace is only put into the requester's
  sole, not owned project of matching name, as far as the resolver knows the projects; the decision on pods
  is the one of a short specification, whatever the order of the loops; the patches are well-formed JSON,
  and the patch of a pod adds the missing limits, provided that the container has an object of limits and
  the resource no slash in its name, else it cannot be applied; the server only reads Rancher with its token
  and publishes without it. When reviews interleave, every reply is justified by what the cache held in
  states of the run, and the cache only holds what Rancher granted; but a review that meets a refresh sees a
  part of the cache, and two refreshes at the same time fill it twice. Of the resolver: a refresh computes exactly
  Rancher's relation (a refinement of the abstract functions \<open>projectsOfUser\<close> and \<open>projectOfNamespace\<close>);
  what a failed or a concurrent refresh leaves behind. Of the proxy: \<open>RunBalticModule\<close> is the execution of a
  plan that is a function of the message; what it deploys refers only to what it created; \<open>DisposeBalticModule\<close>
  deletes what was created; batches do not interfere, one after the other or interleaved; the requests of
  every call are bounded; the status calls report the conditions of the objects, and these alone reach the
  client as errors with a status; the quotas are given in the units of the interface; on a server that keeps objects every
  sequence of calls succeeds, fails and leaves objects exactly as an abstract manager of batches and modules
  says, as long as a module keeps its shape, and what leaks when it does not. Of the client: the whole life of a module
  through five processes. Of both together: what the proxy creates passes the webhook. The error theorems
  state what the code does where it fails: they are the findings listed beside this development.

  \<^bold>\<open>Proof structure.\<close> Each operation has a lemma \<open>run_\<dots>\<close> that gives its result and its new state in closed
  form; properties are consequences of these. Interfaces are locales, proved once and interpreted on the
  model: \<open>go_map\<close>, \<open>list_sync\<close>, \<open>project_source\<close>, \<open>resolver_contract\<close>, \<open>tracker\<close>, \<open>sharing\<close>,
  \<open>shared_state\<close>, \<open>justified\<close>, \<open>simulation\<close> among them. The theories end with a small installation, on which the theorems are
  instantiated in the lemmas named \<open>\<dots>_witness\<close>.

  \<^bold>\<open>Fuel and bounds.\<close> Only the JSON parser runs on fuel, one unit for each value, element and member.
  \<open>json_parse\<close> gives \<open>2 n + 1\<close> units for \<open>n\<close> bytes; every successful step consumes a byte, so more never
  changes the result (\<open>enough_fuel\<close>). Go's decoder also gives up on more than 10000 nested values, which is
  not modelled. Every other loop is structural or has a measure. The round trips are stated for ASCII texts.

  \<^bold>\<open>Parameters.\<close> Not in the repository, hence arguments of the definitions: Rancher, the API server and the
  agent; \<open>gjson\<close>; the decoders of the Kubernetes API machinery, the encoder of the review and \<open>Quantity\<close>
  arithmetic (\<open>admission_env\<close>, \<open>ku_quantities\<close>); the gRPC connection, the formatting of replies and
  \<open>json.MarshalIndent\<close> in the client; the YAML decoder; random draws and floating-point operations in the
  boogeyman; sockets and TLS. A theorem that relies on one of them says so in a hypothesis: that an API
  server keeps namespaces apart (\<open>separated\<close>), obliges (\<open>obliging\<close>) or keeps objects, with its deletions finished
  before the next call (\<open>keepsObjects\<close>), that a decoder returns maps without
  repeated keys (\<open>decodesMaps\<close>), that the value of a quantity is rounded up (\<open>roundsUp\<close>), that a draw is
  below its bound (\<open>is_rand\<close>).

  \<^bold>\<open>Not modelled.\<close> Log lines and debug output; the generated gRPC stubs; deadlines and cancellation of
  contexts; memory that two goroutines access within one block (in Go a data race, which may also end the
  process); \<open>GetClusterDescription\<close> among the interleaved calls, since it only reads; the sleeps and the
  endless loops of the monkeys, whose rounds are modelled; the signal handler of the tests, which cleans up in
  a goroutine beside the master; the switch that turns off the verification of
  certificates; the repository's tests, shell scripts, Dockerfiles, deployment descriptions and
  documentation.

  \<^bold>\<open>Left to do.\<close> Deletions that take time on the server that keeps objects; the description of the cluster
  among the interleaved calls.
\<close>

section \<open>The proxy's workspaces in the eyes of the webhook\<close>

text \<open>
  The cluster proxy creates its namespaces as a Rancher user, so the API server sends each of them to
  the webhook. The object under review is the one the proxy sent: same name, same annotations.
\<close>

definition reviewedNamespace :: "KubeNamespace \<Rightarrow> NamespaceObj" where
  "reviewedNamespace n = \<lparr>ns_Name = kn_Name n, ns_Annotations = kn_Annotations n\<rparr>"

lemma workspace_prefix: "HasPrefix (kn_Name (workspaceNamespace proxy msg)) (px_projectName proxy)"
  by (simp add: workspaceNamespace_def getNSNameForBatch_def Let_def HasPrefix_def)

lemma workspace_annotations_ok: "gm_ok (kn_Annotations (workspaceNamespace proxy msg))"
  by (simp add: workspaceNamespace_def gm_ok_def Let_def)

lemma workspace_project:
  "map_of (kn_Annotations (workspaceNamespace proxy msg)) ''field.cattle.io/projectId'' = Some (getProjectID proxy)"
  by (simp add: workspaceNamespace_def Let_def)

lemma prepare_request:
  "CreateNamespace n \<in> set (snd (run_state (PrepareWorkspace proxy msg) [])) \<longleftrightarrow> n = workspaceNamespace proxy msg"
  by (auto simp: PrepareWorkspace_def split: prod.split)

text \<open>Setting the project of a workspace to the project it already has changes nothing.\<close>

lemma workspace_patch:
  "annotationPatch (gm_set (kn_Annotations (workspaceNamespace proxy msg)) ''field.cattle.io/projectId'' (getProjectID proxy))
     = annotationPatch (kn_Annotations (workspaceNamespace proxy msg))"
  by (intro annotationPatch_cong) (auto simp: workspace_annotations_ok workspace_project fun_eq_iff)

lemma workspace_placed:
  assumes "up_ProjectName info = px_projectName proxy" and "up_ProjectID info = getProjectID proxy"
  shows "placeNamespace (reviewedNamespace (workspaceNamespace proxy msg)) info =
    Decided True ''denied'' [annotationPatch (kn_Annotations (workspaceNamespace proxy msg))]"
  using assms by (simp add: placeNamespace_def reviewedNamespace_def workspace_prefix workspace_patch)

text \<open>
  C19: The webhook lets the proxy's workspaces through unchanged: when the proxy's user is a plain member
  of the proxy's project and of no other, the namespace that \<open>PrepareWorkspace\<close> creates is allowed, and
  the patch replaces its annotations by the annotations it already has, so project and quota survive.
\<close>

theorem workspace_admitted:
  assumes "CreateNamespace n \<in> set (snd (run_state (PrepareWorkspace proxy msg) []))"
    and "is_order (pr_order pr)" and "decodesMaps env" and "decodes env r req" and "ar_Kind req = ''Namespace''"
    and "ae_namespace env (ar_Raw req) = Inr (Some (reviewedNamespace n))"
    and "run_state (ResolveProjectsByUser pr (ar_Username req)) s = (Ret ([info], None), t)"
    and "\<not> up_IsOwner info" and "up_ProjectName info = px_projectName proxy"
    and "up_ProjectID info = px_clusterId proxy @ '':'' @ px_projectId proxy"
  shows "\<exists>reason. run_state (ServeAdmitFunc env (NewAdmissionController pr) r) (fresh s) =
    (Ret (), \<lparr>as_resolver = t\<lparr>st_loops := Suc (st_loops t)\<rparr>,
      as_writer = reply env req (Decided True reason [annotationPatch (kn_Annotations n)])\<rparr>)"
proof -
  let ?ac = "NewAdmissionController pr"
  have ord: "is_order (pr_order (ac_projectResolver ?ac))" using assms(2) by simp
  have n: "n = workspaceNamespace proxy msg" using assms(1) by (simp add: prepare_request)
  have id: "up_ProjectID info = getProjectID proxy" using assms(10) by (simp add: getProjectID_def)
  have "HasPrefix (ns_Name (reviewedNamespace n)) (up_ProjectName info)"
    by (simp add: reviewedNamespace_def n assms(9) workspace_prefix)
  then have "run_state (admitNamespace env ?ac req) (fresh s) =
      (Ret (Decided True ''denied'' [annotationPatch (kn_Annotations n)]),
       (fresh s)\<lparr>as_resolver := t\<lparr>st_loops := Suc (st_loops t)\<rparr>\<rparr>)"
    using assms(6-8) workspace_placed [OF assms(9) id, of msg]
    by (simp add: run_admitNamespace [OF ord assms(3)] soleProject_def n)
  with run_ServeAdmitFunc [OF assms(4), of ?ac s] assms(5) show ?thesis
    by (intro exI [of _ "''denied''"]) (simp add: fresh_def)
qed

definition demo_member :: UserProjectInfo where
  "demo_member = \<lparr>up_IsOwner = False, up_ProjectID = ''c:p'', up_ProjectName = ''alice''\<rparr>"

definition demo_batch :: XWorkspace where
  "demo_batch = \<lparr>xw_BatchId = ''b'', xw_Quota = None\<rparr>"

theorem workspace_admitted_witness:
  "\<exists>reason. run_state (ServeAdmitFunc
        (demo_admission\<lparr>ae_namespace := \<lambda>b. Inr (Some (reviewedNamespace
           (workspaceNamespace (demo_proxy (demo_kube (\<lambda>q. False) Map.empty Map.empty [])) demo_batch)))\<rparr>)
        (NewAdmissionController (demo_pr demo_url stored_order)) (demo_post ''ns2''))
      (fresh (demo_after\<lparr>st_cache := demo_cache\<lparr>User2projects := [(''u2'', [demo_member])]\<rparr>\<rparr>)) =
    (Ret (), \<lparr>as_resolver = (demo_after\<lparr>st_cache := demo_cache\<lparr>User2projects := [(''u2'', [demo_member])]\<rparr>,
        st_loops := Suc (st_loops demo_after)\<rparr>),
      as_writer = reply demo_admission demo_req2 (Decided True reason [annotationPatch (kn_Annotations
        (workspaceNamespace (demo_proxy (demo_kube (\<lambda>q. False) Map.empty Map.empty [])) demo_batch))])\<rparr>)"
proof -
  let ?proxy = "demo_proxy (demo_kube (\<lambda>q. False) Map.empty Map.empty [])"
  let ?n = "workspaceNamespace ?proxy demo_batch"
  let ?env = "demo_admission\<lparr>ae_namespace := \<lambda>b. Inr (Some (reviewedNamespace ?n))\<rparr>"
  let ?s = "demo_after\<lparr>st_cache := demo_cache\<lparr>User2projects := [(''u2'', [demo_member])]\<rparr>\<rparr>"
  have maps: "decodesMaps ?env"
    by (auto simp: decodesMaps_def reviewedNamespace_def workspace_annotations_ok)
  have dec: "decodes ?env (demo_post ''ns2'') demo_req2"
    by (simp add: decodes_def demo_post_def demo_admission_def)
  have same: "reply ?env demo_req2 v = reply demo_admission demo_req2 v" for v
    by (cases v) (simp_all add: reply_def)
  have user: "run_state (ResolveProjectsByUser (demo_pr demo_url stored_order) (ar_Username demo_req2)) ?s
      = (Ret ([demo_member], None), ?s)"
    by (simp add: ResolveProjectsByUser_def gm_at_def)
  have member: "\<not> up_IsOwner demo_member" "up_ProjectName demo_member = px_projectName ?proxy"
    "up_ProjectID demo_member = px_clusterId ?proxy @ '':'' @ px_projectId ?proxy"
    by (simp_all add: demo_member_def demo_proxy_def)
  have request: "CreateNamespace ?n \<in> set (snd (run_state (PrepareWorkspace ?proxy demo_batch) []))"
    by (simp add: prepare_request)
  have read: "ae_namespace ?env (ar_Raw demo_req2) = Inr (Some (reviewedNamespace ?n))" by simp
  have ord: "is_order (pr_order (demo_pr demo_url stored_order))" by simp
  have loops: "?s\<lparr>st_loops := Suc (st_loops ?s)\<rparr> = ?s\<lparr>st_loops := Suc (st_loops demo_after)\<rparr>" by simp
  show ?thesis
    by (rule workspace_admitted [OF request ord maps dec demo_kinds(2) read user member, unfolded same loops])
qed

section \<open>The proxy's modules in the eyes of the webhook\<close>

text \<open>
  The pod of a deployment as the API server submits it for review: the container keeps its name and its
  limits, and a resource with a limit and no request gets the limit as its request.
\<close>

definition asSubmitted :: "'q KubeContainer \<Rightarrow> 'q Container \<Rightarrow> bool" where
  "asSubmitted k c \<longleftrightarrow> ct_Name c = kc_Name k \<and> ct_Limits c = kc_Limits k \<and>
     (\<exists>reqs. ct_Requests c = Some reqs \<and> map_of reqs = map_of (kc_Limits k) ++ map_of (kc_Requests k))"

text \<open>A container whose requests are among its limits needs nothing and lacks nothing.\<close>

lemma limits_cover_requests:
  assumes "asSubmitted k c" and "map_of (kc_Requests k) \<subseteq>\<^sub>m map_of (kc_Limits k)" and "\<And>q. ae_Cmp env q q \<noteq> 1"
  shows "containerOk env c" and "missingLimits env i c ks = []"
proof -
  from assms(1,2) have eq: "map_of (requestsOf c) = map_of (ct_Limits c)"
    by (auto simp: asSubmitted_def requestsOf_def map_le_def map_add_def fun_eq_iff split: option.split)
      (metis domI option.inject)
  show "containerOk env c"
    using assms(1,3) eq
    by (auto simp: containerOk_def asSubmitted_def list_all_iff exceeds_def split: option.splits)
  show "missingLimits env i c ks = []"
    by (auto simp: missingLimits_def unlimited_def eq filter_empty_conv)
qed

lemma module_requests_limited:
  "moduleResources qa resources = Ret (limits, requests) \<Longrightarrow> map_of requests \<subseteq>\<^sub>m map_of limits"
  by (auto simp: moduleResources_def map_le_def split: outcome.splits if_splits)

text \<open>
  C20: A module never trips the webhook's check of pods: whatever resources were asked for, the pod of the
  deployment that \<open>RunBalticModule\<close> creates states its requests, none above its limit, so in a normal
  user's project it is allowed, and no limit has to be patched in.
\<close>

theorem module_pod_admitted:
  assumes "run_state (RunBalticModule proxy msg) h = (Ret (resp, None), h' @ [CreateDeployment ns d])"
    and "list_all2 asSubmitted (de_Containers d) cs" and "\<And>q. ae_Cmp env q q \<noteq> 1"
    and "is_order (pr_order pr)" and "decodes env r req" and "ar_Kind req = ''Pod''"
    and "ae_pod env (ar_Raw req) = Inr (Some cs)"
    and "run_state (ResolveProjectIdbyNamespace pr (ar_Namespace req)) s = (Ret (pid, cached, e), t)" and "pid \<noteq> ''''"
    and "run_state (FindUserByProject pr pid) t = (Ret (u, False, None), t')"
  shows "\<exists>reason. run_state (ServeAdmitFunc env (NewAdmissionController pr) r) (fresh s) =
    (Ret (), \<lparr>as_resolver = t'\<lparr>st_loops := st_loops t' + 1\<rparr>, as_writer = reply env req (Decided True reason [])\<rparr>)"
proof -
  let ?ac = "NewAdmissionController pr"
  have ord: "is_order (pr_order (ac_projectResolver ?ac))" using assms(4) by simp
  obtain limits requests where res: "moduleResources (ku_quantities (px_kube proxy)) (getResources msg) = Ret (limits, requests)"
    and d: "d = plannedDeployment ns msg limits requests"
    using run_RunBalticModule_end [OF assms(1)] by auto
  let ?k = "moduleContainer msg (moduleMounts msg) limits requests"
  have "de_Containers d = [?k]"
    by (simp add: d plannedDeployment_def moduleDeployment_def)
  with assms(2) obtain c where c: "cs = [c]" "asSubmitted ?k c"
    by (auto simp: list_all2_Cons1)
  have covered: "map_of (kc_Requests ?k) \<subseteq>\<^sub>m map_of (kc_Limits ?k)"
    using module_requests_limited [OF res] by (simp add: moduleContainer_def)
  note ok = limits_cover_requests [OF c(2) covered assms(3)]
  obtain reason ops where pod: "run_state (admitPod env ?ac req) (fresh s) =
      (Ret (Decided (list_all (containerOk env) cs) reason ops),
       (fresh s)\<lparr>as_resolver := t'\<lparr>st_loops := st_loops t' + length cs\<rparr>\<rparr>)"
    "mset ops = mset (allMissingLimits env 0 cs)"
    using run_admitPod [OF ord assms(7), of "fresh s" pid cached e t u t'] assms(8-10) by auto
  with c(1) ok have "run_state (admitPod env ?ac req) (fresh s) =
      (Ret (Decided True reason []), (fresh s)\<lparr>as_resolver := t'\<lparr>st_loops := st_loops t' + 1\<rparr>\<rparr>)"
    by simp
  with run_ServeAdmitFunc [OF assms(5), of ?ac s] assms(6) show ?thesis
    by (intro exI [of _ reason]) (simp add: fresh_def)
qed

definition demo_submitted :: "int PodObj" where
  "demo_submitted = [\<lparr>ct_Name = ''m'',
     ct_Requests = Some [(''cpu'', 250), (''memory'', 268435456000), (''nvidia.com/gpu'', 0)],
     ct_Limits = [(''cpu'', 250), (''memory'', 268435456000), (''nvidia.com/gpu'', 0)]\<rparr>]"

definition demo_pods :: "int admission_env" where
  "demo_pods =
     \<lparr>ae_review = (\<lambda>b. Inr (Some demo_req3)), ae_namespace = (\<lambda>b. Inr (Some demo_ns)),
      ae_pod = (\<lambda>b. Inr (Some demo_submitted)),
      ae_Cmp = (\<lambda>a b. if a < b then -1 else if a = b then 0 else 1),
      ae_String = fmt_d,
      ae_encode = (\<lambda>resp. Inr (if rp_Allowed resp then ''+'' @ the (rp_Patch resp) else ''-'' @ the (rp_Message resp)))\<rparr>"

theorem module_pod_admitted_witness:
  "\<exists>reason. run_state (ServeAdmitFunc demo_pods (NewAdmissionController (demo_pr demo_url stored_order)) (demo_post ''pod''))
      (fresh demo_after) =
    (Ret (), \<lparr>as_resolver = demo_after\<lparr>st_loops := 4\<rparr>, as_writer = reply demo_pods demo_req3 (Decided True reason [])\<rparr>)"
proof -
  let ?d = "plannedDeployment ''alice-b'' demo_module [(''cpu'', 250), (''memory'', 268435456000), (''nvidia.com/gpu'', 0)]
    [(''cpu'', 250), (''memory'', 268435456000)]"
  have submitted: "list_all2 asSubmitted (de_Containers ?d) demo_submitted"
    by (simp add: plannedDeployment_def moduleDeployment_def moduleContainer_def demo_submitted_def asSubmitted_def
        demo_module_def fun_eq_iff map_add_def)
  have dec: "decodes demo_pods (demo_post ''pod'') demo_req3"
    by (simp add: decodes_def demo_post_def demo_pods_def)
  have cmp: "ae_Cmp demo_pods q q \<noteq> 1" for q by (simp add: demo_pods_def)
  have pod: "ae_pod demo_pods (ar_Raw demo_req3) = Inr (Some demo_submitted)" by (simp add: demo_pods_def)
  have ord: "is_order (pr_order (demo_pr demo_url stored_order))" by simp
  from module_pod_admitted [OF demo_run [unfolded append_assoc [symmetric]] submitted cmp ord dec demo_kinds(3) pod
      demo_lookup(1) _ demo_lookup(2)]
  show ?thesis by simp
qed

end
